(* ===== verification/Prelude.thy ===== *)
theory Prelude
  imports Complex_Main
begin

text \<open>
  Shared vocabulary of the development. The sources are TypeScript: every quantity is a
  JavaScript number. The map code only ever stores integral values in cell and area
  coordinates and ids, and pixel values that are sums and products of the engine's sizes.
  Cell and area coordinates are therefore modelled as \<open>int\<close> and pixel coordinates as
  \<open>real\<close> (exact arithmetic; the double rounding of the engine is not modelled).
  The two JavaScript operators whose meaning differs from HOL's are written out here:
  \<^item> \<open>a % b\<close> truncates towards zero (the result has the sign of \<open>a\<close>), while HOL's
    \<open>mod\<close> on \<open>int\<close> rounds towards minus infinity: \<open>js_rem\<close>;
  \<^item> \<open>xs.indexOf(x)\<close> answers \<open>-1\<close> when \<open>x\<close> is absent and the position otherwise;
    a number is truthy when it is not \<open>0\<close>: \<open>index_of\<close>, \<open>js_truthy\<close>.
  A method that may throw returns the state it reached with the exception, if any
  (\<open>seqE\<close>, \<open>forEachE\<close>). The lemmas about row-major grids (\<open>x + y * w\<close>) are shared by the cell grid and the
  area grid of \<open>MapUtil\<close>.
\<close>

named_theorems js_simps "rewrite JavaScript number operations on integral values into HOL"

type_synonym ipoint = "int \<times> int" \<comment> \<open>a \<open>Vec2\<close> holding cell or area coordinates\<close>
type_synonym isize = "int \<times> int" \<comment> \<open>a \<open>Size\<close> counted in cells or areas: (width, height)\<close>
type_synonym rpoint = "real \<times> real" \<comment> \<open>a \<open>Vec2\<close> holding pixel coordinates\<close>
type_synonym rsize = "real \<times> real" \<comment> \<open>a \<open>Size\<close> in pixels: (width, height)\<close>

section \<open>JavaScript number operations\<close>

definition js_rem :: "int \<Rightarrow> int \<Rightarrow> int" where
  "js_rem a b = sgn a * (\<bar>a\<bar> mod \<bar>b\<bar>)"

primrec index_of :: "'a list \<Rightarrow> 'a \<Rightarrow> int" where
  "index_of [] x = -1"
| "index_of (y # ys) x = (if y = x then 0 else
     (let i = index_of ys x in if i = -1 then -1 else i + 1))"

definition js_truthy :: "int \<Rightarrow> bool" where
  "js_truthy n \<longleftrightarrow> n \<noteq> 0"

text \<open>JSON values as the code reads them from server messages: a property is absent
  (\<open>undefined\<close>, the option's \<open>None\<close>), a number (always integral in these messages) or
  a string. \<open>js_to_string\<close> is JavaScript's conversion in \<open>a + "_" + b\<close>;
  \<open>js_pos\<close> is the test \<open>v > 0\<close>, where \<open>undefined\<close> compares false and a string is
  converted to a number (the model reads decimal digit strings; any other string is
  \<open>NaN\<close> and compares false).\<close>

datatype jval = JNum int | JStr string

fun nat_to_string :: "nat \<Rightarrow> string" where
  "nat_to_string n =
     (if n < 10 then [char_of (48 + n)] else nat_to_string (n div 10) @ [char_of (48 + n mod 10)])"

definition int_to_string :: "int \<Rightarrow> string" where
  "int_to_string i = (if i < 0 then ''-'' @ nat_to_string (nat (- i)) else nat_to_string (nat i))"

definition js_digit :: "char \<Rightarrow> bool" where
  "js_digit c \<longleftrightarrow> (48 :: nat) \<le> of_char c \<and> of_char c \<le> (57 :: nat)"

definition digits_val :: "string \<Rightarrow> nat" where
  "digits_val cs = foldl (\<lambda>acc c. acc * 10 + (of_char c - 48)) 0 cs"

definition parse_int :: "string \<Rightarrow> int option" where
  "parse_int cs =
     (case cs of
        [] \<Rightarrow> None
      | c # ds \<Rightarrow>
          if c = CHR ''-'' then (if ds \<noteq> [] \<and> list_all js_digit ds then Some (- int (digits_val ds)) else None)
          else if list_all js_digit cs then Some (int (digits_val cs)) else None)"

definition js_to_string :: "jval option \<Rightarrow> string" where
  "js_to_string v = (case v of None \<Rightarrow> ''undefined'' | Some (JNum n) \<Rightarrow> int_to_string n
                              | Some (JStr t) \<Rightarrow> t)"

definition js_pos :: "jval option \<Rightarrow> bool" where
  "js_pos v = (case v of None \<Rightarrow> False | Some (JNum n) \<Rightarrow> 0 < n
                       | Some (JStr t) \<Rightarrow> t \<noteq> [] \<and> list_all js_digit t \<and> 0 < digits_val t)"

section \<open>Statements that may throw\<close>

text \<open>A method that mutates its object in place and may throw is modelled as a function
  from the state to the state reached and the exception thrown, if any: what the method
  changed before the throw persists. \<open>seqE\<close> runs the next statement only when no
  exception was thrown; \<open>forEachE\<close> is a \<open>for\<close> loop over an array whose body may throw.\<close>

definition seqE :: "'s \<times> 'e option \<Rightarrow> ('s \<Rightarrow> 's \<times> 'e option) \<Rightarrow> 's \<times> 'e option" where
  "seqE r f = (case snd r of None \<Rightarrow> f (fst r) | Some e \<Rightarrow> r)"

fun forEachE :: "('a \<Rightarrow> 's \<Rightarrow> 's \<times> 'e option) \<Rightarrow> 'a list \<Rightarrow> 's \<Rightarrow> 's \<times> 'e option" where
  "forEachE f [] s = (s, None)"
| "forEachE f (x # xs) s = seqE (f x s) (forEachE f xs)"

section \<open>Lemmas on JavaScript number operations\<close>

lemma js_rem_nonneg [js_simps]: "0 \<le> a \<Longrightarrow> 0 < b \<Longrightarrow> js_rem a b = a mod b"
  by (cases "a = 0") (auto simp: js_rem_def sgn_if)

lemma js_rem_neg: "a < 0 \<Longrightarrow> 0 < b \<Longrightarrow> js_rem a b = - ((- a) mod b)"
  by (simp add: js_rem_def)

lemma floor_real_div [js_simps]: "\<lfloor>real_of_int a / real_of_int b\<rfloor> = a div b"
  by (rule floor_divide_of_int_eq)

lemma ceiling_real_div [js_simps]: "\<lceil>real_of_int a / real_of_int b\<rceil> = - ((- a) div b)"
proof -
  have "\<lceil>real_of_int a / real_of_int b\<rceil> = - \<lfloor>real_of_int (- a) / real_of_int b\<rfloor>"
    by (simp add: ceiling_def)
  then show ?thesis by (simp only: floor_real_div)
qed

lemma index_of_ge: "-1 \<le> index_of xs x"
  by (induction xs) (auto simp: Let_def)

lemma index_of_absent [simp]: "index_of xs x = -1 \<longleftrightarrow> x \<notin> set xs"
proof (induction xs)
  case Nil
  then show ?case by simp
next
  case (Cons y ys)
  have "-1 \<le> index_of ys x" by (rule index_of_ge)
  with Cons show ?case by (auto simp: Let_def)
qed

lemma index_of_zero: "index_of xs x = 0 \<longleftrightarrow> (xs \<noteq> [] \<and> hd xs = x)"
proof (induction xs)
  case Nil
  then show ?case by simp
next
  case (Cons y ys)
  show ?case
  proof (cases "x \<in> set ys")
    case True
    then have "index_of ys x \<noteq> -1" by simp
    with index_of_ge [of ys x] have "index_of ys x + 1 \<noteq> 0" by linarith
    then show ?thesis by (auto simp: Let_def)
  next
    case False
    then show ?thesis by (auto simp: Let_def)
  qed
qed

lemma js_truthy_index_of:
  "js_truthy (index_of xs x) \<longleftrightarrow> x \<notin> set xs \<or> (xs \<noteq> [] \<and> hd xs \<noteq> x)"
  by (auto simp: js_truthy_def index_of_zero)

section \<open>Row-major grids\<close>

text \<open>
  Both grids of the map number a point \<open>(x, y)\<close> of a grid \<open>w\<close> wide as \<open>x + y * w\<close> and
  recover the point with \<open>id % w\<close> and \<open>Math.floor(id / w)\<close>.
\<close>

lemma grid_id_bounds:
  fixes x y w h :: int
  assumes "0 \<le> x" "x < w" "0 \<le> y" "y < h"
  shows "0 \<le> x + y * w \<and> x + y * w < w * h"
proof -
  have "y * w \<le> (h - 1) * w"
    using assms by (intro mult_right_mono) auto
  then show ?thesis
    using assms by (auto simp: algebra_simps)
qed

lemma grid_id_nonneg_inv:
  fixes n w h :: int
  assumes "0 \<le> n" "0 < w" "n < w * h"
  shows "0 \<le> n mod w \<and> n mod w < w \<and> 0 \<le> n div w \<and> n div w < h"
proof -
  have "n div w * w \<le> n"
    using assms by (simp add: minus_mod_eq_div_mult [symmetric])
  have "n div w < h"
  proof (rule ccontr)
    assume "\<not> n div w < h"
    then have "h * w \<le> n div w * w"
      using assms by (intro mult_right_mono) auto
    moreover have "n < h * w"
      using assms by (simp add: mult.commute)
    ultimately show False
      using \<open>n div w * w \<le> n\<close> by linarith
  qed
  then show ?thesis
    using assms by (simp add: pos_imp_zdiv_nonneg_iff)
qed

lemma grid_id_valid_iff:
  fixes x y w h :: int
  assumes "0 \<le> x" "x < w"
  shows "(0 \<le> x + y * w \<and> x + y * w < w * h) \<longleftrightarrow> (0 \<le> y \<and> y < h)"
proof
  assume "0 \<le> x + y * w \<and> x + y * w < w * h"
  with assms grid_id_nonneg_inv [of "x + y * w" w h] show "0 \<le> y \<and> y < h"
    by simp
next
  assume "0 \<le> y \<and> y < h"
  with assms show "0 \<le> x + y * w \<and> x + y * w < w * h"
    by (intro grid_id_bounds) auto
qed

lemma grid_coord_of_id:
  fixes x y w :: int
  assumes "0 \<le> x" "x < w"
  shows "(x + y * w) mod w = x \<and> (x + y * w) div w = y"
  using assms by simp

lemma grid_id_of_coord: "n mod w + n div w * w = (n :: int)"
  by (simp add: mult.commute)

section \<open>Lists as the code's arrays\<close>

lemma set_filter_absent [simp]:
  "set (filter (\<lambda>i. index_of ys i = -1) xs) = set xs - set ys"
  by auto

section \<open>Numbers as strings\<close>

declare nat_to_string.simps [simp del]

lemma js_digit_char: "(k :: nat) < 10 \<Longrightarrow> js_digit (char_of (48 + k))"
  by (simp add: js_digit_def of_char_of)

lemma nat_to_string_digits: "nat_to_string n \<noteq> [] \<and> list_all js_digit (nat_to_string n)"
proof (induction n rule: nat_to_string.induct)
  case (1 n)
  show ?case
  proof (cases "n < 10")
    case True
    then have "nat_to_string n = [char_of (48 + n)]" by (subst nat_to_string.simps) simp
    with True js_digit_char [of n] show ?thesis by simp
  next
    case False
    then have "nat_to_string n = nat_to_string (n div 10) @ [char_of (48 + n mod 10)]"
      by (subst nat_to_string.simps) simp
    with 1 False js_digit_char [of "n mod 10"] show ?thesis by simp
  qed
qed

lemma digits_val_snoc: "digits_val (cs @ [c]) = digits_val cs * 10 + (of_char c - 48)"
  by (simp add: digits_val_def)

lemma digits_val_nat_to_string: "digits_val (nat_to_string n) = n"
proof (induction n rule: nat_to_string.induct)
  case (1 n)
  show ?case
  proof (cases "n < 10")
    case True
    then show ?thesis by (subst nat_to_string.simps) (simp add: digits_val_def)
  next
    case False
    then have "digits_val (nat_to_string n) = digits_val (nat_to_string (n div 10)) * 10 + n mod 10"
      by (subst nat_to_string.simps) (simp add: digits_val_snoc)
    with 1 False show ?thesis by simp
  qed
qed

lemma parse_int_to_string: "parse_int (int_to_string i) = Some i"
proof (cases "i < 0")
  case True
  then show ?thesis
    using nat_to_string_digits [of "nat (- i)"]
    by (simp add: int_to_string_def parse_int_def digits_val_nat_to_string)
next
  case False
  obtain c ds where cds: "nat_to_string (nat i) = c # ds"
    using nat_to_string_digits [of "nat i"] by (cases "nat_to_string (nat i)") auto
  have "c \<noteq> CHR ''-''" using nat_to_string_digits [of "nat i"] cds by (auto simp: js_digit_def)
  with False cds show ?thesis
    using nat_to_string_digits [of "nat i"] digits_val_nat_to_string [of "nat i"]
    by (simp add: int_to_string_def parse_int_def)
qed

lemma int_to_string_inj: "int_to_string i = int_to_string j \<longleftrightarrow> i = j"
  by (metis option.inject parse_int_to_string)

lemma int_to_string_chars: "c \<in> set (int_to_string i) \<Longrightarrow> js_digit c \<or> c = CHR ''-''"
  using nat_to_string_digits [of "nat (- i)"] nat_to_string_digits [of "nat i"]
  by (auto simp: int_to_string_def list_all_iff split: if_splits)

lemma underscore_not_in_int_to_string: "CHR ''_'' \<notin> set (int_to_string i)"
  using int_to_string_chars [of "CHR ''_''" i] by (auto simp: js_digit_def)

lemma append_sep_inj:
  "c \<notin> set a \<Longrightarrow> c \<notin> set b \<Longrightarrow> a @ c # x = b @ c # y \<longleftrightarrow> a = b \<and> x = y"
proof (induction a arbitrary: b)
  case Nil
  then show ?case by (cases b) auto
next
  case (Cons d a)
  then show ?case by (cases b) auto
qed

lemma seqE_None [simp]: "seqE (s, None) f = f s"
  by (simp add: seqE_def)

lemma seqE_Some [simp]: "seqE (s, Some e) f = (s, Some e)"
  by (simp add: seqE_def)

lemma forEachE_append: "forEachE f (xs @ ys) s = seqE (forEachE f xs s) (forEachE f ys)"
  by (induction xs arbitrary: s) (auto simp: seqE_def split: option.splits)

text \<open>A property every iteration keeps, whether it throws or not, holds of the state
  the loop ends in.\<close>

lemma forEachE_inv:
  assumes "\<And>x t. x \<in> set xs \<Longrightarrow> P t \<Longrightarrow> P (fst (f x t))" and "P s"
  shows "P (fst (forEachE f xs s))"
  using assms
proof (induction xs arbitrary: s)
  case (Cons x xs)
  obtain t e where fx: "f x s = (t, e)" by fastforce
  have t: "P t" using Cons.prems(1) [of x s] Cons.prems(2) fx by simp
  have "P (fst (forEachE f xs t))" using Cons.prems(1) by (intro Cons.IH [OF _ t]) auto
  with fx t show ?case by (cases e) simp_all
qed simp

text \<open>A loop whose body does not throw on the states an invariant describes is a fold.\<close>

lemma forEachE_fold:
  assumes "\<And>x t. x \<in> set xs \<Longrightarrow> P t \<Longrightarrow> snd (f x t) = None \<and> P (fst (f x t))" and "P s"
  shows "forEachE f xs s = (fold (\<lambda>x t. fst (f x t)) xs s, None)"
  using assms
proof (induction xs arbitrary: s)
  case (Cons x xs)
  obtain t where fx: "f x s = (t, None)" and t: "P t"
    using Cons.prems(1) [of x s] Cons.prems(2) by (cases "f x s") auto
  have "forEachE f xs t = (fold (\<lambda>x t. fst (f x t)) xs t, None)"
    using Cons.prems(1) by (intro Cons.IH [OF _ t]) auto
  with fx show ?case by simp
qed simp

end
