(* ===== verification/MapUtil.thy ===== *)
theory MapUtil
  imports Prelude
begin

text \<open>
  The coordinate and partition engine, class \<open>MapUtil\<close> of \<^verbatim>\<open>src/unnamed/part_000\<close>.
  Its static fields become the record \<open>map_util\<close>; \<open>initMapConfig\<close> computes the record
  from the tiled map and the visible size, and every static method is a function of it.
  The three coordinate systems are cell coordinates (\<open>ipoint\<close>), map pixel coordinates
  and world pixel coordinates (\<open>rpoint\<close>). \<open>armyIsInView\<close>, which reads the city and
  building proxies of \<open>MapCommand\<close>, is modelled in theory \<open>MapCommand\<close>.
\<close>

section \<open>State\<close>

record map_util =
  mapPixelSize :: rsize
  mapOffsetPoint :: rpoint
  tileSize :: rsize
  mapSize :: isize
  zeroPixelPoint :: rpoint
  areaCellSize :: isize
  areaSize :: isize

text \<open>What \<open>initMapConfig\<close> reads from the \<open>TiledMap\<close> component and its \<open>UITransform\<close>.\<close>

record tiled_map =
  uit_width :: real
  uit_height :: real
  uit_anchorX :: real
  uit_anchorY :: real
  tm_tileSize :: rsize
  tm_mapSize :: isize

definition initMapConfig :: "tiled_map \<Rightarrow> rsize \<Rightarrow> map_util" where
  "initMapConfig m vsize =
     (let tile = tm_tileSize m;
          msize = tm_mapSize m;
          showH = min (\<lceil>snd vsize / snd tile / 2\<rceil> * 2 + 2) (snd msize)
      in \<lparr> mapPixelSize = (uit_width m, uit_height m),
           mapOffsetPoint = (uit_width m * uit_anchorX m, uit_height m * uit_anchorY m),
           tileSize = tile,
           mapSize = msize,
           zeroPixelPoint = (real_of_int (fst msize) * fst tile * 0.5,
                             real_of_int (snd msize) * snd tile - snd tile * 0.5),
           areaCellSize = (showH, showH),
           areaSize = (\<lceil>real_of_int (fst msize) / real_of_int showH\<rceil>,
                       \<lceil>real_of_int (snd msize) / real_of_int showH\<rceil>) \<rparr>)"

definition mapCellCount :: "map_util \<Rightarrow> int" where
  "mapCellCount u = fst (mapSize u) * snd (mapSize u)"

definition areaCount :: "map_util \<Rightarrow> int" where
  "areaCount u = fst (areaSize u) * snd (areaSize u)"

section \<open>Ids and points\<close>

definition getIdByCellPoint :: "map_util \<Rightarrow> int \<Rightarrow> int \<Rightarrow> int" where
  "getIdByCellPoint u x y = x + y * fst (mapSize u)"

definition getCellPointById :: "map_util \<Rightarrow> int \<Rightarrow> ipoint" where
  "getCellPointById u i =
     (js_rem i (fst (mapSize u)), \<lfloor>real_of_int i / real_of_int (fst (mapSize u))\<rfloor>)"

definition getIdByAreaPoint :: "map_util \<Rightarrow> int \<Rightarrow> int \<Rightarrow> int" where
  "getIdByAreaPoint u x y = x + y * fst (areaSize u)"

definition getAreaPointById :: "map_util \<Rightarrow> int \<Rightarrow> ipoint" where
  "getAreaPointById u i =
     (js_rem i (fst (areaSize u)), \<lfloor>real_of_int i / real_of_int (fst (areaSize u))\<rfloor>)"

section \<open>Neighbourhoods\<close>

definition get9GridCellIds :: "map_util \<Rightarrow> int \<Rightarrow> int list" where
  "get9GridCellIds u i =
     (let w = fst (mapSize u) in
      [i + w - 1, i + w, i + w + 1,
       i - 1, i, i + 1,
       i - w - 1, i - w, i - w + 1])"

definition getSideIdsForRoleCity :: "map_util \<Rightarrow> int \<Rightarrow> int list" where
  "getSideIdsForRoleCity u i =
     (let w = fst (mapSize u) in
      [i + w * 2 - 2, i + w * 2 - 1, i + w * 2, i + w * 2 + 1, i + w * 2 + 2,
       i + w - 2, i + w + 2,
       i - 2, i + 2,
       i - w - 2, i - w + 2,
       i - w * 2 - 2, i - w * 2 - 1, i - w - 1, i - w * 2 + 1, i - w * 2 + 2])"

text \<open>The influence distance of a system city by level, shared by \<open>getSideIdsForSysCity\<close>
  and \<open>MapProxy.getSysCityResData\<close>, which compute it with the same \<open>if\<close> chain.\<close>

definition sysCityDis :: "int \<Rightarrow> int" where
  "sysCityDis level = (if level \<ge> 8 then 3 else if level \<ge> 5 then 2 else 1)"

text \<open>The four \<open>for\<close> loops run \<open>tx\<close> (or \<open>ty\<close>) from \<open>x - dis\<close> to \<open>x + dis\<close>
  inclusive: the list \<open>[x - dis..x + dis]\<close>, in order.\<close>

definition getSideIdsForSysCity :: "map_util \<Rightarrow> int \<Rightarrow> int \<Rightarrow> int \<Rightarrow> int list" where
  "getSideIdsForSysCity u x y level =
     (let dis = sysCityDis level in
      map (\<lambda>tx. getIdByCellPoint u tx (y + dis)) [x - dis..x + dis] @
      map (\<lambda>tx. getIdByCellPoint u tx (y - dis)) [x - dis..x + dis] @
      map (\<lambda>ty. getIdByCellPoint u (x - dis) ty) [y - dis..y + dis] @
      map (\<lambda>ty. getIdByCellPoint u (x + dis) ty) [y - dis..y + dis])"

definition get9GridAreaIds :: "map_util \<Rightarrow> int \<Rightarrow> int list" where
  "get9GridAreaIds u i =
     (let w = fst (areaSize u) in
      [i + w - 1, i + w, i + w + 1,
       i - 1, i, i + 1,
       i - w - 1, i - w, i - w + 1])"

section \<open>Validity\<close>

definition isVaildCellPoint :: "map_util \<Rightarrow> ipoint \<Rightarrow> bool" where
  "isVaildCellPoint u p \<longleftrightarrow>
     0 \<le> fst p \<and> fst p < fst (mapSize u) \<and> 0 \<le> snd p \<and> snd p < snd (mapSize u)"

definition isVaildAreaPoint :: "map_util \<Rightarrow> ipoint \<Rightarrow> bool" where
  "isVaildAreaPoint u p \<longleftrightarrow>
     0 \<le> fst p \<and> fst p < fst (areaSize u) \<and> 0 \<le> snd p \<and> snd p < snd (areaSize u)"

definition isVaildAreaId :: "map_util \<Rightarrow> int \<Rightarrow> bool" where
  "isVaildAreaId u i \<longleftrightarrow> 0 \<le> i \<and> i < areaCount u"

text \<open>The loop of \<open>get9GridVaildAreaIds\<close> pushes the valid ids in order: a filter.\<close>

definition get9GridVaildAreaIds :: "map_util \<Rightarrow> int \<Rightarrow> int list" where
  "get9GridVaildAreaIds u i = filter (isVaildAreaId u) (get9GridAreaIds u i)"

section \<open>Areas of cells\<close>

definition getAreaPointByCellPoint :: "map_util \<Rightarrow> int \<Rightarrow> int \<Rightarrow> ipoint" where
  "getAreaPointByCellPoint u x y =
     (\<lfloor>real_of_int x / real_of_int (fst (areaCellSize u))\<rfloor>,
      \<lfloor>real_of_int y / real_of_int (snd (areaCellSize u))\<rfloor>)"

definition getAreaIdByCellPoint :: "map_util \<Rightarrow> int \<Rightarrow> int \<Rightarrow> int" where
  "getAreaIdByCellPoint u x y =
     (let point = getAreaPointByCellPoint u x y in getIdByAreaPoint u (fst point) (snd point))"

definition getStartCellPointByAreaPoint :: "map_util \<Rightarrow> int \<Rightarrow> int \<Rightarrow> ipoint" where
  "getStartCellPointByAreaPoint u x y = (x * fst (areaCellSize u), y * snd (areaCellSize u))"

definition getEndCellPointByAreaPoint :: "map_util \<Rightarrow> int \<Rightarrow> int \<Rightarrow> ipoint" where
  "getEndCellPointByAreaPoint u x y =
     ((x + 1) * fst (areaCellSize u), (y + 1) * snd (areaCellSize u))"

section \<open>Isometric projection\<close>

definition worldPixelToMapCellPoint :: "map_util \<Rightarrow> rpoint \<Rightarrow> ipoint" where
  "worldPixelToMapCellPoint u point =
     (\<lfloor>0.5 * real_of_int (snd (mapSize u)) + fst point / fst (tileSize u)
        - snd point / snd (tileSize u)\<rfloor>,
      \<lfloor>1.5 * real_of_int (fst (mapSize u)) - fst point / fst (tileSize u)
        - snd point / snd (tileSize u)\<rfloor>)"

definition mapCellToWorldPixelPoint :: "map_util \<Rightarrow> ipoint \<Rightarrow> rpoint" where
  "mapCellToWorldPixelPoint u point =
     (fst (zeroPixelPoint u)
        - (real_of_int (snd point) - real_of_int (fst point)) * fst (tileSize u) * 0.5,
      snd (zeroPixelPoint u)
        - (real_of_int (fst point) + real_of_int (snd point)) * snd (tileSize u) * 0.5)"

definition mapCellToPixelPoint :: "map_util \<Rightarrow> ipoint \<Rightarrow> rpoint" where
  "mapCellToPixelPoint u point =
     (let worldPoint = mapCellToWorldPixelPoint u point
      in (fst worldPoint - fst (mapOffsetPoint u), snd worldPoint - snd (mapOffsetPoint u)))"

definition mapPixelToCellPoint :: "map_util \<Rightarrow> rpoint \<Rightarrow> ipoint" where
  "mapPixelToCellPoint u point =
     worldPixelToMapCellPoint u
       (fst point + fst (mapOffsetPoint u), snd point + snd (mapOffsetPoint u))"

text \<open>\<open>getVaildAreaIdsByPixelPoints\<close>: the loop over the rest parameter \<open>points\<close>, with
  the array \<open>list\<close> it fills as accumulator.\<close>

fun vaildAreaIdsLoop :: "map_util \<Rightarrow> int list \<Rightarrow> rpoint list \<Rightarrow> int list" where
  "vaildAreaIdsLoop u list [] = list"
| "vaildAreaIdsLoop u list (p # ps) =
     (let cellPoint = mapPixelToCellPoint u p;
          areaPoint = getAreaPointByCellPoint u (fst cellPoint) (snd cellPoint);
          index = getIdByAreaPoint u (fst areaPoint) (snd areaPoint)
      in vaildAreaIdsLoop u
           (if isVaildAreaId u index \<and> index_of list index = -1 then list @ [index] else list) ps)"

definition getVaildAreaIdsByPixelPoints :: "map_util \<Rightarrow> rpoint list \<Rightarrow> int list" where
  "getVaildAreaIdsByPixelPoints u points = vaildAreaIdsLoop u [] points"

section \<open>Well-formed configurations\<close>

text \<open>
  What every conversion relies on, and what \<open>initMapConfig\<close> establishes from a square
  map with positive sizes: the map is square, tiles have a positive size, the origin
  pixel is the one of the isometric formulas, areas are squares of a positive side and
  the area grid is the rounded-up quotient of the map size by that side.
\<close>

definition map_util_ok :: "map_util \<Rightarrow> bool" where
  "map_util_ok u \<longleftrightarrow>
     (let W = fst (mapSize u); H = snd (mapSize u); s = fst (areaCellSize u) in
      0 < W \<and> W = H \<and> 0 < fst (tileSize u) \<and> 0 < snd (tileSize u)
      \<and> zeroPixelPoint u = (real_of_int W * fst (tileSize u) * 0.5,
                            real_of_int H * snd (tileSize u) - snd (tileSize u) * 0.5)
      \<and> 0 < s \<and> s \<le> H \<and> snd (areaCellSize u) = s
      \<and> areaSize u = (\<lceil>real_of_int W / real_of_int s\<rceil>, \<lceil>real_of_int H / real_of_int s\<rceil>))"

text \<open>The offsets, in the order of \<open>get9GridAreaIds\<close>, of the nine areas of a 3x3
  block around a centre: an aid for stating what the 9-grid contains.\<close>

definition nine_offsets :: "(int \<times> int) list" where
  "nine_offsets = [(-1, 1), (0, 1), (1, 1), (-1, 0), (0, 0), (1, 0), (-1, -1), (0, -1), (1, -1)]"

text \<open>The configuration of the spec's examples: 256x128 tiles, a 20x20 map and a
  1280x720 view, which gives areas of 8x8 cells on a 3x3 area grid.\<close>

definition demo_map :: tiled_map where
  "demo_map = \<lparr> uit_width = 5120, uit_height = 2560, uit_anchorX = 0.5, uit_anchorY = 0.5,
                tm_tileSize = (256, 128), tm_mapSize = (20, 20) \<rparr>"

definition demo_util :: map_util where
  "demo_util = initMapConfig demo_map (1280, 720)"

section \<open>Configuration\<close>

lemma demo_util_eq:
  "demo_util = \<lparr> mapPixelSize = (5120, 2560), mapOffsetPoint = (2560, 1280),
     tileSize = (256, 128), mapSize = (20, 20), zeroPixelPoint = (2560, 2496),
     areaCellSize = (8, 8), areaSize = (3, 3) \<rparr>"
  by (simp add: demo_util_def demo_map_def initMapConfig_def)

text \<open>C38: \<open>initMapConfig\<close> on a square map with positive sizes and a non-negative view
  height yields a well-formed configuration: positive square areas no larger than the
  map, an area grid that is the rounded-up quotient, and the isometric origin.\<close>

theorem map_util_ok_init:
  assumes "fst (tm_mapSize m) = snd (tm_mapSize m)" "0 < fst (tm_mapSize m)"
    "0 < fst (tm_tileSize m)" "0 < snd (tm_tileSize m)" "0 \<le> snd vsize"
  shows "map_util_ok (initMapConfig m vsize)"
proof -
  have "0 \<le> snd vsize / snd (tm_tileSize m) / 2"
    using assms by simp
  then have "0 \<le> \<lceil>snd vsize / snd (tm_tileSize m) / 2\<rceil>"
    by simp
  then have "0 < \<lceil>snd vsize / snd (tm_tileSize m) / 2\<rceil> * 2 + 2"
    by linarith
  then show ?thesis
    using assms by (simp add: map_util_ok_def initMapConfig_def Let_def)
qed

theorem map_util_ok_init_witness: "map_util_ok demo_util"
  unfolding demo_util_def
  by (rule map_util_ok_init) (simp_all add: demo_map_def)

lemma demo_util_ok: "map_util_ok demo_util"
  by (simp add: map_util_ok_def demo_util_eq)

text \<open>The area side is not always even. When the view needs more rows than the
  map has, \<open>Math.min\<close> caps the side at the map height, which may be odd: a 5x5 map
  in a 1280x720 view gets areas of side 5, against the spec's invariant that the area
  side length is even.\<close>

theorem area_side_capped_odd:
  "areaCellSize (initMapConfig (demo_map\<lparr>tm_mapSize := (5, 5)\<rparr>) (1280, 720)) = (5, 5)"
  by (simp add: initMapConfig_def demo_map_def)

section \<open>Ids and points: round trips\<close>

text \<open>C6: for a cell inside the map, \<open>getCellPointById\<close> recovers the coordinates
  that \<open>getIdByCellPoint\<close> numbered.\<close>

theorem cell_id_roundtrip:
  assumes "0 < fst (mapSize u)" "isVaildCellPoint u (x, y)"
  shows "getCellPointById u (getIdByCellPoint u x y) = (x, y)"
proof -
  have "0 \<le> x + y * fst (mapSize u)"
    using assms by (simp add: isVaildCellPoint_def)
  then show ?thesis
    using assms unfolding getCellPointById_def getIdByCellPoint_def floor_real_div
    by (simp add: isVaildCellPoint_def js_simps)
qed

theorem cell_id_roundtrip_witness:
  "getCellPointById demo_util (getIdByCellPoint demo_util 19 19) = (19, 19)
   \<and> getIdByCellPoint demo_util 19 19 = 399"
  using cell_id_roundtrip [of demo_util 19 19]
  by (simp add: demo_util_eq isVaildCellPoint_def getIdByCellPoint_def)

lemma cell_id_roundtrip_inv:
  assumes "0 < fst (mapSize u)" "0 \<le> i"
  shows "getIdByCellPoint u (fst (getCellPointById u i)) (snd (getCellPointById u i)) = i"
  using assms unfolding getCellPointById_def getIdByCellPoint_def floor_real_div
  by (simp add: js_simps grid_id_of_coord)

text \<open>For a negative id the round trip fails. JavaScript's \<open>%\<close> keeps the sign of
  the dividend while \<open>Math.floor\<close> rounds down, so \<open>getCellPointById(-1)\<close> is
  \<open>(-1, -1)\<close>, which \<open>getIdByCellPoint\<close> numbers \<open>-21\<close> on a 20-wide map: the
  coordinates of an out-of-range id are not consistent with the id.\<close>

theorem cell_id_negative_inconsistent:
  "getCellPointById demo_util (-1) = (-1, -1) \<and> getIdByCellPoint demo_util (-1) (-1) = -21"
  by (simp add: demo_util_eq getCellPointById_def getIdByCellPoint_def js_rem_def)

lemma area_point_by_id:
  assumes "0 < fst (areaSize u)" "isVaildAreaPoint u (ax, ay)"
  shows "getAreaPointById u (getIdByAreaPoint u ax ay) = (ax, ay)"
proof -
  have "0 \<le> ax + ay * fst (areaSize u)"
    using assms by (simp add: isVaildAreaPoint_def)
  then show ?thesis
    using assms unfolding getAreaPointById_def getIdByAreaPoint_def floor_real_div
    by (simp add: isVaildAreaPoint_def js_simps)
qed

lemma area_point_by_id_valid:
  assumes "0 < fst (areaSize u)" "isVaildAreaId u i"
  shows "isVaildAreaPoint u (getAreaPointById u i)
    \<and> getIdByAreaPoint u (fst (getAreaPointById u i)) (snd (getAreaPointById u i)) = i"
  using assms grid_id_nonneg_inv [of i "fst (areaSize u)" "snd (areaSize u)"]
  unfolding getAreaPointById_def getIdByAreaPoint_def floor_real_div
  by (simp add: isVaildAreaId_def isVaildAreaPoint_def areaCount_def js_simps grid_id_of_coord)

section \<open>Areas of cells\<close>

lemma div_lt_ceiling_div:
  fixes x W s :: int
  assumes "0 \<le> x" "x < W" "0 < s"
  shows "0 \<le> x div s \<and> x div s < \<lceil>real_of_int W / real_of_int s\<rceil>"
proof -
  have "x div s * s \<le> x"
    using assms by (simp add: minus_mod_eq_div_mult [symmetric])
  then have "real_of_int (x div s) * real_of_int s < real_of_int W"
    using assms by (metis le_less_trans of_int_less_iff of_int_mult)
  then have "real_of_int (x div s) < real_of_int W / real_of_int s"
    using assms by (simp add: pos_less_divide_eq)
  also have "\<dots> \<le> real_of_int \<lceil>real_of_int W / real_of_int s\<rceil>"
    by (rule le_of_int_ceiling)
  finally show ?thesis
    using assms by (simp add: pos_imp_zdiv_nonneg_iff)
qed

lemma area_point_of_valid_cell:
  assumes "map_util_ok u" "isVaildCellPoint u (x, y)"
  shows "isVaildAreaPoint u (getAreaPointByCellPoint u x y)"
  using assms div_lt_ceiling_div [of x "fst (mapSize u)" "fst (areaCellSize u)"]
    div_lt_ceiling_div [of y "snd (mapSize u)" "fst (areaCellSize u)"]
  unfolding getAreaPointByCellPoint_def floor_real_div
  by (auto simp: map_util_ok_def Let_def isVaildCellPoint_def isVaildAreaPoint_def)

lemma area_id_of_valid_area_point:
  assumes "isVaildAreaPoint u (ax, ay)"
  shows "isVaildAreaId u (getIdByAreaPoint u ax ay)"
  using assms grid_id_bounds [of ax "fst (areaSize u)" ay "snd (areaSize u)"]
  by (simp add: isVaildAreaPoint_def isVaildAreaId_def getIdByAreaPoint_def areaCount_def)

lemma area_id_valid_iff_point:
  assumes "0 \<le> xb" "xb < fst (areaSize u)"
  shows "isVaildAreaId u (getIdByAreaPoint u xb yb) \<longleftrightarrow> isVaildAreaPoint u (xb, yb)"
  using assms grid_id_valid_iff [OF assms, of yb "snd (areaSize u)"]
  by (simp add: isVaildAreaId_def isVaildAreaPoint_def getIdByAreaPoint_def areaCount_def)

text \<open>C26: the area grid covers the map: the area of every cell inside the map is a
  valid area, and the cell lies between that area's start and end cells.\<close>

theorem area_of_valid_cell:
  assumes "map_util_ok u" "isVaildCellPoint u (x, y)"
  shows "isVaildAreaId u (getAreaIdByCellPoint u x y)
    \<and> (let a = getAreaPointByCellPoint u x y;
           s = getStartCellPointByAreaPoint u (fst a) (snd a);
           e = getEndCellPointByAreaPoint u (fst a) (snd a)
       in fst s \<le> x \<and> x < fst e \<and> snd s \<le> y \<and> y < snd e)"
proof -
  have pos: "0 < fst (areaCellSize u)" "snd (areaCellSize u) = fst (areaCellSize u)"
    using assms(1) by (auto simp: map_util_ok_def Let_def)
  have valid: "isVaildAreaId u (getAreaIdByCellPoint u x y)"
    using area_point_of_valid_cell [OF assms] area_id_of_valid_area_point
    by (cases "getAreaPointByCellPoint u x y") (simp add: getAreaIdByCellPoint_def)
  have "x div fst (areaCellSize u) * fst (areaCellSize u) \<le> x
      \<and> x < (x div fst (areaCellSize u) + 1) * fst (areaCellSize u)"
    "y div fst (areaCellSize u) * fst (areaCellSize u) \<le> y
      \<and> y < (y div fst (areaCellSize u) + 1) * fst (areaCellSize u)"
    using pos(1) pos_mod_bound [of "fst (areaCellSize u)"] pos_mod_sign [of "fst (areaCellSize u)"]
    by (simp_all add: distrib_right minus_mod_eq_div_mult [symmetric])
  with valid pos show ?thesis
    unfolding getAreaPointByCellPoint_def getStartCellPointByAreaPoint_def
      getEndCellPointByAreaPoint_def floor_real_div
    by (simp add: Let_def)
qed

theorem area_of_valid_cell_witness:
  "getAreaIdByCellPoint demo_util 19 19 = 8 \<and> isVaildAreaId demo_util 8"
  using area_of_valid_cell [OF demo_util_ok, of 19 19]
  by (simp add: demo_util_eq isVaildCellPoint_def getAreaIdByCellPoint_def
      getAreaPointByCellPoint_def getIdByAreaPoint_def)

section \<open>Isometric projection\<close>

lemma floor_int_plus_half: "\<lfloor>real_of_int x + 1 / 2\<rfloor> = x"
  by (simp add: floor_eq_iff)

lemma floor_frac_bounds:
  fixes x :: real
  shows "0 \<le> x - real_of_int \<lfloor>x\<rfloor> \<and> x - real_of_int \<lfloor>x\<rfloor> < 1"
  using floor_correct [of x] by linarith

lemma map_util_ok_projection:
  assumes "map_util_ok u"
  shows "0 < fst (tileSize u)" "0 < snd (tileSize u)"
    "real_of_int (snd (mapSize u)) = real_of_int (fst (mapSize u))"
    "zeroPixelPoint u = (real_of_int (fst (mapSize u)) * fst (tileSize u) * 0.5,
       real_of_int (fst (mapSize u)) * snd (tileSize u) - snd (tileSize u) * 0.5)"
  using assms by (auto simp: map_util_ok_def Let_def)

lemma world_cell_roundtrip:
  assumes "map_util_ok u"
  shows "worldPixelToMapCellPoint u (mapCellToWorldPixelPoint u c) = c"
proof -
  obtain x y where c: "c = (x, y)" by (cases c)
  define tw th W where "tw = fst (tileSize u)" and "th = snd (tileSize u)"
    and "W = real_of_int (fst (mapSize u))"
  note ok = map_util_ok_projection [OF assms, folded tw_def th_def W_def]
  have ex: "0.5 * W + (W * tw * 0.5 - (real_of_int y - real_of_int x) * tw * 0.5) / tw
      - (W * th - th * 0.5 - (real_of_int x + real_of_int y) * th * 0.5) / th
      = real_of_int x + 1 / 2"
    using ok by (simp add: field_simps)
  have ey: "1.5 * W - (W * tw * 0.5 - (real_of_int y - real_of_int x) * tw * 0.5) / tw
      - (W * th - th * 0.5 - (real_of_int x + real_of_int y) * th * 0.5) / th
      = real_of_int y + 1 / 2"
    using ok by (simp add: field_simps)
  show ?thesis
    using ok ex ey floor_int_plus_half
    by (simp add: c worldPixelToMapCellPoint_def mapCellToWorldPixelPoint_def tw_def th_def W_def)
qed

text \<open>C4: on a well-formed (square) map, converting a cell to the map pixel of its
  centre and back to a cell is the identity: \<open>mapPixelToCellPoint\<close> inverts
  \<open>mapCellToPixelPoint\<close>.\<close>

theorem pixel_cell_roundtrip:
  assumes "map_util_ok u"
  shows "mapPixelToCellPoint u (mapCellToPixelPoint u c) = c"
  using world_cell_roundtrip [OF assms]
  by (simp add: mapPixelToCellPoint_def mapCellToPixelPoint_def Let_def)

theorem pixel_cell_roundtrip_witness:
  "mapPixelToCellPoint demo_util (mapCellToPixelPoint demo_util (3, 17)) = (3, 17)
   \<and> mapCellToPixelPoint demo_util (3, 17) = (-1792, -64)"
  using pixel_cell_roundtrip [OF demo_util_ok, of "(3, 17)"]
  by (simp add: demo_util_eq mapCellToPixelPoint_def mapCellToWorldPixelPoint_def)

lemma half_diamond_bound:
  fixes a b :: real
  assumes "0 \<le> a" "a < 1" "0 \<le> b" "b < 1"
  shows "\<bar>(a - b) / 2\<bar> + \<bar>(1 - a - b) / 2\<bar> \<le> 1 / 2"
  using assms by (auto simp: abs_if field_simps)

text \<open>C5: \<open>worldPixelToMapCellPoint\<close> answers the cell whose diamond contains the point:
  the point is within the diamond of half a tile width and half a tile height around
  the centre that \<open>mapCellToWorldPixelPoint\<close> gives for that cell.\<close>

theorem world_point_in_cell_diamond:
  assumes "map_util_ok u"
    and "worldPixelToMapCellPoint u p = c"
    and "mapCellToWorldPixelPoint u c = q"
  shows "\<bar>fst p - fst q\<bar> / fst (tileSize u) + \<bar>snd p - snd q\<bar> / snd (tileSize u) \<le> 1 / 2"
proof -
  define tw th W where "tw = fst (tileSize u)" and "th = snd (tileSize u)"
    and "W = real_of_int (fst (mapSize u))"
  note ok = map_util_ok_projection [OF assms(1), folded tw_def th_def W_def]
  define a b where "a = 0.5 * W + fst p / tw - snd p / th"
    and "b = 1.5 * W - fst p / tw - snd p / th"
  have c: "c = (\<lfloor>a\<rfloor>, \<lfloor>b\<rfloor>)"
    using assms(2) ok(3) by (simp add: worldPixelToMapCellPoint_def a_def b_def tw_def th_def W_def)
  have q: "q = (W * tw * 0.5 - (real_of_int \<lfloor>b\<rfloor> - real_of_int \<lfloor>a\<rfloor>) * tw * 0.5,
                W * th - th * 0.5 - (real_of_int \<lfloor>a\<rfloor> + real_of_int \<lfloor>b\<rfloor>) * th * 0.5)"
    using assms(3) ok by (simp add: c mapCellToWorldPixelPoint_def tw_def th_def)
  have dx: "(fst p - fst q) / tw = ((a - \<lfloor>a\<rfloor>) - (b - \<lfloor>b\<rfloor>)) / 2"
    using ok by (simp add: q a_def b_def field_simps)
  have dy: "(snd p - snd q) / th = (1 - (a - \<lfloor>a\<rfloor>) - (b - \<lfloor>b\<rfloor>)) / 2"
    using ok by (simp add: q a_def b_def field_simps)
  have "\<bar>fst p - fst q\<bar> / tw = \<bar>(fst p - fst q) / tw\<bar>"
    and "\<bar>snd p - snd q\<bar> / th = \<bar>(snd p - snd q) / th\<bar>"
    using ok by (simp_all add: abs_divide)
  then have "\<bar>fst p - fst q\<bar> / tw + \<bar>snd p - snd q\<bar> / th
      = \<bar>((a - \<lfloor>a\<rfloor>) - (b - \<lfloor>b\<rfloor>)) / 2\<bar> + \<bar>(1 - (a - \<lfloor>a\<rfloor>) - (b - \<lfloor>b\<rfloor>)) / 2\<bar>"
    by (simp only: dx dy)
  also have "\<dots> \<le> 1 / 2"
    by (rule half_diamond_bound) (use floor_frac_bounds [of a] floor_frac_bounds [of b] in simp_all)
  finally show ?thesis
    by (simp only: tw_def th_def)
qed

theorem world_point_in_cell_diamond_witness:
  "worldPixelToMapCellPoint demo_util (2600, 1300) = (10, 9)
   \<and> mapCellToWorldPixelPoint demo_util (10, 9) = (2688, 1280)
   \<and> \<bar>2600 - 2688\<bar> / 256 + \<bar>1300 - 1280\<bar> / 128 \<le> (1 / 2 :: real)"
proof -
  have c: "worldPixelToMapCellPoint demo_util (2600, 1300) = (10, 9)"
    by (simp add: demo_util_eq worldPixelToMapCellPoint_def)
  have q: "mapCellToWorldPixelPoint demo_util (10, 9) = (2688, 1280)"
    by (simp add: demo_util_eq mapCellToWorldPixelPoint_def)
  show ?thesis
    using world_point_in_cell_diamond [OF demo_util_ok c q] c q
    by (simp add: demo_util_eq)
qed

section \<open>Neighbourhoods\<close>

lemma get9GridVaildAreaIds_valid:
  "j \<in> set (get9GridVaildAreaIds u i) \<Longrightarrow> isVaildAreaId u j"
  by (simp add: get9GridVaildAreaIds_def)

lemma get9GridVaildAreaIds_center:
  "isVaildAreaId u i \<Longrightarrow> i \<in> set (get9GridVaildAreaIds u i)"
  by (simp add: get9GridVaildAreaIds_def get9GridAreaIds_def Let_def)

lemma get9GridVaildAreaIds_distinct:
  "3 \<le> fst (areaSize u) \<Longrightarrow> distinct (get9GridVaildAreaIds u i)"
  by (simp add: get9GridVaildAreaIds_def get9GridAreaIds_def Let_def)

lemma nine_offsets_iff: "(dx, dy) \<in> set nine_offsets \<longleftrightarrow> \<bar>dx\<bar> \<le> 1 \<and> \<bar>dy\<bar> \<le> 1"
proof
  assume "(dx, dy) \<in> set nine_offsets"
  then show "\<bar>dx\<bar> \<le> 1 \<and> \<bar>dy\<bar> \<le> 1"
    by (auto simp: nine_offsets_def)
next
  assume "\<bar>dx\<bar> \<le> 1 \<and> \<bar>dy\<bar> \<le> 1"
  then have "(dx = -1 \<or> dx = 0 \<or> dx = 1) \<and> (dy = -1 \<or> dy = 0 \<or> dy = 1)"
    by arith
  then show "(dx, dy) \<in> set nine_offsets"
    by (elim conjE disjE) (simp_all add: nine_offsets_def)
qed

lemma get9GridAreaIds_offsets:
  "get9GridAreaIds u (getIdByAreaPoint u ax ay) =
     map (\<lambda>(dx, dy). getIdByAreaPoint u (ax + dx) (ay + dy)) nine_offsets"
  by (simp add: get9GridAreaIds_def getIdByAreaPoint_def nine_offsets_def Let_def algebra_simps)

text \<open>C7: away from the left and right edges of the area grid, the filtered 9-grid
  of an area holds exactly the valid areas whose coordinates differ from it by at most
  one in each axis: the streaming window is the 3x3 block around the centre.\<close>

theorem nine_grid_interior:
  assumes "isVaildAreaPoint u (ax, ay)" "1 \<le> ax" "ax + 1 < fst (areaSize u)"
  shows "j \<in> set (get9GridVaildAreaIds u (getIdByAreaPoint u ax ay)) \<longleftrightarrow>
    (\<exists>xb yb. j = getIdByAreaPoint u xb yb
       \<and> \<bar>xb - ax\<bar> \<le> 1 \<and> \<bar>yb - ay\<bar> \<le> 1 \<and> isVaildAreaPoint u (xb, yb))"
proof
  assume "j \<in> set (get9GridVaildAreaIds u (getIdByAreaPoint u ax ay))"
  then obtain dx dy where d: "(dx, dy) \<in> set nine_offsets"
    and j: "j = getIdByAreaPoint u (ax + dx) (ay + dy)" and v: "isVaildAreaId u j"
    by (auto simp: get9GridVaildAreaIds_def get9GridAreaIds_offsets)
  have b: "\<bar>dx\<bar> \<le> 1 \<and> \<bar>dy\<bar> \<le> 1"
    using d by (simp add: nine_offsets_iff)
  with assms have "0 \<le> ax + dx" "ax + dx < fst (areaSize u)"
    by (auto simp: isVaildAreaPoint_def)
  with v j have "isVaildAreaPoint u (ax + dx, ay + dy)"
    by (simp add: area_id_valid_iff_point)
  with j b show "\<exists>xb yb. j = getIdByAreaPoint u xb yb
       \<and> \<bar>xb - ax\<bar> \<le> 1 \<and> \<bar>yb - ay\<bar> \<le> 1 \<and> isVaildAreaPoint u (xb, yb)"
    by (intro exI [of _ "ax + dx"] exI [of _ "ay + dy"]) simp
next
  assume "\<exists>xb yb. j = getIdByAreaPoint u xb yb
       \<and> \<bar>xb - ax\<bar> \<le> 1 \<and> \<bar>yb - ay\<bar> \<le> 1 \<and> isVaildAreaPoint u (xb, yb)"
  then obtain xb yb where j: "j = getIdByAreaPoint u xb yb"
    and b: "\<bar>xb - ax\<bar> \<le> 1" "\<bar>yb - ay\<bar> \<le> 1" and v: "isVaildAreaPoint u (xb, yb)"
    by blast
  have d: "(xb - ax, yb - ay) \<in> set nine_offsets"
    using b by (simp add: nine_offsets_iff)
  have "j \<in> set (get9GridAreaIds u (getIdByAreaPoint u ax ay))"
    unfolding get9GridAreaIds_offsets set_map
    using j by (intro image_eqI [OF _ d]) simp
  moreover have "isVaildAreaId u j"
    using j v by (simp add: area_id_of_valid_area_point)
  ultimately show "j \<in> set (get9GridVaildAreaIds u (getIdByAreaPoint u ax ay))"
    by (simp add: get9GridVaildAreaIds_def)
qed

theorem nine_grid_interior_witness:
  "5 \<in> set (get9GridVaildAreaIds demo_util (getIdByAreaPoint demo_util 1 0))
   \<and> get9GridVaildAreaIds demo_util (getIdByAreaPoint demo_util 1 0) = [3, 4, 5, 0, 1, 2]"
proof -
  have a: "isVaildAreaPoint demo_util (1, 0)" "(1::int) \<le> 1" "1 + 1 < fst (areaSize demo_util)"
    by (simp_all add: demo_util_eq isVaildAreaPoint_def)
  have "\<exists>xb yb. 5 = getIdByAreaPoint demo_util xb yb
       \<and> \<bar>xb - 1\<bar> \<le> 1 \<and> \<bar>yb - 0\<bar> \<le> 1 \<and> isVaildAreaPoint demo_util (xb, yb)"
    by (intro exI [of _ 2] exI [of _ 1]) (simp add: demo_util_eq getIdByAreaPoint_def isVaildAreaPoint_def)
  with nine_grid_interior [OF a, of 5]
  have "5 \<in> set (get9GridVaildAreaIds demo_util (getIdByAreaPoint demo_util 1 0))"
    by blast
  moreover have "get9GridVaildAreaIds demo_util (getIdByAreaPoint demo_util 1 0) = [3, 4, 5, 0, 1, 2]"
    by (simp add: demo_util_eq get9GridVaildAreaIds_def get9GridAreaIds_def getIdByAreaPoint_def
        isVaildAreaId_def areaCount_def)
  ultimately show ?thesis ..
qed

text \<open>C39: at the left edge of the area grid the filtered 9-grid is not the 3x3 block:
  \<open>get9GridVaildAreaIds\<close> filters by id range only, so the id left of an area in
  column 0 is a valid id, the last area of the row above, and is streamed as a
  neighbour although it lies a whole row width away.\<close>

theorem nine_grid_wraps_row:
  assumes "3 \<le> fst (areaSize u)" "isVaildAreaPoint u (0, ay)" "1 \<le> ay"
  shows "getIdByAreaPoint u 0 ay - 1 \<in> set (get9GridVaildAreaIds u (getIdByAreaPoint u 0 ay))
    \<and> getAreaPointById u (getIdByAreaPoint u 0 ay - 1) = (fst (areaSize u) - 1, ay - 1)"
proof -
  let ?w = "fst (areaSize u)"
  have eq: "getIdByAreaPoint u 0 ay - 1 = getIdByAreaPoint u (?w - 1) (ay - 1)"
    by (simp add: getIdByAreaPoint_def algebra_simps)
  have pt: "isVaildAreaPoint u (?w - 1, ay - 1)"
    using assms by (simp add: isVaildAreaPoint_def)
  then have "isVaildAreaId u (getIdByAreaPoint u 0 ay - 1)"
    unfolding eq by (rule area_id_of_valid_area_point)
  moreover have "getAreaPointById u (getIdByAreaPoint u 0 ay - 1) = (?w - 1, ay - 1)"
    unfolding eq using assms pt by (simp add: area_point_by_id)
  ultimately show ?thesis
    by (simp add: get9GridVaildAreaIds_def get9GridAreaIds_def Let_def)
qed

theorem nine_grid_wraps_row_witness:
  "2 \<in> set (get9GridVaildAreaIds demo_util 3) \<and> getAreaPointById demo_util 2 = (2, 0)"
proof -
  have "3 \<le> fst (areaSize demo_util)" "isVaildAreaPoint demo_util (0, 1)" "(1::int) \<le> 1"
    by (simp_all add: demo_util_eq isVaildAreaPoint_def)
  from nine_grid_wraps_row [OF this] show ?thesis
    by (simp add: demo_util_eq getIdByAreaPoint_def)
qed

text \<open>The spec's corner scenario does not hold as stated: on the 3x3 area grid of
  the spec's example, the filtered 9-grid of area 0 has five ids, not four; id 2 (area
  (2, 0)) is kept because \<open>0 - 1 + 3\<close> is in range.\<close>

theorem nine_grid_corner_five:
  "get9GridVaildAreaIds demo_util 0 = [2, 3, 4, 0, 1]"
  by (simp add: demo_util_eq get9GridVaildAreaIds_def get9GridAreaIds_def isVaildAreaId_def
      areaCount_def)

text \<open>C40: \<open>getSideIdsForRoleCity\<close> does not list the ring of radius 2 around a city:
  its bottom row has \<open>id - width - 1\<close>, a cell of the inner ring, where the cell
  \<open>id - 2 * width\<close> two rows below the city belongs.\<close>

theorem role_city_ring_bug:
  assumes "3 \<le> fst (mapSize u)"
  shows "i - 2 * fst (mapSize u) \<notin> set (getSideIdsForRoleCity u i)
    \<and> i - fst (mapSize u) - 1 \<in> set (getSideIdsForRoleCity u i)"
  using assms by (auto simp: getSideIdsForRoleCity_def Let_def)

theorem role_city_ring_bug_witness:
  "170 \<notin> set (getSideIdsForRoleCity demo_util 210) \<and> 189 \<in> set (getSideIdsForRoleCity demo_util 210)"
  using role_city_ring_bug [of demo_util 210]
  by (simp add: demo_util_eq)

text \<open>\<open>getSideIdsForSysCity\<close> lists exactly the cells on the square ring at
  Chebyshev distance \<open>sysCityDis level\<close> (3 from level 8, 2 from level 5, else 1)
  around the city.\<close>

theorem sys_city_ring:
  "set (getSideIdsForSysCity u x y level) =
     (\<lambda>(tx, ty). getIdByCellPoint u tx ty) `
       {(tx, ty). max \<bar>tx - x\<bar> \<bar>ty - y\<bar> = sysCityDis level}"
proof -
  define d where "d = sysCityDis level"
  have d0: "0 < d" by (simp add: d_def sysCityDis_def)
  have ring: "{(tx, ty). max \<bar>tx - x\<bar> \<bar>ty - y\<bar> = d} =
      (\<lambda>tx. (tx, y + d)) ` {x - d..x + d} \<union> (\<lambda>tx. (tx, y - d)) ` {x - d..x + d}
      \<union> (\<lambda>ty. (x - d, ty)) ` {y - d..y + d} \<union> (\<lambda>ty. (x + d, ty)) ` {y - d..y + d}"
    using d0 by (auto simp: max_def abs_if split: if_splits)
  show ?thesis
    unfolding getSideIdsForSysCity_def d_def [symmetric] ring
    by (auto simp: image_iff)
qed

section \<open>Areas under a list of pixel points\<close>

lemma vaildAreaIdsLoop_spec:
  assumes "distinct list" "\<forall>j \<in> set list. isVaildAreaId u j"
  shows "distinct (vaildAreaIdsLoop u list points)
    \<and> set (vaildAreaIdsLoop u list points) = set list \<union>
        {j \<in> (\<lambda>p. getAreaIdByCellPoint u (fst (mapPixelToCellPoint u p))
                   (snd (mapPixelToCellPoint u p))) ` set points. isVaildAreaId u j}"
  using assms
proof (induction points arbitrary: list)
  case Nil
  then show ?case by simp
next
  case (Cons p ps)
  then show ?case
    by (auto simp: Let_def getAreaIdByCellPoint_def)
qed

text \<open>\<open>getVaildAreaIdsByPixelPoints\<close> answers each valid area under the given
  pixel points exactly once.\<close>

theorem getVaildAreaIdsByPixelPoints_spec:
  "distinct (getVaildAreaIdsByPixelPoints u points)
   \<and> set (getVaildAreaIdsByPixelPoints u points) =
       {j \<in> (\<lambda>p. getAreaIdByCellPoint u (fst (mapPixelToCellPoint u p))
                  (snd (mapPixelToCellPoint u p))) ` set points. isVaildAreaId u j}"
  using vaildAreaIdsLoop_spec [of "[]" u points]
  by (simp add: getVaildAreaIdsByPixelPoints_def)

end
