(* ===== verification/MapAreaData.thy ===== *)
theory MapAreaData
  imports Prelude
begin

text \<open>
  The area descriptor, class \<open>MapAreaData\<close> of \<^verbatim>\<open>src/assets/scripts/map/MapProxy.ts\<close>:
  an area's id, area coordinates, bounding cells, side length and the time of its last
  permitted query. \<open>checkAndUpdateQryTime\<close> is the per-area throttle; the clock
  \<open>Date.now()\<close> it reads is passed in as \<open>nowTime\<close>. \<open>equals\<close> and \<open>fuzzyEquals\<close>
  take their \<open>other\<close> argument as an option, \<open>None\<close> being the \<open>null\<close> they test for.
  The fields \<open>id\<close>, \<open>x\<close>, \<open>y\<close> and \<open>len\<close> are prefixed with \<open>area_\<close>, since a
  record field named \<open>id\<close> or \<open>x\<close> would shadow HOL's identity and every variable \<open>x\<close>.
\<close>

record mapAreaData =
  area_id :: int
  area_x :: int
  area_y :: int
  startCellX :: int
  startCellY :: int
  endCellX :: int
  endCellY :: int
  area_len :: int
  qryStartTime :: int

definition MAX_TIME :: int where
  "MAX_TIME = 10000"

definition checkAndUpdateQryTime :: "int \<Rightarrow> mapAreaData \<Rightarrow> bool \<times> mapAreaData" where
  "checkAndUpdateQryTime nowTime d =
     (if nowTime - qryStartTime d \<ge> MAX_TIME then (True, d\<lparr>qryStartTime := nowTime\<rparr>)
      else (False, d))"

definition equals :: "mapAreaData \<Rightarrow> mapAreaData option \<Rightarrow> bool" where
  "equals d other = (case other of None \<Rightarrow> False | Some o' \<Rightarrow> area_id d = area_id o')"

definition fuzzyEquals :: "mapAreaData \<Rightarrow> mapAreaData option \<Rightarrow> int \<Rightarrow> bool" where
  "fuzzyEquals d other variance =
     (case other of
        None \<Rightarrow> False
      | Some o' \<Rightarrow>
          area_x d - variance \<le> area_x o' \<and> area_x o' \<le> area_x d + variance
          \<and> area_y d - variance \<le> area_y o' \<and> area_y o' \<le> area_y d + variance)"

text \<open>A run of query attempts on one descriptor at the given times, as the network
  collaborator makes them: the answers in order and the final descriptor.\<close>

fun qryRun :: "mapAreaData \<Rightarrow> int list \<Rightarrow> bool list \<times> mapAreaData" where
  "qryRun d [] = ([], d)"
| "qryRun d (t # ts) =
     (let (ok, d') = checkAndUpdateQryTime t d; (oks, d'') = qryRun d' ts in (ok # oks, d''))"

text \<open>The times at which a run was permitted to query.\<close>

fun grantedTimes :: "mapAreaData \<Rightarrow> int list \<Rightarrow> int list" where
  "grantedTimes d [] = []"
| "grantedTimes d (t # ts) =
     (let (ok, d') = checkAndUpdateQryTime t d
      in (if ok then t # grantedTimes d' ts else grantedTimes d' ts))"

definition demo_area :: mapAreaData where
  "demo_area = \<lparr> area_id = 4, area_x = 1, area_y = 1, startCellX = 8, startCellY = 8,
     endCellX = 16, endCellY = 16, area_len = 8, qryStartTime = 0 \<rparr>"

section \<open>The throttle\<close>

lemma checkAndUpdateQryTime_cases:
  "checkAndUpdateQryTime nowTime d = (ok, d') \<longleftrightarrow>
     (if qryStartTime d + MAX_TIME \<le> nowTime
      then ok \<and> d' = d\<lparr>qryStartTime := nowTime\<rparr>
      else \<not> ok \<and> d' = d)"
  by (auto simp: checkAndUpdateQryTime_def)

lemma checkAndUpdateQryTime_frame:
  "checkAndUpdateQryTime nowTime d = (ok, d') \<Longrightarrow>
     d'\<lparr>qryStartTime := 0\<rparr> = d\<lparr>qryStartTime := 0\<rparr>"
  by (auto simp: checkAndUpdateQryTime_def split: if_splits)

text \<open>\<open>checkAndUpdateQryTime\<close> permits a query exactly when at least
  \<open>MAX_TIME\<close> = 10000 ms have passed since the last permitted one, and records the
  time only when it permits: a refused attempt does not push the window forward.\<close>

theorem checkAndUpdateQryTime_spec:
  "fst (checkAndUpdateQryTime nowTime d) = (qryStartTime d + 10000 \<le> nowTime)
   \<and> qryStartTime (snd (checkAndUpdateQryTime nowTime d)) =
       (if qryStartTime d + 10000 \<le> nowTime then nowTime else qryStartTime d)"
  by (auto simp: checkAndUpdateQryTime_def MAX_TIME_def)

lemma grantedTimes_qryRun:
  "grantedTimes d ts = map snd (filter fst (zip (fst (qryRun d ts)) ts))"
  by (induction ts arbitrary: d) (auto simp: split_def Let_def)

lemma grantedTimes_after:
  "t \<in> set (grantedTimes d ts) \<Longrightarrow> qryStartTime d + MAX_TIME \<le> t"
proof (induction ts arbitrary: d)
  case Nil
  then show ?case by simp
next
  case (Cons t' ts)
  show ?case
  proof (cases "qryStartTime d + MAX_TIME \<le> t'")
    case True
    then have "t = t' \<or> t \<in> set (grantedTimes (d\<lparr>qryStartTime := t'\<rparr>) ts)"
      using Cons.prems by (simp add: checkAndUpdateQryTime_def)
    moreover have "0 \<le> MAX_TIME" by (simp add: MAX_TIME_def)
    ultimately show ?thesis
      using True Cons.IH [of "d\<lparr>qryStartTime := t'\<rparr>"] by auto
  next
    case False
    then show ?thesis
      using Cons by (simp add: checkAndUpdateQryTime_def)
  qed
qed

text \<open>C3: whatever the order of the attempts, the permitted queries of one area are
  at least \<open>MAX_TIME\<close> apart, and the first comes at least \<open>MAX_TIME\<close> after the
  descriptor's recorded query time: every pair of permitted times, in the order they
  were permitted, differs by 10000 ms or more.\<close>

theorem grantedTimes_spaced:
  "sorted_wrt (\<lambda>a b. a + MAX_TIME \<le> b) (qryStartTime d # grantedTimes d ts)"
proof (induction ts arbitrary: d)
  case Nil
  then show ?case by simp
next
  case (Cons t ts)
  show ?case
  proof (cases "qryStartTime d + MAX_TIME \<le> t")
    case True
    let ?d' = "d\<lparr>qryStartTime := t\<rparr>"
    have rest: "sorted_wrt (\<lambda>a b. a + MAX_TIME \<le> b) (t # grantedTimes ?d' ts)"
      using Cons.IH [of ?d'] by simp
    have "\<forall>b \<in> set (grantedTimes ?d' ts). qryStartTime d + MAX_TIME \<le> b"
      using grantedTimes_after [of _ ?d' ts] True by (fastforce simp: MAX_TIME_def)
    with True rest show ?thesis
      by (simp add: checkAndUpdateQryTime_def)
  next
    case False
    have "\<forall>b \<in> set (grantedTimes d ts). qryStartTime d + MAX_TIME \<le> b"
      using grantedTimes_after [of _ d ts] by blast
    with False Cons.IH [of d] show ?thesis
      by (simp add: checkAndUpdateQryTime_def)
  qed
qed

text \<open>The spec's throttle scenario: on a descriptor last queried at time
  \<open>t0\<close> \<open>\<ge>\<close> 10000, an attempt at \<open>t0\<close> is permitted; a second attempt 5 s later is
  refused and one 11 s later is permitted.\<close>

theorem throttle_scenario:
  "fst (qryRun demo_area [20000, 25000]) = [True, False]
   \<and> fst (qryRun demo_area [20000, 31000]) = [True, True]"
  by (simp add: demo_area_def checkAndUpdateQryTime_def MAX_TIME_def)

section \<open>Comparisons\<close>

lemma fuzzyEquals_Some:
  "fuzzyEquals d (Some o') v \<longleftrightarrow>
     \<bar>area_x o' - area_x d\<bar> \<le> v \<and> \<bar>area_y o' - area_y d\<bar> \<le> v"
  by (auto simp: fuzzyEquals_def abs_le_iff)

lemma fuzzyEquals_refl: "0 \<le> v \<Longrightarrow> fuzzyEquals d (Some d) v"
  by (simp add: fuzzyEquals_Some)

lemma equals_Some: "equals d (Some o') \<longleftrightarrow> area_id d = area_id o'"
  by (simp add: equals_def)

end
