(* ===== verification/MapProxy.thy ===== *)
theory MapProxy
  imports MapUtil MapAreaData
begin

text \<open>
  The area streaming cache, class \<open>MapProxy\<close> of \<^verbatim>\<open>src/assets/scripts/map/MapProxy.ts\<close>.
  The object's fields are the record \<open>mapProxy\<close>; every method takes the
  configuration of \<open>MapUtil\<close> (\<open>map_util\<close>) it reads and the state, and returns the
  new state. The events the method emits through \<open>EventMgr\<close> are returned in order as
  values of \<open>logic_event\<close>; the visible size it reads from \<open>view\<close> is an argument.
  The JavaScript \<open>Map\<close> \<open>_mapResConfigs\<close> from string keys is an association list
  in insertion order.
  The array \<open>_mapAreaDatas\<close>, indexed by area id and filled on first use, is a map
  from ids to descriptors; JavaScript also stores an entry at a negative index, as a
  property that \<open>length = 0\<close> does not remove, and the model keeps that behaviour.
\<close>

section \<open>Data\<close>

text \<open>\<open>MapResConfig\<close>: \<open>setNationMapConfig\<close> copies every field from the server's
  JSON entry, so each holds the JSON value read, \<open>None\<close> for \<open>undefined\<close>.\<close>

record mapResConfig =
  cfg_type :: "jval option"
  cfg_level :: "jval option"
  cfg_name :: "jval option"
  wood :: "jval option"
  iron :: "jval option"
  stone :: "jval option"
  grain :: "jval option"
  durable :: "jval option"
  defender :: "jval option"

record mapResData =
  res_id :: int
  res_type :: int
  res_level :: int
  res_x :: int
  res_y :: int

record mapTagPos =
  tag_x :: int
  tag_y :: int
  tag_name :: string

datatype logic_event =
    MapEenterChange ipoint
  | MapShowAreaChange ipoint int "int list" "int list"

record mapProxy =
  warFree :: int
  curCenterPoint :: "ipoint option"
  curCenterAreaId :: int
  mapAreaDatas :: "int \<rightharpoonup> mapAreaData"
  mapResDatas :: "mapResData list"
  mapSysCityResDatas :: "mapResData list"
  mapPosTags :: "mapTagPos list"
  qryAreaIds :: "int list"
  mapResConfigs :: "(string \<times> mapResConfig) list"

definition initProxy :: mapProxy where
  "initProxy = \<lparr> warFree = 0, curCenterPoint = None, curCenterAreaId = -1,
     mapAreaDatas = Map.empty, mapResDatas = [], mapSysCityResDatas = [], mapPosTags = [],
     qryAreaIds = [], mapResConfigs = [] \<rparr>"

section \<open>Area descriptors\<close>

text \<open>\<open>initData\<close> sets the array's length to \<open>areaCount\<close>, which drops the entries at
  indices at or beyond it; \<open>clearData\<close> sets it to 0.\<close>

definition initData :: "map_util \<Rightarrow> mapProxy \<Rightarrow> mapProxy" where
  "initData u s = s\<lparr>mapAreaDatas := (\<lambda>k. if 0 \<le> k \<and> areaCount u \<le> k then None
                                          else mapAreaDatas s k)\<rparr>"

definition clearData :: "mapProxy \<Rightarrow> mapProxy" where
  "clearData s = s\<lparr>curCenterPoint := None, curCenterAreaId := -1,
     mapAreaDatas := (\<lambda>k. if 0 \<le> k then None else mapAreaDatas s k), qryAreaIds := []\<rparr>"

text \<open>The descriptor \<open>getMapAreaData\<close> creates for an id it has not seen.\<close>

definition newMapAreaData :: "map_util \<Rightarrow> int \<Rightarrow> mapAreaData" where
  "newMapAreaData u i =
     (let point = getAreaPointById u i;
          startCellPoint = getStartCellPointByAreaPoint u (fst point) (snd point)
      in \<lparr> area_id = i, area_x = fst point, area_y = snd point,
           startCellX = fst startCellPoint, startCellY = snd startCellPoint,
           endCellX = fst startCellPoint + fst (areaCellSize u),
           endCellY = snd startCellPoint + fst (areaCellSize u),
           area_len = fst (areaCellSize u), qryStartTime = 0 \<rparr>)"

definition getMapAreaData :: "map_util \<Rightarrow> int \<Rightarrow> mapProxy \<Rightarrow> mapAreaData \<times> mapProxy" where
  "getMapAreaData u i s =
     (case mapAreaDatas s i of
        None \<Rightarrow> (let data = newMapAreaData u i
                 in (data, s\<lparr>mapAreaDatas := (mapAreaDatas s)(i \<mapsto> data)\<rparr>))
      | Some data \<Rightarrow> (data, s))"

section \<open>Moving the centre\<close>

text \<open>
  The body of \<open>setCurCenterPoint\<close> after an area change, in three parts that follow the
  code's blocks: the ids to add and remove with the priority list \<open>firstAreaIds\<close>
  (lines 329-367), the order of the query increment (lines 369-386), and the method
  that composes them. \<open>firstAreaIds\<close> is \<open>None\<close> where the code leaves it \<open>null\<close>.
\<close>

definition screenCornerPoints :: "rsize \<Rightarrow> rpoint \<Rightarrow> rpoint list" where
  "screenCornerPoints vsize pixelPoint =
     (let w = fst vsize; h = snd vsize; px = fst pixelPoint; py = snd pixelPoint
      in [pixelPoint,
          (px + - w * 0.5, py + h * 0.5),
          (px + - w * 0.5, py + - h * 0.5),
          (px + w * 0.5, py + h * 0.5),
          (px + w * 0.5, py + - h * 0.5)])"

definition showAreaDiff ::
  "map_util \<Rightarrow> rsize \<Rightarrow> rpoint \<Rightarrow> bool \<Rightarrow> int \<Rightarrow> int \<Rightarrow> int list \<times> int list \<times> int list option"
  where
  "showAreaDiff u vsize pixelPoint full curAreaId newAreaId =
     (let newIds = get9GridVaildAreaIds u newAreaId in
      if full then
        (newIds, [], Some (getVaildAreaIdsByPixelPoints u (screenCornerPoints vsize pixelPoint)))
      else
        (let oldIds = get9GridVaildAreaIds u curAreaId;
             addIds = filter (\<lambda>i. index_of oldIds i = -1) newIds;
             removeIds = filter (\<lambda>i. index_of newIds i = -1) oldIds
         in (addIds, removeIds,
             if js_truthy (index_of addIds newAreaId) then Some [newAreaId] else None)))"

definition qryOrder :: "int list option \<Rightarrow> int list \<Rightarrow> int list" where
  "qryOrder firstAreaIds addIds =
     (case firstAreaIds of
        Some f \<Rightarrow> if 0 < length f then f @ filter (\<lambda>i. index_of f i = -1) addIds else addIds
      | None \<Rightarrow> addIds)"

definition setCurCenterPoint ::
  "map_util \<Rightarrow> rsize \<Rightarrow> ipoint \<Rightarrow> rpoint \<Rightarrow> mapProxy \<Rightarrow> bool \<times> mapProxy \<times> logic_event list"
  where
  "setCurCenterPoint u vsize point pixelPoint s =
     (if curCenterPoint s = None \<or> fst (the (curCenterPoint s)) \<noteq> fst point
         \<or> snd (the (curCenterPoint s)) \<noteq> snd point then
        (let s1 = s\<lparr>curCenterPoint := Some point\<rparr>;
             areaPoint = getAreaPointByCellPoint u (fst point) (snd point);
             areaId = getIdByAreaPoint u (fst areaPoint) (snd areaPoint)
         in if curCenterAreaId s1 = -1 \<or> curCenterAreaId s1 \<noteq> areaId then
              (let (areaData, s2) = getMapAreaData u areaId s1;
                   (full, s3) =
                     (if curCenterAreaId s2 = -1 then (True, s2)
                      else (let (curData, s3) = getMapAreaData u (curCenterAreaId s2) s2
                            in (\<not> fuzzyEquals curData (Some areaData) 3, s3)));
                   (addIds, removeIds, firstAreaIds) =
                     showAreaDiff u vsize pixelPoint full (curCenterAreaId s3) (area_id areaData);
                   s4 = s3\<lparr>qryAreaIds := qryAreaIds s3 @ qryOrder firstAreaIds addIds,
                           curCenterAreaId := areaId\<rparr>
               in (True, s4, [MapEenterChange point, MapShowAreaChange point areaId addIds removeIds]))
            else (True, s1, [MapEenterChange point]))
      else (False, s, []))"

definition getCurCenterPoint :: "mapProxy \<Rightarrow> ipoint option" where
  "getCurCenterPoint s = curCenterPoint s"

definition getCurCenterAreaId :: "mapProxy \<Rightarrow> int" where
  "getCurCenterAreaId s = curCenterAreaId s"

text \<open>A sequence of calls of \<open>setCurCenterPoint\<close>, as the viewport controller makes them
  while the camera moves: the final state and all events, in order.\<close>

fun moveRun ::
  "map_util \<Rightarrow> rsize \<Rightarrow> (ipoint \<times> rpoint) list \<Rightarrow> mapProxy \<Rightarrow> mapProxy \<times> logic_event list"
  where
  "moveRun u vsize [] s = (s, [])"
| "moveRun u vsize ((p, px) # ms) s =
     (let (_, s', evs) = setCurCenterPoint u vsize p px s;
          (s'', evs') = moveRun u vsize ms s'
      in (s'', evs @ evs'))"


section \<open>Invariants of the cache\<close>

text \<open>\<open>store_ok\<close>: every descriptor held in \<open>_mapAreaDatas\<close> is the one
  \<open>getMapAreaData\<close> created for its key, up to the query time the network collaborator
  updates. \<open>isFullRefresh\<close> is the test of lines 329-330 that decides between the
  incremental and the full refresh, read on descriptors of the store. \<open>queue_ok\<close>:
  every id in the query queue \<open>_qryAreaIds\<close> names an area of the map.\<close>

definition store_ok :: "map_util \<Rightarrow> mapProxy \<Rightarrow> bool" where
  "store_ok u s \<longleftrightarrow> (\<forall>k d. mapAreaDatas s k = Some d \<longrightarrow> d\<lparr>qryStartTime := 0\<rparr> = newMapAreaData u k)"

definition isFullRefresh :: "map_util \<Rightarrow> int \<Rightarrow> int \<Rightarrow> bool" where
  "isFullRefresh u cur newId \<longleftrightarrow>
     cur = -1 \<or> \<not> fuzzyEquals (newMapAreaData u cur) (Some (newMapAreaData u newId)) 3"

definition queue_ok :: "map_util \<Rightarrow> mapProxy \<Rightarrow> bool" where
  "queue_ok u s \<longleftrightarrow> (\<forall>i \<in> set (qryAreaIds s). isVaildAreaId u i)"

section \<open>Descriptors and the frame of \<open>setCurCenterPoint\<close>\<close>

lemma newMapAreaData_fields [simp]:
  "area_id (newMapAreaData u i) = i"
  "area_x (newMapAreaData u i) = fst (getAreaPointById u i)"
  "area_y (newMapAreaData u i) = snd (getAreaPointById u i)"
  "qryStartTime (newMapAreaData u i) = 0"
  by (simp_all add: newMapAreaData_def Let_def)

lemma newMapAreaData_reset [simp]:
  "(newMapAreaData u i)\<lparr>qryStartTime := 0\<rparr> = newMapAreaData u i"
  by (simp add: newMapAreaData_def Let_def)

lemma store_ok_coords:
  assumes "store_ok u s" "mapAreaDatas s k = Some d"
  shows "area_id d = k \<and> area_x d = fst (getAreaPointById u k) \<and> area_y d = snd (getAreaPointById u k)"
proof -
  have "d\<lparr>qryStartTime := 0\<rparr> = newMapAreaData u k"
    using assms by (simp add: store_ok_def)
  then have "area_id (d\<lparr>qryStartTime := 0\<rparr>) = k"
    and "area_x (d\<lparr>qryStartTime := 0\<rparr>) = fst (getAreaPointById u k)"
    and "area_y (d\<lparr>qryStartTime := 0\<rparr>) = snd (getAreaPointById u k)"
    by simp_all
  then show ?thesis by simp
qed

lemma getMapAreaData_spec:
  assumes "store_ok u s" "getMapAreaData u i s = (d, s')"
  shows "store_ok u s' \<and> area_id d = i \<and> area_x d = fst (getAreaPointById u i)
    \<and> area_y d = snd (getAreaPointById u i)
    \<and> s' = s\<lparr>mapAreaDatas := mapAreaDatas s'\<rparr>
    \<and> mapAreaDatas s' i = Some d
    \<and> (\<forall>k. mapAreaDatas s k \<noteq> None \<longrightarrow> mapAreaDatas s' k = mapAreaDatas s k)"
proof (cases "mapAreaDatas s i")
  case None
  with assms show ?thesis
    by (auto simp: getMapAreaData_def store_ok_def Let_def split: if_splits)
next
  case (Some d0)
  with assms store_ok_coords [OF assms(1) Some] show ?thesis
    by (auto simp: getMapAreaData_def)
qed

lemma moved_iff:
  "(curCenterPoint s = None \<or> fst (the (curCenterPoint s)) \<noteq> fst point
     \<or> snd (the (curCenterPoint s)) \<noteq> snd point) \<longleftrightarrow> curCenterPoint s \<noteq> Some point"
  by (cases "curCenterPoint s"; cases point) auto

lemma fuzzyEquals_coords:
  "area_x a = area_x a' \<Longrightarrow> area_y a = area_y a' \<Longrightarrow> area_x b = area_x b' \<Longrightarrow>
     area_y b = area_y b' \<Longrightarrow> fuzzyEquals a (Some b) v = fuzzyEquals a' (Some b') v"
  by (simp add: fuzzyEquals_def)

lemma setCurCenterPoint_unmoved:
  "curCenterPoint s = Some point \<Longrightarrow> setCurCenterPoint u vsize point px s = (False, s, [])"
  by (simp add: setCurCenterPoint_def moved_iff)

lemma setCurCenterPoint_same_area:
  assumes "curCenterPoint s \<noteq> Some point" "curCenterAreaId s \<noteq> -1"
    "curCenterAreaId s = getAreaIdByCellPoint u (fst point) (snd point)"
  shows "setCurCenterPoint u vsize point px s = (True, s\<lparr>curCenterPoint := Some point\<rparr>, [MapEenterChange point])"
  unfolding setCurCenterPoint_def moved_iff
  using assms by (simp add: getAreaIdByCellPoint_def Let_def)

lemma setCurCenterPoint_area_change:
  assumes ok: "store_ok u s" and moved: "curCenterPoint s \<noteq> Some point"
    and aid: "areaId = getAreaIdByCellPoint u (fst point) (snd point)"
    and change: "curCenterAreaId s = -1 \<or> curCenterAreaId s \<noteq> areaId"
    and diff: "showAreaDiff u vsize px (isFullRefresh u (curCenterAreaId s) areaId) (curCenterAreaId s) areaId
      = (addIds, removeIds, firstAreaIds)"
  shows "\<exists>m. setCurCenterPoint u vsize point px s =
      (True, s\<lparr>curCenterPoint := Some point, mapAreaDatas := m,
               qryAreaIds := qryAreaIds s @ qryOrder firstAreaIds addIds, curCenterAreaId := areaId\<rparr>,
       [MapEenterChange point, MapShowAreaChange point areaId addIds removeIds])
    \<and> store_ok u (s\<lparr>mapAreaDatas := m\<rparr>)
    \<and> (\<forall>k. mapAreaDatas s k \<noteq> None \<longrightarrow> m k = mapAreaDatas s k)"
proof -
  let ?s1 = "s\<lparr>curCenterPoint := Some point\<rparr>"
  let ?cur = "curCenterAreaId s"
  have ok1: "store_ok u ?s1" using ok by (simp add: store_ok_def)
  have aid': "getIdByAreaPoint u (fst (getAreaPointByCellPoint u (fst point) (snd point)))
      (snd (getAreaPointByCellPoint u (fst point) (snd point))) = areaId"
    using aid by (simp add: getAreaIdByCellPoint_def Let_def)
  obtain d1 s2 where g1: "getMapAreaData u areaId ?s1 = (d1, s2)" by fastforce
  note sp1 = getMapAreaData_spec [OF ok1 g1]
  from sp1 have e2: "s2 = ?s1\<lparr>mapAreaDatas := mapAreaDatas s2\<rparr>" by blast
  have cur2: "curCenterAreaId s2 = ?cur" "qryAreaIds s2 = qryAreaIds s"
    by (subst e2, simp)+
  show ?thesis
  proof (cases "?cur = -1")
    case True
    have "setCurCenterPoint u vsize point px s =
      (True, s2\<lparr>qryAreaIds := qryAreaIds s2 @ qryOrder firstAreaIds addIds, curCenterAreaId := areaId\<rparr>,
       [MapEenterChange point, MapShowAreaChange point areaId addIds removeIds])"
      unfolding setCurCenterPoint_def moved_iff
      using moved change True g1 sp1 cur2 diff
      by (simp add: aid' isFullRefresh_def Let_def)
    moreover have "s2\<lparr>qryAreaIds := qryAreaIds s2 @ qryOrder firstAreaIds addIds, curCenterAreaId := areaId\<rparr>
      = s\<lparr>curCenterPoint := Some point, mapAreaDatas := mapAreaDatas s2,
               qryAreaIds := qryAreaIds s @ qryOrder firstAreaIds addIds, curCenterAreaId := areaId\<rparr>"
      by (subst e2) (simp add: cur2)
    ultimately show ?thesis
      using sp1 by (intro exI [of _ "mapAreaDatas s2"]) (auto simp: store_ok_def)
  next
    case False
    obtain d2 s3 where g2: "getMapAreaData u ?cur s2 = (d2, s3)" by fastforce
    note sp2 = getMapAreaData_spec [OF conjunct1 [OF sp1] g2]
    from sp2 have e3: "s3 = s2\<lparr>mapAreaDatas := mapAreaDatas s3\<rparr>" by blast
    have cur3: "curCenterAreaId s3 = ?cur" "qryAreaIds s3 = qryAreaIds s"
      by (subst e3, simp add: cur2)+
    have fz: "fuzzyEquals d2 (Some d1) 3 =
        fuzzyEquals (newMapAreaData u ?cur) (Some (newMapAreaData u areaId)) 3"
      using sp1 sp2 by (intro fuzzyEquals_coords) simp_all
    have "setCurCenterPoint u vsize point px s =
      (True, s3\<lparr>qryAreaIds := qryAreaIds s3 @ qryOrder firstAreaIds addIds, curCenterAreaId := areaId\<rparr>,
       [MapEenterChange point, MapShowAreaChange point areaId addIds removeIds])"
      unfolding setCurCenterPoint_def moved_iff
      using moved change False g1 g2 sp1 cur2 cur3 diff fz
      by (simp add: aid' isFullRefresh_def Let_def)
    moreover have "s3\<lparr>qryAreaIds := qryAreaIds s3 @ qryOrder firstAreaIds addIds, curCenterAreaId := areaId\<rparr>
      = s\<lparr>curCenterPoint := Some point, mapAreaDatas := mapAreaDatas s3,
               qryAreaIds := qryAreaIds s @ qryOrder firstAreaIds addIds, curCenterAreaId := areaId\<rparr>"
      by (subst e3, subst e2) (simp add: cur3)
    ultimately show ?thesis
      using sp1 sp2 by (intro exI [of _ "mapAreaDatas s3"]) (auto simp: store_ok_def)
  qed
qed

lemma showAreaDiff_pan:
  "showAreaDiff u vsize px False cur newId =
     (filter (\<lambda>i. i \<notin> set (get9GridVaildAreaIds u cur)) (get9GridVaildAreaIds u newId),
      filter (\<lambda>i. i \<notin> set (get9GridVaildAreaIds u newId)) (get9GridVaildAreaIds u cur),
      if js_truthy (index_of (filter (\<lambda>i. i \<notin> set (get9GridVaildAreaIds u cur))
                               (get9GridVaildAreaIds u newId)) newId)
      then Some [newId] else None)"
  by (simp add: showAreaDiff_def Let_def)

lemma showAreaDiff_full:
  "showAreaDiff u vsize px True cur newId =
     (get9GridVaildAreaIds u newId, [],
      Some (getVaildAreaIdsByPixelPoints u (screenCornerPoints vsize px)))"
  by (simp add: showAreaDiff_def)

lemma qryOrder_pan:
  "qryOrder (if js_truthy (index_of addIds newId) then Some [newId] else None) addIds \<noteq> []
   \<and> hd (qryOrder (if js_truthy (index_of addIds newId) then Some [newId] else None) addIds) = newId
   \<and> set (qryOrder (if js_truthy (index_of addIds newId) then Some [newId] else None) addIds)
       = insert newId (set addIds)"
proof (cases "js_truthy (index_of addIds newId)")
  case True
  then show ?thesis by (auto simp: qryOrder_def)
next
  case False
  then have "addIds \<noteq> [] \<and> hd addIds = newId"
    by (auto simp: js_truthy_index_of)
  with False show ?thesis
    by (cases addIds) (auto simp: qryOrder_def)
qed

lemma qryOrder_full:
  "qryOrder (Some f) addIds = f @ filter (\<lambda>i. i \<notin> set f) addIds"
  by (cases "f = []") (simp_all add: qryOrder_def)

lemma getMapAreaData_frame:
  "getMapAreaData u i s = (d, s') \<Longrightarrow> s' = s\<lparr>mapAreaDatas := mapAreaDatas s'\<rparr>"
  by (auto simp: getMapAreaData_def Let_def split: option.splits)

lemma setCurCenterPoint_frame:
  assumes "setCurCenterPoint u vsize point px s = (r, s', evs)"
  shows "curCenterPoint s' = Some point
    \<and> (\<exists>q. qryAreaIds s' = qryAreaIds s @ q)
    \<and> mapPosTags s' = mapPosTags s \<and> mapResDatas s' = mapResDatas s
    \<and> mapSysCityResDatas s' = mapSysCityResDatas s \<and> mapResConfigs s' = mapResConfigs s
    \<and> warFree s' = warFree s"
proof (cases "curCenterPoint s = Some point")
  case True
  with assms show ?thesis by (simp add: setCurCenterPoint_unmoved)
next
  case False
  let ?s1 = "s\<lparr>curCenterPoint := Some point\<rparr>"
  let ?a = "getIdByAreaPoint u (fst (getAreaPointByCellPoint u (fst point) (snd point)))
      (snd (getAreaPointByCellPoint u (fst point) (snd point)))"
  obtain d1 s2 where g1: "getMapAreaData u ?a ?s1 = (d1, s2)" by fastforce
  obtain d2 s3 where g2: "getMapAreaData u (curCenterAreaId s2) s2 = (d2, s3)" by fastforce
  note e2 = getMapAreaData_frame [OF g1] and e3 = getMapAreaData_frame [OF g2]
  have s2: "curCenterPoint s2 = Some point" "qryAreaIds s2 = qryAreaIds s" "mapPosTags s2 = mapPosTags s"
    "mapResDatas s2 = mapResDatas s" "mapSysCityResDatas s2 = mapSysCityResDatas s"
    "mapResConfigs s2 = mapResConfigs s" "warFree s2 = warFree s" "curCenterAreaId s2 = curCenterAreaId s"
    by (subst e2, simp)+
  have s3: "curCenterPoint s3 = Some point" "qryAreaIds s3 = qryAreaIds s" "mapPosTags s3 = mapPosTags s"
    "mapResDatas s3 = mapResDatas s" "mapSysCityResDatas s3 = mapSysCityResDatas s"
    "mapResConfigs s3 = mapResConfigs s" "warFree s3 = warFree s"
    by (subst e3, simp add: s2)+
  from assms False g1 g2 s2 s3 show ?thesis
    unfolding setCurCenterPoint_def moved_iff
    by (auto simp: Let_def split: if_splits prod.splits)
qed

section \<open>The behaviour of \<open>setCurCenterPoint\<close>\<close>

text \<open>\<open>setCurCenterPoint\<close> is idempotent: called again with the cell it has just
  recorded (whatever the pixel point), it answers \<open>false\<close>, leaves the proxy unchanged
  and emits nothing.\<close>

theorem setCurCenterPoint_idempotent:
  assumes "setCurCenterPoint u vsize point px s = (r, s', evs)"
  shows "setCurCenterPoint u vsize point px' s' = (False, s', [])"
  using setCurCenterPoint_frame [OF assms] by (simp add: setCurCenterPoint_unmoved)

lemma setCurCenterPoint_cases:
  assumes ok: "store_ok u s" and call: "setCurCenterPoint u vsize point px s = (r, s', evs)"
  obtains (unmoved) "curCenterPoint s = Some point" "s' = s" "evs = []"
  | (same) "curCenterPoint s \<noteq> Some point" "curCenterAreaId s \<noteq> -1"
      "curCenterAreaId s = getAreaIdByCellPoint u (fst point) (snd point)"
      "s' = s\<lparr>curCenterPoint := Some point\<rparr>" "evs = [MapEenterChange point]"
  | (change) addIds removeIds firstAreaIds m where "curCenterPoint s \<noteq> Some point"
      "curCenterAreaId s = -1 \<or> curCenterAreaId s \<noteq> getAreaIdByCellPoint u (fst point) (snd point)"
      "showAreaDiff u vsize px
         (isFullRefresh u (curCenterAreaId s) (getAreaIdByCellPoint u (fst point) (snd point)))
         (curCenterAreaId s) (getAreaIdByCellPoint u (fst point) (snd point))
       = (addIds, removeIds, firstAreaIds)"
      "s' = s\<lparr>curCenterPoint := Some point, mapAreaDatas := m,
               qryAreaIds := qryAreaIds s @ qryOrder firstAreaIds addIds,
               curCenterAreaId := getAreaIdByCellPoint u (fst point) (snd point)\<rparr>"
      "evs = [MapEenterChange point,
              MapShowAreaChange point (getAreaIdByCellPoint u (fst point) (snd point)) addIds removeIds]"
      "store_ok u (s\<lparr>mapAreaDatas := m\<rparr>)"
proof -
  let ?a = "getAreaIdByCellPoint u (fst point) (snd point)"
  consider (u) "curCenterPoint s = Some point"
    | (s) "curCenterPoint s \<noteq> Some point" "curCenterAreaId s \<noteq> -1" "curCenterAreaId s = ?a"
    | (c) "curCenterPoint s \<noteq> Some point" "curCenterAreaId s = -1 \<or> curCenterAreaId s \<noteq> ?a"
    by blast
  then show thesis
  proof cases
    case u
    with call show thesis by (intro unmoved) (simp_all add: setCurCenterPoint_unmoved)
  next
    case s
    with call show thesis by (intro same) (simp_all add: setCurCenterPoint_same_area)
  next
    case c
    obtain addIds removeIds firstAreaIds where
      d: "showAreaDiff u vsize px (isFullRefresh u (curCenterAreaId s) ?a) (curCenterAreaId s) ?a
         = (addIds, removeIds, firstAreaIds)"
      by (metis prod_cases3)
    from setCurCenterPoint_area_change [OF ok c(1) refl c(2) d] call
    show thesis
      using c d by (auto intro: change)
  qed
qed

lemma isFullRefresh_same: "isFullRefresh u a a \<longleftrightarrow> a = -1"
  by (auto simp: isFullRefresh_def fuzzyEquals_Some)

text \<open>C1: an incremental move. When the centre cell changes to a cell of another
  area \<open>areaId\<close> whose area coordinates are within 3 of the current area's, the method
  emits \<open>MapEenterChange\<close> and then \<open>MapShowAreaChange\<close> with the areas of the new
  nine-grid that were not in the old one and the areas of the old nine-grid that are not in
  the new one; the current area becomes \<open>areaId\<close>; and the query queue is extended at
  its end by a non-empty list headed by \<open>areaId\<close> holding exactly \<open>areaId\<close> and the
  added areas.\<close>

theorem setCurCenterPoint_pan:
  assumes "store_ok u s" "curCenterPoint s \<noteq> Some point"
    and "areaId = getAreaIdByCellPoint u (fst point) (snd point)"
    and "curCenterAreaId s \<noteq> areaId" "\<not> isFullRefresh u (curCenterAreaId s) areaId"
    and "setCurCenterPoint u vsize point px s = (r, s', evs)"
  shows "let oldIds = get9GridVaildAreaIds u (curCenterAreaId s); newIds = get9GridVaildAreaIds u areaId;
             addIds = filter (\<lambda>i. i \<notin> set oldIds) newIds;
             removeIds = filter (\<lambda>i. i \<notin> set newIds) oldIds
         in evs = [MapEenterChange point, MapShowAreaChange point areaId addIds removeIds]
            \<and> curCenterAreaId s' = areaId
            \<and> (\<exists>q. qryAreaIds s' = qryAreaIds s @ q \<and> q \<noteq> [] \<and> hd q = areaId
                   \<and> set q = insert areaId (set addIds))"
  using assms(1,6)
proof (cases rule: setCurCenterPoint_cases)
  case unmoved
  with assms(2) show ?thesis by simp
next
  case same
  with assms(3,4) show ?thesis by simp
next
  case (change addIds removeIds firstAreaIds m)
  let ?a = "getAreaIdByCellPoint u (fst point) (snd point)"
  let ?A = "filter (\<lambda>i. i \<notin> set (get9GridVaildAreaIds u (curCenterAreaId s))) (get9GridVaildAreaIds u ?a)"
  let ?R = "filter (\<lambda>i. i \<notin> set (get9GridVaildAreaIds u ?a)) (get9GridVaildAreaIds u (curCenterAreaId s))"
  have F: "isFullRefresh u (curCenterAreaId s) ?a = False"
    using assms(3,5) by simp
  from change(3) have "(addIds, removeIds, firstAreaIds) =
      (?A, ?R, if js_truthy (index_of ?A ?a) then Some [?a] else None)"
    unfolding F showAreaDiff_pan by (rule sym)
  then have d: "addIds = ?A" "removeIds = ?R"
    "firstAreaIds = (if js_truthy (index_of ?A ?a) then Some [?a] else None)"
    by simp_all
  have first: "firstAreaIds = (if js_truthy (index_of addIds ?a) then Some [?a] else None)"
    by (simp only: d(1) d(3))
  have s': "s' = s\<lparr>curCenterPoint := Some point, mapAreaDatas := m,
               qryAreaIds := qryAreaIds s @ qryOrder (if js_truthy (index_of addIds ?a) then Some [?a] else None) addIds,
               curCenterAreaId := ?a\<rparr>"
    using change(4) by (simp only: first)
  show ?thesis
    using s' change(5) qryOrder_pan [of addIds ?a] unfolding assms(3)
    by (simp add: Let_def d(1,2))
qed

text \<open>C2: a full refresh. On the first move, or when the new area is more than 3 areas
  away from the current one in either coordinate, \<open>MapShowAreaChange\<close> carries the whole
  valid nine-grid of the new area as the areas to add and no area to remove, and the queue
  is extended by the valid areas under the screen's centre and four corners, followed by
  the rest of the nine-grid.\<close>

theorem setCurCenterPoint_jump:
  assumes "store_ok u s" "curCenterPoint s \<noteq> Some point"
    and "areaId = getAreaIdByCellPoint u (fst point) (snd point)"
    and "isFullRefresh u (curCenterAreaId s) areaId"
    and "setCurCenterPoint u vsize point px s = (r, s', evs)"
  shows "evs = [MapEenterChange point, MapShowAreaChange point areaId (get9GridVaildAreaIds u areaId) []]
    \<and> curCenterAreaId s' = areaId
    \<and> qryAreaIds s' = qryAreaIds s @
         (let f = getVaildAreaIdsByPixelPoints u (screenCornerPoints vsize px)
          in f @ filter (\<lambda>i. i \<notin> set f) (get9GridVaildAreaIds u areaId))"
  using assms(1,5)
proof (cases rule: setCurCenterPoint_cases)
  case unmoved
  with assms(2) show ?thesis by simp
next
  case same
  with assms(3,4) show ?thesis by (simp add: isFullRefresh_same)
next
  case (change addIds removeIds firstAreaIds m)
  let ?a = "getAreaIdByCellPoint u (fst point) (snd point)"
  have F: "isFullRefresh u (curCenterAreaId s) ?a = True"
    using assms(3,4) by simp
  from change(3) have "(addIds, removeIds, firstAreaIds) = (get9GridVaildAreaIds u ?a, [],
      Some (getVaildAreaIdsByPixelPoints u (screenCornerPoints vsize px)))"
    unfolding F showAreaDiff_full by (rule sym)
  then have d: "addIds = get9GridVaildAreaIds u ?a" "removeIds = []"
    "firstAreaIds = Some (getVaildAreaIdsByPixelPoints u (screenCornerPoints vsize px))"
    by simp_all
  show ?thesis
    using change(4,5) unfolding assms(3)
    by (simp add: d qryOrder_full Let_def)
qed

section \<open>Invariants along a run\<close>

lemma store_ok_cong: "mapAreaDatas s = mapAreaDatas t \<Longrightarrow> store_ok u s = store_ok u t"
  by (simp add: store_ok_def)

lemma setCurCenterPoint_store_ok:
  assumes "store_ok u s" "setCurCenterPoint u vsize point px s = (r, s', evs)"
  shows "store_ok u s'"
  using assms
proof (cases rule: setCurCenterPoint_cases)
  case unmoved
  with assms show ?thesis by simp
next
  case same
  with assms show ?thesis by (simp add: store_ok_def)
next
  case (change addIds removeIds firstAreaIds m)
  then show ?thesis by (simp add: store_ok_def)
qed

lemma set_qryOrder:
  "set (qryOrder f addIds) \<subseteq> set addIds \<union> (case f of Some l \<Rightarrow> set l | None \<Rightarrow> {})"
  by (auto simp: qryOrder_def split: option.splits)

lemma showAreaDiff_valid:
  assumes "showAreaDiff u vsize px full cur a = (addIds, removeIds, firstAreaIds)"
  shows "set addIds \<subseteq> set (get9GridVaildAreaIds u a)
    \<and> (case firstAreaIds of Some l \<Rightarrow> set l | None \<Rightarrow> {}) \<subseteq> insert a {j. isVaildAreaId u j}"
  using assms getVaildAreaIdsByPixelPoints_spec [of u "screenCornerPoints vsize px"]
  by (cases full) (auto simp: showAreaDiff_def Let_def split: if_splits)

lemma setCurCenterPoint_queue_ok:
  assumes "map_util_ok u" "store_ok u s" "queue_ok u s" "isVaildCellPoint u point"
    and "setCurCenterPoint u vsize point px s = (r, s', evs)"
  shows "queue_ok u s'"
  using assms(2,5)
proof (cases rule: setCurCenterPoint_cases)
  case unmoved
  with assms show ?thesis by simp
next
  case same
  with assms show ?thesis by (simp add: queue_ok_def)
next
  case (change addIds removeIds firstAreaIds m)
  let ?a = "getAreaIdByCellPoint u (fst point) (snd point)"
  have a: "isVaildAreaId u ?a"
    using area_of_valid_cell [OF assms(1), of "fst point" "snd point"] assms(4) by simp
  have "\<forall>i \<in> set (qryOrder firstAreaIds addIds). isVaildAreaId u i"
    using set_qryOrder [of firstAreaIds addIds] showAreaDiff_valid [OF change(3)] a
      get9GridVaildAreaIds_valid [of _ u ?a]
    by blast
  with change(4) assms(3) show ?thesis by (auto simp: queue_ok_def)
qed


section \<open>Scenarios on the demo map\<close>

text \<open>The demo map of \<open>MapUtil\<close> (20 x 20 cells, 3 x 3 areas of 8 x 8 cells) with a
  1280 x 720 view; cell (0, 0) has pixel point (0, 1216) and cell (0, 8) has pixel point
  (-1024, 704) in the node space \<open>mapCellToPixelPoint\<close> computes.\<close>

lemma store_ok_initProxy: "store_ok u initProxy"
  by (simp add: store_ok_def initProxy_def)

lemma demo_corners_origin:
  "getVaildAreaIdsByPixelPoints demo_util (screenCornerPoints (1280, 720) (0, 1216)) = [0]"
  by (simp add: getVaildAreaIdsByPixelPoints_def screenCornerPoints_def mapPixelToCellPoint_def
      worldPixelToMapCellPoint_def getAreaPointByCellPoint_def getIdByAreaPoint_def isVaildAreaId_def
      areaCount_def demo_util_eq)

lemma demo_nine_grid_0: "get9GridVaildAreaIds demo_util 0 = [2, 3, 4, 0, 1]"
  by (simp add: demo_util_eq get9GridVaildAreaIds_def get9GridAreaIds_def isVaildAreaId_def areaCount_def)

lemma demo_nine_grid_3: "get9GridVaildAreaIds demo_util 3 = [5, 6, 7, 2, 3, 4, 0, 1]"
  by (simp add: demo_util_eq get9GridVaildAreaIds_def get9GridAreaIds_def isVaildAreaId_def areaCount_def)

lemma demo_area_of: "getAreaIdByCellPoint demo_util 0 0 = 0" "getAreaIdByCellPoint demo_util 0 8 = 3"
  by (simp_all add: demo_util_eq getAreaIdByCellPoint_def getAreaPointByCellPoint_def getIdByAreaPoint_def)

theorem setCurCenterPoint_jump_witness:
  "snd (snd (setCurCenterPoint demo_util (1280, 720) (0, 0) (0, 1216) initProxy)) =
     [MapEenterChange (0, 0), MapShowAreaChange (0, 0) 0 [2, 3, 4, 0, 1] []]
   \<and> qryAreaIds (fst (snd (setCurCenterPoint demo_util (1280, 720) (0, 0) (0, 1216) initProxy)))
     = [0, 2, 3, 4, 1]"
proof -
  obtain r s' evs where c: "setCurCenterPoint demo_util (1280, 720) (0, 0) (0, 1216) initProxy = (r, s', evs)"
    by (metis prod_cases3)
  have h: "store_ok demo_util initProxy" "curCenterPoint initProxy \<noteq> Some (0, 0)"
    "0 = getAreaIdByCellPoint demo_util (fst (0::int, 0::int)) (snd (0::int, 0::int))"
    "isFullRefresh demo_util (curCenterAreaId initProxy) 0"
    by (rule store_ok_initProxy) (simp_all add: initProxy_def demo_area_of isFullRefresh_def)
  have q0: "qryAreaIds initProxy = []" by (simp add: initProxy_def)
  from setCurCenterPoint_jump [OF h c]
  show ?thesis
    by (simp add: c q0 demo_corners_origin demo_nine_grid_0)
qed


lemma demo_first_call:
  assumes "setCurCenterPoint demo_util (1280, 720) (0, 0) (0, 1216) initProxy = (r, s1, evs)"
  shows "store_ok demo_util s1 \<and> curCenterPoint s1 = Some (0, 0) \<and> curCenterAreaId s1 = 0
    \<and> qryAreaIds s1 = [0, 2, 3, 4, 1]"
  using store_ok_initProxy assms
proof (cases rule: setCurCenterPoint_cases)
  case unmoved
  then show ?thesis by (simp add: initProxy_def)
next
  case same
  then show ?thesis by (simp add: initProxy_def)
next
  case (change addIds removeIds firstAreaIds m)
  have "isFullRefresh demo_util (curCenterAreaId initProxy) 0"
    by (simp add: isFullRefresh_def initProxy_def)
  with change(3) have "addIds = [2, 3, 4, 0, 1]" "firstAreaIds = Some [0]"
    by (simp_all add: demo_area_of showAreaDiff_full demo_corners_origin demo_nine_grid_0)
  with change(4,6) show ?thesis
    by (simp add: demo_area_of initProxy_def qryOrder_full store_ok_def)
qed

theorem setCurCenterPoint_pan_witness:
  "let s1 = fst (snd (setCurCenterPoint demo_util (1280, 720) (0, 0) (0, 1216) initProxy)) in
   snd (snd (setCurCenterPoint demo_util (1280, 720) (0, 8) (-1024, 704) s1)) =
     [MapEenterChange (0, 8), MapShowAreaChange (0, 8) 3 [5, 6, 7] []]
   \<and> 3 \<in> set (get9GridVaildAreaIds demo_util (curCenterAreaId s1))
   \<and> hd (drop 5 (qryAreaIds (fst (snd (setCurCenterPoint demo_util (1280, 720) (0, 8) (-1024, 704) s1))))) = 3"
proof -
  obtain r1 s1 e1 where c1: "setCurCenterPoint demo_util (1280, 720) (0, 0) (0, 1216) initProxy = (r1, s1, e1)"
    by (metis prod_cases3)
  note s1 = demo_first_call [OF c1]
  obtain r2 s2 e2 where c2: "setCurCenterPoint demo_util (1280, 720) (0, 8) (-1024, 704) s1 = (r2, s2, e2)"
    by (metis prod_cases3)
  have h: "store_ok demo_util s1" "curCenterPoint s1 \<noteq> Some (0, 8)"
    "3 = getAreaIdByCellPoint demo_util (fst (0::int, 8::int)) (snd (0::int, 8::int))"
    "curCenterAreaId s1 \<noteq> 3" "\<not> isFullRefresh demo_util (curCenterAreaId s1) 3"
  proof -
    show "store_ok demo_util s1" "curCenterPoint s1 \<noteq> Some (0, 8)" "curCenterAreaId s1 \<noteq> 3"
      using s1 by simp_all
    show "3 = getAreaIdByCellPoint demo_util (fst (0::int, 8::int)) (snd (0::int, 8::int))"
      by (simp add: demo_area_of)
    show "\<not> isFullRefresh demo_util (curCenterAreaId s1) 3"
      using s1 by (simp add: isFullRefresh_def fuzzyEquals_Some getAreaPointById_def demo_util_eq js_rem_def)
  qed
  note P = setCurCenterPoint_pan [OF h c2, unfolded Let_def]
  have e2: "e2 = [MapEenterChange (0, 8), MapShowAreaChange (0, 8) 3 [5, 6, 7] []]"
    using P s1 by (simp add: demo_nine_grid_0 demo_nine_grid_3)
  from P obtain q where q: "qryAreaIds s2 = qryAreaIds s1 @ q" "q \<noteq> []" "hd q = 3"
    by blast
  have "hd (drop 5 (qryAreaIds s2)) = 3"
    using q s1 by simp
  with e2 s1 show ?thesis
    by (simp add: c1 c2 demo_nine_grid_0)
qed

section \<open>Runs of moves\<close>

lemma moveRun_Cons:
  "setCurCenterPoint u vsize p px s = (r, s', evs) \<Longrightarrow>
   moveRun u vsize ((p, px) # ms) s =
     (fst (moveRun u vsize ms s'), evs @ snd (moveRun u vsize ms s'))"
  by (simp add: split_def Let_def)

lemma moveRun_store_ok:
  "store_ok u s \<Longrightarrow> store_ok u (fst (moveRun u vsize ms s))"
proof (induction ms arbitrary: s)
  case Nil
  then show ?case by simp
next
  case (Cons m ms)
  obtain p px where m: "m = (p, px)" by (cases m) blast
  obtain r s' evs where c: "setCurCenterPoint u vsize p px s = (r, s', evs)"
    by (metis prod_cases3)
  have "store_ok u (fst (moveRun u vsize ms s'))"
    using setCurCenterPoint_store_ok [OF Cons.prems c] by (rule Cons.IH)
  then show ?case unfolding m moveRun_Cons [OF c] by simp
qed

text \<open>C8: along any run of moves to cells of the map, starting from a proxy whose
  store is consistent and whose queue names only areas of the map, the query queue names
  only areas of the map.\<close>

theorem moveRun_queue_ok:
  assumes "map_util_ok u" "store_ok u s" "queue_ok u s"
    and "\<forall>m \<in> set ms. isVaildCellPoint u (fst m)"
  shows "queue_ok u (fst (moveRun u vsize ms s))"
  using assms(2-4)
proof (induction ms arbitrary: s)
  case Nil
  then show ?case by simp
next
  case (Cons m ms)
  obtain p px where m: "m = (p, px)" by (cases m) blast
  obtain r s' evs where c: "setCurCenterPoint u vsize p px s = (r, s', evs)"
    by (metis prod_cases3)
  have "isVaildCellPoint u p" using Cons.prems(3) m by simp
  then have "queue_ok u s'"
    using setCurCenterPoint_queue_ok [OF assms(1) Cons.prems(1,2) _ c] by simp
  moreover have "store_ok u s'" using setCurCenterPoint_store_ok [OF Cons.prems(1) c] .
  ultimately have "queue_ok u (fst (moveRun u vsize ms s'))"
    using Cons.IH Cons.prems(3) by simp
  then show ?case unfolding m moveRun_Cons [OF c] by simp
qed

theorem moveRun_queue_ok_witness:
  "queue_ok demo_util
     (fst (moveRun demo_util (1280, 720) [((0, 0), (0, 1216)), ((0, 8), (-1024, 704))] initProxy))"
proof (rule moveRun_queue_ok)
  show "map_util_ok demo_util" by (rule demo_util_ok)
  show "store_ok demo_util initProxy" by (rule store_ok_initProxy)
  show "queue_ok demo_util initProxy" by (simp add: queue_ok_def initProxy_def)
  show "\<forall>m \<in> set [((0::int, 0::int), (0::real, 1216::real)), ((0, 8), (-1024, 704))].
      isVaildCellPoint demo_util (fst m)"
    by (simp add: isVaildCellPoint_def demo_util_eq)
qed

theorem setCurCenterPoint_idempotent_witness:
  "let s1 = fst (snd (setCurCenterPoint demo_util (1280, 720) (0, 0) (0, 1216) initProxy)) in
   setCurCenterPoint demo_util (1280, 720) (0, 0) (64, 1216) s1 = (False, s1, [])"
proof -
  obtain r s1 evs where c: "setCurCenterPoint demo_util (1280, 720) (0, 0) (0, 1216) initProxy = (r, s1, evs)"
    by (metis prod_cases3)
  from setCurCenterPoint_idempotent [OF c] show ?thesis by (simp add: c)
qed

lemma demo_area_minus: "getAreaIdByCellPoint demo_util (-1) 0 = -1"
  by (simp add: demo_util_eq getAreaIdByCellPoint_def getAreaPointByCellPoint_def getIdByAreaPoint_def)

lemma demo_nine_grid_minus: "get9GridVaildAreaIds demo_util (-1) = [1, 2, 3, 0]"
  by (simp add: demo_util_eq get9GridVaildAreaIds_def get9GridAreaIds_def isVaildAreaId_def
      areaCount_def)

lemma demo_no_jump_minus: "\<not> isFullRefresh demo_util 0 (-1)"
  by (simp add: isFullRefresh_def fuzzyEquals_Some demo_util_eq getAreaPointById_def js_rem_def)

text \<open>C37: The centre's area enters the queue unchecked. After the first move to cell
  (0, 0), a move to cell (-1, 0), left of the map, gives area id -1, which is not an area
  of the map; \<open>showAreaDiff\<close> puts it in \<open>firstAreaIds\<close> since it is not among the
  added areas, and it is queued: the queue ends with -1.\<close>

theorem setCurCenterPoint_invalid_centre_queued:
  "let s1 = fst (snd (setCurCenterPoint demo_util (1280, 720) (0, 0) (0, 1216) initProxy));
       (r, s2, evs) = setCurCenterPoint demo_util (1280, 720) (-1, 0) (-128, 1152) s1 in
   evs = [MapEenterChange (-1, 0), MapShowAreaChange (-1, 0) (-1) [] [4]]
   \<and> qryAreaIds s2 = [0, 2, 3, 4, 1, -1] \<and> \<not> isVaildAreaId demo_util (-1)"
proof -
  obtain r1 s1 e1 where c1: "setCurCenterPoint demo_util (1280, 720) (0, 0) (0, 1216) initProxy = (r1, s1, e1)"
    by (metis prod_cases3)
  note s1 = demo_first_call [OF c1]
  obtain r s2 evs where c2: "setCurCenterPoint demo_util (1280, 720) (-1, 0) (-128, 1152) s1 = (r, s2, evs)"
    by (metis prod_cases3)
  have ok1: "store_ok demo_util s1" using s1 by blast
  from ok1 c2 have "evs = [MapEenterChange (-1, 0), MapShowAreaChange (-1, 0) (-1) [] [4]]
      \<and> qryAreaIds s2 = [0, 2, 3, 4, 1, -1]"
  proof (cases rule: setCurCenterPoint_cases)
    case unmoved
    then show ?thesis using s1 by simp
  next
    case same
    then show ?thesis using s1 by (simp add: demo_area_minus)
  next
    case (change addIds removeIds firstAreaIds m)
    from change(3) have "(addIds, removeIds, firstAreaIds) = ([], [4], Some [-1])"
      using s1 by (simp add: demo_area_minus demo_no_jump_minus showAreaDiff_pan
          demo_nine_grid_0 demo_nine_grid_minus js_truthy_def)
    then have "addIds = []" "removeIds = [4]" "firstAreaIds = Some [-1]" by simp_all
    with change(4,5) s1 show ?thesis by (simp add: demo_area_minus qryOrder_def)
  qed
  moreover have "\<not> isVaildAreaId demo_util (-1)" by (simp add: isVaildAreaId_def)
  ultimately show ?thesis by (simp add: c1 c2)
qed

end
