(* ===== verification/LayerLogic.thy ===== *)
theory LayerLogic
  imports Prelude "HOL-Library.AList"
begin

text \<open>
  The render layer base class \<open>MapBaseLayerLogic\<close> of
  \<^verbatim>\<open>src/assets/scripts/map/MapBaseLayerLogic.ts\<close> (lines 1-215): the areas it shows, each
  with a JavaScript \<open>Map\<close> from item ids to scene nodes, and the \<open>NodePool\<close> of nodes
  it recycles. Nodes are numbered in the order \<open>instantiate\<close> creates them
  (\<open>nextNode\<close>); the parent layer's children are the list \<open>layerChildren\<close> (setting
  \<open>item.parent\<close> appends, \<open>NodePool.put\<close> detaches). The inner \<open>Map\<close> is an
  association list in insertion order, \<open>Map.set\<close> being \<open>AList.update\<close> and
  \<open>Map.delete\<close> \<open>AList.delete\<close>. The engine's \<open>NodePool\<close> is a stack that ignores a
  node already pooled (\<open>poolPut\<close>, \<open>createItem\<close>). \<open>setItemData\<close> is overridden by
  the concrete layers, which are not in the repository; the model records the data set
  on each node in \<open>itemData\<close>. \<open>getIdByData\<close>, also overridable, is a parameter.
  Reading \<open>has\<close> of the \<open>undefined\<close> that \<open>_itemMap.get\<close> answers for an area not
  shown throws; that is the error value \<open>TypeError\<close>.
\<close>

datatype layer_error = TypeError

type_synonym node = nat

record 'd mapLayer =
  itemMap :: "int \<rightharpoonup> (int \<times> node) list"
  itemPool :: "node list"
  nextNode :: node
  layerChildren :: "node list"
  itemData :: "node \<rightharpoonup> 'd"

definition initLayer :: "'d mapLayer" where
  "initLayer = \<lparr> itemMap = Map.empty, itemPool = [], nextNode = 0, layerChildren = [],
     itemData = Map.empty \<rparr>"

definition poolPut :: "node \<Rightarrow> 'd mapLayer \<Rightarrow> 'd mapLayer" where
  "poolPut n s =
     (if n \<in> set (itemPool s) then s
      else s\<lparr>layerChildren := removeAll n (layerChildren s), itemPool := n # itemPool s\<rparr>)"

definition setParent :: "node \<Rightarrow> 'd mapLayer \<Rightarrow> 'd mapLayer" where
  "setParent n s =
     (if n \<in> set (layerChildren s) then s else s\<lparr>layerChildren := layerChildren s @ [n]\<rparr>)"

definition setItemData :: "node \<Rightarrow> 'd \<Rightarrow> 'd mapLayer \<Rightarrow> 'd mapLayer" where
  "setItemData n d s = s\<lparr>itemData := (itemData s)(n \<mapsto> d)\<rparr>"

definition getItem :: "int \<Rightarrow> int \<Rightarrow> 'd mapLayer \<Rightarrow> layer_error + node option" where
  "getItem a i s = (case itemMap s a of None \<Rightarrow> Inl TypeError | Some l \<Rightarrow> Inr (map_of l i))"

definition createItem :: "'d mapLayer \<Rightarrow> node \<times> 'd mapLayer" where
  "createItem s =
     (case itemPool s of
        n # p \<Rightarrow> (n, s\<lparr>itemPool := p\<rparr>)
      | [] \<Rightarrow> (nextNode s, s\<lparr>nextNode := Suc (nextNode s)\<rparr>))"

definition updateItem ::
  "('d \<Rightarrow> int) \<Rightarrow> int \<Rightarrow> 'd \<Rightarrow> node option \<Rightarrow> 'd mapLayer \<Rightarrow> 'd mapLayer" where
  "updateItem getIdByData a d item s =
     (case itemMap s a of
        None \<Rightarrow> s
      | Some l \<Rightarrow>
          (let realItem = (case item of None \<Rightarrow> map_of l (getIdByData d) | Some n \<Rightarrow> Some n)
           in case realItem of Some n \<Rightarrow> setItemData n d s | None \<Rightarrow> s))"

definition addItem ::
  "('d \<Rightarrow> int) \<Rightarrow> int \<Rightarrow> 'd \<Rightarrow> 'd mapLayer \<Rightarrow> node option \<times> 'd mapLayer" where
  "addItem getIdByData a d s =
     (case itemMap s a of
        None \<Rightarrow> (None, s)
      | Some l \<Rightarrow>
          (case map_of l (getIdByData d) of
             Some n \<Rightarrow> (Some n, updateItem getIdByData a d (Some n) s)
           | None \<Rightarrow>
               (let (n, s1) = createItem s;
                    s2 = setParent n s1;
                    s3 = s2\<lparr>itemMap := (itemMap s2)(a \<mapsto> AList.update (getIdByData d) n l)\<rparr>
                in (Some n, updateItem getIdByData a d (Some n) s3))))"

definition removeItem :: "int \<Rightarrow> int \<Rightarrow> 'd mapLayer \<Rightarrow> layer_error + bool \<times> 'd mapLayer" where
  "removeItem a i s =
     (case itemMap s a of
        None \<Rightarrow> Inl TypeError
      | Some l \<Rightarrow>
          (case map_of l i of
             Some n \<Rightarrow> (let s1 = poolPut n s
                        in Inr (True, s1\<lparr>itemMap := (itemMap s1)(a \<mapsto> AList.delete i l)\<rparr>))
           | None \<Rightarrow> Inr (False, s)))"

definition removeArea :: "int \<Rightarrow> 'd mapLayer \<Rightarrow> 'd mapLayer" where
  "removeArea a s =
     (case itemMap s a of
        None \<Rightarrow> s
      | Some l \<Rightarrow> (let s1 = fold (\<lambda>(k, n). poolPut n) l s in s1\<lparr>itemMap := (itemMap s1)(a := None)\<rparr>))"

definition addArea :: "int \<Rightarrow> 'd mapLayer \<Rightarrow> 'd mapLayer" where
  "addArea a s = (if a \<in> dom (itemMap s) then s else s\<lparr>itemMap := (itemMap s)(a \<mapsto> [])\<rparr>)"

definition udpateShowAreas :: "int list \<Rightarrow> int list \<Rightarrow> 'd mapLayer \<Rightarrow> 'd mapLayer" where
  "udpateShowAreas addIndexs removeIndexs s = fold addArea addIndexs (fold removeArea removeIndexs s)"

text \<open>The invariant of the layer: the item lists of the shown areas have distinct
  ids and distinct nodes, no node is shown in two areas, the pool holds distinct nodes
  none of which is shown, every node ever instantiated is either pooled or shown, and
  the parent layer's children are exactly the shown nodes. It reads four fields.\<close>

definition live_of :: "(int \<rightharpoonup> (int \<times> node) list) \<Rightarrow> node set" where
  "live_of m = {n. \<exists>a l. m a = Some l \<and> n \<in> snd ` set l}"

definition layer_inv ::
  "(int \<rightharpoonup> (int \<times> node) list) \<Rightarrow> node list \<Rightarrow> node \<Rightarrow> node list \<Rightarrow> bool" where
  "layer_inv m p k c \<longleftrightarrow>
     (\<forall>a l. m a = Some l \<longrightarrow> distinct (map fst l) \<and> distinct (map snd l))
     \<and> (\<forall>a b l l'. m a = Some l \<longrightarrow> m b = Some l' \<longrightarrow> a \<noteq> b \<longrightarrow>
          snd ` set l \<inter> snd ` set l' = {})
     \<and> distinct p \<and> set p \<inter> live_of m = {} \<and> set p \<union> live_of m = {..<k}
     \<and> distinct c \<and> set c = live_of m"

definition layer_ok :: "'d mapLayer \<Rightarrow> bool" where
  "layer_ok s \<longleftrightarrow> layer_inv (itemMap s) (itemPool s) (nextNode s) (layerChildren s)"

text \<open>The nodes shown in the areas' item lists.\<close>

definition liveNodes :: "'d mapLayer \<Rightarrow> node set" where
  "liveNodes s = live_of (itemMap s)"

text \<open>The areas the layer shows: the keys of \<open>_itemMap\<close>.\<close>

definition shownAreas :: "'d mapLayer \<Rightarrow> int set" where
  "shownAreas s = dom (itemMap s)"

text \<open>The public methods of the layer as operations, and the step that performs one;
  \<open>removeItem\<close>'s answer is dropped and its \<open>TypeError\<close> is the step's error.\<close>

datatype 'd layer_op =
    AddItem int 'd
  | UpdateItem int 'd
  | RemoveItem int int
  | AddArea int
  | RemoveArea int
  | UdpateShowAreas "int list" "int list"

fun layerStep :: "('d \<Rightarrow> int) \<Rightarrow> 'd layer_op \<Rightarrow> 'd mapLayer \<Rightarrow> layer_error + 'd mapLayer" where
  "layerStep g (AddItem a d) s = Inr (snd (addItem g a d s))"
| "layerStep g (UpdateItem a d) s = Inr (updateItem g a d None s)"
| "layerStep g (RemoveItem a i) s = (case removeItem a i s of Inl e \<Rightarrow> Inl e | Inr (_, t) \<Rightarrow> Inr t)"
| "layerStep g (AddArea a) s = Inr (addArea a s)"
| "layerStep g (RemoveArea a) s = Inr (removeArea a s)"
| "layerStep g (UdpateShowAreas adds rems) s = Inr (udpateShowAreas adds rems s)"

inductive layer_reach :: "('d \<Rightarrow> int) \<Rightarrow> 'd mapLayer \<Rightarrow> bool" for g where
  init: "layer_reach g initLayer"
| step: "layer_reach g s \<Longrightarrow> layerStep g op s = Inr t \<Longrightarrow> layer_reach g t"

section \<open>The item lists and the pool\<close>

lemma fold_poolPut:
  "distinct ns \<Longrightarrow> set ns \<inter> set (itemPool s) = {} \<Longrightarrow>
   fold poolPut ns s = s\<lparr>layerChildren := filter (\<lambda>n. n \<notin> set ns) (layerChildren s),
                        itemPool := rev ns @ itemPool s\<rparr>"
proof (induction ns arbitrary: s)
  case Nil
  then show ?case by simp
next
  case (Cons n ns)
  then have "poolPut n s = s\<lparr>layerChildren := removeAll n (layerChildren s), itemPool := n # itemPool s\<rparr>"
    by (simp add: poolPut_def)
  moreover have "filter (\<lambda>x. x \<notin> set ns) (removeAll n cs) = filter (\<lambda>x. x \<notin> set (n # ns)) cs"
    for cs :: "node list"
    by (induction cs) auto
  ultimately show ?case using Cons by simp
qed

lemma fold_pairs_poolPut: "fold (\<lambda>(k, n). poolPut n) l = fold poolPut (map snd l)"
  by (simp add: fold_map comp_def split_def)

lemma live_of_in: "m a = Some l \<Longrightarrow> snd ` set l \<subseteq> live_of m"
  by (auto simp: live_of_def)

lemma live_of_upd_None:
  assumes "layer_inv m p k c" "m a = Some l"
  shows "live_of (m(a := None)) = live_of m - snd ` set l"
proof -
  have disj: "snd ` set l' \<inter> snd ` set l = {}" if "m b = Some l'" "b \<noteq> a" for b l'
    using assms that unfolding layer_inv_def by blast
  show ?thesis
  proof (intro equalityI subsetI)
    fix n assume "n \<in> live_of (m(a := None))"
    then obtain b l' where "b \<noteq> a" "m b = Some l'" "n \<in> snd ` set l'"
      by (auto simp: live_of_def split: if_splits)
    with disj show "n \<in> live_of m - snd ` set l" by (auto simp: live_of_def)
  next
    fix n assume "n \<in> live_of m - snd ` set l"
    then obtain b l' where "m b = Some l'" "n \<in> snd ` set l'" "n \<notin> snd ` set l"
      by (auto simp: live_of_def)
    moreover from this assms(2) have "b \<noteq> a" by auto
    ultimately show "n \<in> live_of (m(a := None))"
      by (auto simp: live_of_def)
  qed
qed

lemma live_of_upd_split: "live_of (m(a \<mapsto> l')) = live_of (m(a := None)) \<union> snd ` set l'"
  by (auto simp: live_of_def split: if_splits)

lemma live_of_upd:
  assumes "layer_inv m p k c" "m a = Some l"
  shows "live_of (m(a \<mapsto> l')) = (live_of m - snd ` set l) \<union> snd ` set l'"
  by (simp add: live_of_upd_split live_of_upd_None [OF assms])

lemma live_of_new:
  "m a = None \<Longrightarrow> live_of (m(a \<mapsto> l')) = live_of m \<union> snd ` set l'"
  by (metis live_of_upd_split fun_upd_triv)

lemma update_absent: "map_of l k = None \<Longrightarrow> AList.update k v l = l @ [(k, v)]"
  by (induction l) (auto split: if_splits)

lemma delete_present:
  assumes "distinct (map fst l)" "distinct (map snd l)" "map_of l i = Some n"
  shows "snd ` set (AList.delete i l) = snd ` set l - {n}
    \<and> distinct (map fst (AList.delete i l)) \<and> distinct (map snd (AList.delete i l))"
  using assms
proof (induction l)
  case Nil
  then show ?case by simp
next
  case (Cons p l)
  then show ?case
    by (cases p) (auto simp: AList.delete_eq split: if_splits dest: map_of_SomeD, 
        (force simp: distinct_map_filter)+)
qed

section \<open>The invariant under the four field changes\<close>

lemma inv_remove_area:
  assumes inv: "layer_inv m p k c" and a: "m a = Some l"
  shows "layer_inv (m(a := None)) (rev (map snd l) @ p) k (filter (\<lambda>n. n \<notin> snd ` set l) c)"
proof -
  have live: "live_of (m(a := None)) = live_of m - snd ` set l" by (rule live_of_upd_None [OF inv a])
  have sub: "snd ` set l \<subseteq> live_of m" by (rule live_of_in [of m a l, OF a])
  from inv a have "distinct (map snd l)" by (simp add: layer_inv_def)
  with inv sub live show ?thesis
    unfolding layer_inv_def by (auto split: if_splits)
qed

lemma inv_add_area:
  assumes inv: "layer_inv m p k c" and a: "m a = None"
  shows "layer_inv (m(a \<mapsto> [])) p k c"
proof -
  have live: "live_of (m(a \<mapsto> [])) = live_of m" by (simp add: live_of_new [of m a, OF a])
  with inv a show ?thesis
    unfolding layer_inv_def by (auto split: if_splits)
qed

lemma inv_attach:
  assumes inv: "layer_inv m p k c" and a: "m a = Some l" and x: "map_of l x = None"
    and n: "n \<notin> live_of m" and p': "distinct p'" "set p' \<inter> insert n (live_of m) = {}"
    "set p' \<union> insert n (live_of m) = {..<k'}"
  shows "layer_inv (m(a \<mapsto> l @ [(x, n)])) p' k' (c @ [n])"
proof -
  have sub: "snd ` set l \<subseteq> live_of m" by (rule live_of_in [of m a l, OF a])
  have live: "live_of (m(a \<mapsto> l @ [(x, n)])) = insert n (live_of m)"
    using live_of_upd [OF inv a] sub by auto
  have xl: "x \<notin> fst ` set l" using x by (simp add: map_of_eq_None_iff)
  have nl: "n \<notin> snd ` set l" using n sub by blast
  have other: "n \<notin> snd ` set l'" if "m b = Some l'" for b l'
    using n live_of_in [of m b l', OF that] by blast
  show ?thesis
    using inv a live xl nl other p' n unfolding layer_inv_def
    by (auto split: if_splits)
qed

lemma inv_detach:
  assumes inv: "layer_inv m p k c" and a: "m a = Some l" and i: "map_of l i = Some n"
  shows "layer_inv (m(a \<mapsto> AList.delete i l)) (n # p) k (removeAll n c)"
proof -
  have dl: "distinct (map fst l)" "distinct (map snd l)" using inv a by (simp_all add: layer_inv_def)
  note del = delete_present [OF dl i]
  have nl: "n \<in> snd ` set l" using i by (force dest: map_of_SomeD)
  have live: "live_of (m(a \<mapsto> AList.delete i l)) = live_of m - {n}"
    using live_of_upd [OF inv a] del nl live_of_in [of m a l, OF a] by auto
  have sub: "snd ` set (AList.delete i l) \<subseteq> snd ` set l" using del by blast
  have nlive: "n \<in> live_of m" using nl live_of_in [of m a l, OF a] by blast
  have I: "\<forall>a l. m a = Some l \<longrightarrow> distinct (map fst l) \<and> distinct (map snd l)"
    "\<forall>a b l l'. m a = Some l \<longrightarrow> m b = Some l' \<longrightarrow> a \<noteq> b \<longrightarrow> snd ` set l \<inter> snd ` set l' = {}"
    "distinct p" "set p \<inter> live_of m = {}" "set p \<union> live_of m = {..<k}" "distinct c" "set c = live_of m"
    using inv by (simp_all add: layer_inv_def)
  have A: "\<forall>b l'. (m(a \<mapsto> AList.delete i l)) b = Some l' \<longrightarrow> distinct (map fst l') \<and> distinct (map snd l')"
    using I(1) del by auto
  have B: "\<forall>b b' l' l''. (m(a \<mapsto> AList.delete i l)) b = Some l' \<longrightarrow> (m(a \<mapsto> AList.delete i l)) b' = Some l''
      \<longrightarrow> b \<noteq> b' \<longrightarrow> snd ` set l' \<inter> snd ` set l'' = {}"
  proof (intro allI impI)
    fix b b' l' l'' assume h: "(m(a \<mapsto> AList.delete i l)) b = Some l'"
      "(m(a \<mapsto> AList.delete i l)) b' = Some l''" "b \<noteq> b'"
    consider "b = a" | "b' = a" | "b \<noteq> a" "b' \<noteq> a" by blast
    then show "snd ` set l' \<inter> snd ` set l'' = {}"
    proof cases
      case 1
      with h have "l' = AList.delete i l" "m b' = Some l''" "b' \<noteq> a" by auto
      moreover from this(2,3) have "snd ` set l \<inter> snd ` set l'' = {}"
        using I(2) a by blast
      ultimately show ?thesis using sub by blast
    next
      case 2
      with h have "l'' = AList.delete i l" "m b = Some l'" "b \<noteq> a" by auto
      moreover from this(2,3) have "snd ` set l' \<inter> snd ` set l = {}"
        using I(2) a by blast
      ultimately show ?thesis using sub by blast
    next
      case 3
      with h have "m b = Some l'" "m b' = Some l''" by auto
      with h(3) I(2) show ?thesis by blast
    qed
  qed
  have C: "distinct (n # p)" "set (n # p) \<inter> (live_of m - {n}) = {}"
    "set (n # p) \<union> (live_of m - {n}) = {..<k}"
    using I(3,4,5) nlive by auto
  have D: "distinct (removeAll n c)" "set (removeAll n c) = live_of m - {n}"
    using I(6,7) by (simp_all add: distinct_removeAll)
  show ?thesis
    unfolding layer_inv_def live using A B C D by blast
qed

section \<open>The operations keep the invariant\<close>

lemma updateItem_fields [simp]:
  "itemMap (updateItem g a d it s) = itemMap s"
  "itemPool (updateItem g a d it s) = itemPool s"
  "nextNode (updateItem g a d it s) = nextNode s"
  "layerChildren (updateItem g a d it s) = layerChildren s"
  by (auto simp: updateItem_def setItemData_def Let_def split: option.splits)

lemma layer_ok_removeArea: "layer_ok s \<Longrightarrow> layer_ok (removeArea a s)"
proof (cases "itemMap s a")
  case None
  then show "layer_ok s \<Longrightarrow> ?thesis" by (simp add: removeArea_def)
next
  case (Some l)
  assume ok: "layer_ok s"
  have "distinct (map snd l)" "set (map snd l) \<inter> set (itemPool s) = {}"
    using ok Some live_of_in [of "itemMap s" a l, OF Some]
    by (auto simp: layer_ok_def layer_inv_def)
  then have "removeArea a s = s\<lparr>itemMap := (itemMap s)(a := None),
      layerChildren := filter (\<lambda>n. n \<notin> set (map snd l)) (layerChildren s),
      itemPool := rev (map snd l) @ itemPool s\<rparr>"
    using Some by (simp add: removeArea_def fold_pairs_poolPut fold_poolPut)
  then show ?thesis
    using inv_remove_area [of "itemMap s" "itemPool s" "nextNode s" "layerChildren s" a l] ok Some
    by (simp add: layer_ok_def)
qed

lemma layer_ok_addArea: "layer_ok s \<Longrightarrow> layer_ok (addArea a s)"
  using inv_add_area [of "itemMap s" "itemPool s" "nextNode s" "layerChildren s" a]
  by (auto simp: addArea_def layer_ok_def)

lemma layer_ok_udpateShowAreas:
  "layer_ok s \<Longrightarrow> layer_ok (udpateShowAreas adds rems s)"
proof -
  have r: "layer_ok t \<Longrightarrow> layer_ok (fold removeArea rs t)" for rs and t :: "'d mapLayer"
    by (induction rs arbitrary: t) (simp_all add: layer_ok_removeArea)
  have a: "layer_ok t \<Longrightarrow> layer_ok (fold addArea as t)" for as and t :: "'d mapLayer"
    by (induction as arbitrary: t) (simp_all add: layer_ok_addArea)
  show "layer_ok s \<Longrightarrow> ?thesis" unfolding udpateShowAreas_def by (intro a r)
qed

lemma addItem_new:
  assumes ok: "layer_ok s" and a: "itemMap s a = Some l" and x: "map_of l (g d) = None"
    and r: "addItem g a d s = (r, t)"
  shows "\<exists>n. r = Some n \<and> n \<notin> liveNodes s
    \<and> itemMap t = (itemMap s)(a \<mapsto> l @ [(g d, n)])
    \<and> layerChildren t = layerChildren s @ [n] \<and> itemData t = (itemData s)(n \<mapsto> d)
    \<and> (case itemPool s of
         [] \<Rightarrow> n = nextNode s \<and> itemPool t = [] \<and> nextNode t = Suc (nextNode s)
       | m # p \<Rightarrow> n = m \<and> itemPool t = p \<and> nextNode t = nextNode s)"
proof (cases "itemPool s")
  case Nil
  have n: "nextNode s \<notin> liveNodes s" using ok by (auto simp: layer_ok_def layer_inv_def liveNodes_def)
  then have "nextNode s \<notin> set (layerChildren s)" using ok by (simp add: layer_ok_def layer_inv_def liveNodes_def)
  with Nil a x r n show ?thesis
    by (auto simp: addItem_def createItem_def setParent_def updateItem_def setItemData_def
        update_absent)
next
  case (Cons m p)
  have n: "m \<notin> liveNodes s" using ok Cons by (auto simp: layer_ok_def layer_inv_def liveNodes_def)
  then have "m \<notin> set (layerChildren s)" using ok by (simp add: layer_ok_def layer_inv_def liveNodes_def)
  with Cons a x r n show ?thesis
    by (auto simp: addItem_def createItem_def setParent_def updateItem_def setItemData_def
        update_absent)
qed

lemma layer_ok_addItem:
  assumes ok: "layer_ok s" shows "layer_ok (snd (addItem g a d s))"
proof (cases "itemMap s a")
  case None
  with ok show ?thesis by (simp add: addItem_def)
next
  case (Some l)
  show ?thesis
  proof (cases "map_of l (g d)")
    case (Some n)
    with ok \<open>itemMap s a = Some l\<close> show ?thesis by (simp add: addItem_def layer_ok_def)
  next
    case None
    obtain r t where rt: "addItem g a d s = (r, t)" by fastforce
    from addItem_new [OF ok \<open>itemMap s a = Some l\<close> None rt] obtain n where
      n: "n \<notin> liveNodes s" "itemMap t = (itemMap s)(a \<mapsto> l @ [(g d, n)])"
      "layerChildren t = layerChildren s @ [n]"
      "case itemPool s of [] \<Rightarrow> n = nextNode s \<and> itemPool t = [] \<and> nextNode t = Suc (nextNode s)
       | m # p \<Rightarrow> n = m \<and> itemPool t = p \<and> nextNode t = nextNode s"
      by blast
    have I: "distinct (itemPool s)" "set (itemPool s) \<inter> live_of (itemMap s) = {}"
      "set (itemPool s) \<union> live_of (itemMap s) = {..<nextNode s}"
      using ok by (simp_all add: layer_ok_def layer_inv_def)
    have "distinct (itemPool t) \<and> set (itemPool t) \<inter> insert n (live_of (itemMap s)) = {}
      \<and> set (itemPool t) \<union> insert n (live_of (itemMap s)) = {..<nextNode t}"
      using n(4) I by (cases "itemPool s") (auto simp: lessThan_Suc)
    then have "layer_inv (itemMap t) (itemPool t) (nextNode t) (layerChildren t)"
      using inv_attach [of "itemMap s" "itemPool s" "nextNode s" "layerChildren s" a l "g d" n]
        ok \<open>itemMap s a = Some l\<close> None n(1,2,3) by (simp add: layer_ok_def liveNodes_def)
    then show ?thesis by (simp add: rt layer_ok_def)
  qed
qed

lemma layer_ok_removeItem:
  assumes ok: "layer_ok s" and r: "removeItem a i s = Inr (b, t)"
  shows "layer_ok t"
proof -
  obtain l where l: "itemMap s a = Some l" using r by (auto simp: removeItem_def split: option.splits)
  show ?thesis
  proof (cases "map_of l i")
    case None
    with l r ok show ?thesis by (simp add: removeItem_def)
  next
    case (Some n)
    have "n \<in> live_of (itemMap s)" using l Some live_of_in [of "itemMap s" a l, OF l]
      by (force dest: map_of_SomeD)
    then have "n \<notin> set (itemPool s)" using ok by (auto simp: layer_ok_def layer_inv_def)
    then have "t = s\<lparr>itemPool := n # itemPool s, layerChildren := removeAll n (layerChildren s),
        itemMap := (itemMap s)(a \<mapsto> AList.delete i l)\<rparr>"
      using l Some r by (auto simp: removeItem_def poolPut_def)
    then show ?thesis
      using inv_detach [of "itemMap s" "itemPool s" "nextNode s" "layerChildren s" a l i n] ok l Some
      by (simp add: layer_ok_def)
  qed
qed

text \<open>What \<open>addItem\<close> and \<open>removeItem\<close> do to the id map of a shown area: the item's
  id is bound to the answered node, resp. unbound; the other areas are untouched.\<close>

lemma addItem_map_of:
  assumes "itemMap s a = Some l" "addItem g a d s = (r, t)"
  shows "\<exists>n l'. r = Some n \<and> itemMap t = (itemMap s)(a \<mapsto> l')
    \<and> map_of l' = (map_of l)(g d \<mapsto> n) \<and> itemData t n = Some d"
proof (cases "map_of l (g d)")
  case (Some n)
  then have "map_of l = (map_of l)(g d \<mapsto> n)" by auto
  moreover have "itemMap s = (itemMap s)(a \<mapsto> l)" using assms(1) by auto
  moreover have "r = Some n \<and> t = setItemData n d s" using Some assms
    by (auto simp: addItem_def updateItem_def)
  ultimately show ?thesis by (auto simp: setItemData_def)
next
  case None
  obtain n s1 where c: "createItem s = (n, s1)" by fastforce
  have "itemMap s1 = itemMap s" using c by (auto simp: createItem_def split: list.splits)
  then have "r = Some n \<and> itemMap t = (itemMap s)(a \<mapsto> AList.update (g d) n l) \<and> itemData t n = Some d"
    using None assms c by (auto simp: addItem_def updateItem_def setItemData_def setParent_def Let_def)
  then show ?thesis by (auto simp: AList.update_conv')
qed

lemma removeItem_map_of:
  assumes "itemMap s a = Some l"
  shows "\<exists>b t l'. removeItem a i s = Inr (b, t) \<and> itemMap t = (itemMap s)(a \<mapsto> l')
    \<and> map_of l' = (map_of l)(i := None)"
proof (cases "map_of l i")
  case None
  then have "map_of l = (map_of l)(i := None)" by auto
  with None assms show ?thesis by (auto simp: removeItem_def intro!: exI [of _ l])
next
  case (Some n)
  with assms show ?thesis
    by (auto simp: removeItem_def poolPut_def AList.delete_conv' Let_def)
qed

lemma layer_ok_init: "layer_ok initLayer"
  by (simp add: layer_ok_def layer_inv_def initLayer_def live_of_def)

lemma layer_ok_updateItem: "layer_ok (updateItem g a d it s) = layer_ok s"
  by (simp add: layer_ok_def)

lemma layer_ok_step: "layer_ok s \<Longrightarrow> layerStep g op s = Inr t \<Longrightarrow> layer_ok t"
  by (cases op) (auto simp: layer_ok_addItem layer_ok_removeArea layer_ok_addArea
      layer_ok_udpateShowAreas layer_ok_updateItem
      split: sum.splits prod.splits intro: layer_ok_removeItem)

section \<open>Properties of the layer\<close>

text \<open>C23: in every state the layer reaches from its initial state by its public
  methods, the item lists are consistent and the node bookkeeping is exact: no node is
  shown twice, the pool and the shown nodes are disjoint and together are every node
  ever instantiated (none is lost), and the parent layer's children are the shown nodes.\<close>

theorem layer_reach_ok: "layer_reach g s \<Longrightarrow> layer_ok s"
  by (induction rule: layer_reach.induct) (auto intro: layer_ok_init layer_ok_step)

theorem layer_reach_ok_witness:
  "layer_ok (snd (addItem fst 0 ((7::int), ''city'') (addArea 0 initLayer)))"
proof -
  have "layer_reach fst (addArea 0 (initLayer :: (int \<times> string) mapLayer))"
    by (rule layer_reach.step [OF layer_reach.init, where op = "AddArea 0"]) simp
  then have "layer_reach fst (snd (addItem fst 0 ((7::int), ''city'') (addArea 0 initLayer)))"
    by (rule layer_reach.step [where op = "AddItem 0 (7, ''city'')"]) simp
  then show ?thesis by (rule layer_reach_ok)
qed

lemma itemMap_fold_poolPut: "itemMap (fold poolPut ns s) = itemMap s"
  by (induction ns arbitrary: s) (simp_all add: poolPut_def)

lemma shownAreas_removeArea: "shownAreas (removeArea a s) = shownAreas s - {a}"
  by (auto simp: shownAreas_def removeArea_def fold_pairs_poolPut itemMap_fold_poolPut
      split: option.splits)

lemma shownAreas_addArea: "shownAreas (addArea a s) = insert a (shownAreas s)"
  by (auto simp: shownAreas_def addArea_def)

lemma shownAreas_fold_removeArea: "shownAreas (fold removeArea rs t) = shownAreas t - set rs"
  by (induction rs arbitrary: t) (auto simp: shownAreas_removeArea)

lemma shownAreas_fold_addArea: "shownAreas (fold addArea as t) = shownAreas t \<union> set as"
  by (induction as arbitrary: t) (auto simp: shownAreas_addArea)

text \<open>C24: \<open>udpateShowAreas\<close> implements the set operation the streaming cache asks
  of the render layer: the shown areas become the old ones without the removed ids, with
  the added ids; removal happens first, so an id in both lists ends up shown.\<close>

theorem shownAreas_udpateShowAreas:
  "shownAreas (udpateShowAreas adds rems s) = (shownAreas s - set rems) \<union> set adds"
  by (simp add: udpateShowAreas_def shownAreas_fold_removeArea shownAreas_fold_addArea)

text \<open>Adding an item to a shown area answers a node, and looking the item's id
  up in that area then finds that node, which holds the item's data.\<close>

theorem addItem_getItem:
  assumes "a \<in> shownAreas s" "addItem g a d s = (r, t)"
  shows "\<exists>n. r = Some n \<and> getItem a (g d) t = Inr (Some n) \<and> itemData t n = Some d"
proof -
  obtain l where l: "itemMap s a = Some l" using assms(1) by (auto simp: shownAreas_def)
  show ?thesis
  proof (cases "map_of l (g d)")
    case (Some n)
    with l assms(2) show ?thesis
      by (auto simp: addItem_def getItem_def updateItem_def setItemData_def)
  next
    case None
    with l assms(2) show ?thesis
      by (auto simp: addItem_def getItem_def updateItem_def setItemData_def createItem_def
          setParent_def update_absent Let_def map_add_def split: list.splits if_splits)
  qed
qed

theorem addItem_getItem_witness:
  "\<exists>n. fst (addItem fst 0 ((7::int), ''city'') (addArea 0 initLayer)) = Some n
     \<and> getItem 0 7 (snd (addItem fst 0 ((7::int), ''city'') (addArea 0 initLayer))) = Inr (Some n)
     \<and> itemData (snd (addItem fst 0 ((7::int), ''city'') (addArea 0 initLayer))) n = Some (7, ''city'')"
  using addItem_getItem [of 0 "addArea 0 initLayer" fst "(7::int, ''city'')"]
  by (simp add: shownAreas_addArea)

text \<open>C25: the layer's methods on an area it does not show: \<open>getItem\<close> and
  \<open>removeItem\<close> read \<open>has\<close> of \<open>undefined\<close> and throw a \<open>TypeError\<close>, while
  \<open>addItem\<close> answers \<open>null\<close> and \<open>updateItem\<close> does nothing.\<close>

theorem layer_absent_area:
  assumes "a \<notin> shownAreas s"
  shows "getItem a i s = Inl TypeError \<and> removeItem a i s = Inl TypeError
    \<and> addItem g a d s = (None, s) \<and> updateItem g a d it s = s"
  using assms by (simp add: shownAreas_def domIff getItem_def removeItem_def addItem_def
      updateItem_def)

theorem layer_absent_area_witness:
  "getItem 3 7 (initLayer :: (int \<times> string) mapLayer) = Inl TypeError
   \<and> removeItem 3 7 (initLayer :: (int \<times> string) mapLayer) = Inl TypeError
   \<and> addItem fst 3 (7, ''city'') initLayer = (None, initLayer)
   \<and> updateItem fst 3 (7, ''city'') None initLayer = initLayer"
  using layer_absent_area [of 3 "initLayer :: (int \<times> string) mapLayer" 7 fst "(7, ''city'')" None]
  by (simp add: shownAreas_def initLayer_def)

lemma removeItem_pool:
  assumes "layer_ok s" "getItem a i s = Inr (Some n)" "removeItem a i s = Inr (b, t)"
  shows "b \<and> itemPool t = n # itemPool s"
proof -
  obtain l where l: "itemMap s a = Some l" "map_of l i = Some n"
    using assms(2) by (auto simp: getItem_def split: option.splits)
  have "n \<in> live_of (itemMap s)" using l live_of_in [of "itemMap s" a l, OF l(1)]
    by (force dest: map_of_SomeD)
  then have "n \<notin> set (itemPool s)" using assms(1) by (auto simp: layer_ok_def layer_inv_def)
  with l assms(3) show ?thesis by (auto simp: removeItem_def poolPut_def)
qed

text \<open>The pool is last in, first out: after an item is removed, the next item
  created in any shown area reuses the removed item's node instead of instantiating the
  prefab.\<close>

theorem removeItem_addItem_reuse:
  assumes "layer_ok s" "getItem a i s = Inr (Some n)" "removeItem a i s = Inr (b, t)"
    and "itemMap t a' = Some l" "map_of l (g d) = None"
  shows "fst (addItem g a' d t) = Some n"
proof -
  have p: "itemPool t = n # itemPool s" using removeItem_pool [OF assms(1-3)] by blast
  have ok: "layer_ok t" by (rule layer_ok_removeItem [OF assms(1,3)])
  obtain r t' where rt: "addItem g a' d t = (r, t')" by fastforce
  from addItem_new [OF ok assms(4,5) rt] p show ?thesis by (auto simp: rt)
qed

theorem removeItem_addItem_reuse_witness:
  "let s = snd (addItem fst 0 ((7::int), ''city'') (addArea 0 initLayer));
       t = snd (projr (removeItem 0 7 s))
   in fst (addItem fst 0 ((8::int), ''fort'') t) = Some 0"
proof -
  define s where "s = snd (addItem fst 0 ((7::int), ''city'') (addArea 0 initLayer))"
  have ok: "layer_ok s"
    unfolding s_def by (intro layer_ok_addItem layer_ok_addArea layer_ok_init)
  have g: "getItem 0 7 s = Inr (Some 0)"
    by (simp add: s_def addItem_def addArea_def initLayer_def createItem_def setParent_def
        updateItem_def setItemData_def getItem_def)
  have r: "removeItem 0 7 s = Inr (True, snd (projr (removeItem 0 7 s)))"
    by (simp add: s_def addItem_def addArea_def initLayer_def createItem_def setParent_def
        updateItem_def setItemData_def removeItem_def poolPut_def)
  have m: "itemMap (snd (projr (removeItem 0 7 s))) 0 = Some []"
    by (simp add: s_def addItem_def addArea_def initLayer_def createItem_def setParent_def
        updateItem_def setItemData_def removeItem_def poolPut_def)
  have "fst (addItem fst 0 ((8::int), ''fort'') (snd (projr (removeItem 0 7 s)))) = Some 0"
    by (rule removeItem_addItem_reuse [OF ok g r m]) simp
  then show ?thesis by (simp add: s_def Let_def)
qed

end
