(* ===== verification/MapResources.thy ===== *)
theory MapResources
  imports MapProxy "HOL-Library.AList"
begin

text \<open>
  The resource and position-tag half of \<open>MapProxy\<close>
  (\<^verbatim>\<open>src/assets/scripts/map/MapProxy.ts\<close>, lines 208-294 and 445-581): the building
  configurations received from the server, keyed by the string \<open>type + "_" + level\<close>;
  the resource points of the whole map, numbered row by row, with the system cities kept
  apart; the player's position tags; and the war-free time. JSON entries are maps from
  property names to \<open>jval\<close>; the arrays \<open>[type, level]\<close> of \<open>jsonData.list\<close> are
  pairs, and \<open>jsonData.w\<close> is the map width \<open>w\<close>, a positive number in every message
  (the model of \<open>i % w\<close> and \<open>Math.floor(i / w)\<close> is the one of \<open>Prelude\<close>, which is
  JavaScript's for \<open>w \<noteq> 0\<close>). The yield descriptions are built from Chinese literals;
  the model keeps the resource each line names and the value converted into it.
\<close>

type_synonym json = "string \<rightharpoonup> jval"

definition SYS_CITY :: int where
  "SYS_CITY = 51"

section \<open>Building configurations\<close>

definition newResConfig :: "json \<Rightarrow> mapResConfig" where
  "newResConfig j = \<lparr> cfg_type = j ''type'', cfg_level = j ''level'', cfg_name = j ''name'',
     wood = j ''Wood'', iron = j ''iron'', stone = j ''stone'', grain = j ''grain'',
     durable = j ''durable'', defender = j ''defender'' \<rparr>"

definition resConfigKey :: "json \<Rightarrow> string" where
  "resConfigKey j = js_to_string (j ''type'') @ ''_'' @ js_to_string (cfg_level (newResConfig j))"

definition setNationMapConfig :: "json list \<Rightarrow> mapProxy \<Rightarrow> mapProxy" where
  "setNationMapConfig configList s =
     s\<lparr>mapResConfigs := fold (\<lambda>j m. AList.update (resConfigKey j) (newResConfig j) m) configList []\<rparr>"

definition getResConfig :: "int \<Rightarrow> int \<Rightarrow> mapProxy \<Rightarrow> mapResConfig option" where
  "getResConfig type level s = map_of (mapResConfigs s) (int_to_string type @ ''_'' @ int_to_string level)"

definition hasResConfig :: "mapProxy \<Rightarrow> bool" where
  "hasResConfig s \<longleftrightarrow> 0 < length (mapResConfigs s)"

datatype yield_line = GrainYield string | WoodYield string | IronYield string | StoneYield string

definition getResYieldDesList :: "mapResConfig \<Rightarrow> yield_line list" where
  "getResYieldDesList cfg =
     (if js_pos (grain cfg) then [GrainYield (js_to_string (grain cfg))] else [])
     @ (if js_pos (wood cfg) then [WoodYield (js_to_string (wood cfg))] else [])
     @ (if js_pos (iron cfg) then [IronYield (js_to_string (iron cfg))] else [])
     @ (if js_pos (stone cfg) then [StoneYield (js_to_string (stone cfg))] else [])"

section \<open>War-free time\<close>

definition setWarFree :: "int \<Rightarrow> mapProxy \<Rightarrow> mapProxy" where
  "setWarFree time s = s\<lparr>warFree := time\<rparr>"

definition getWarFree :: "mapProxy \<Rightarrow> int" where
  "getWarFree s = warFree s * 1000"

section \<open>Resource points\<close>

definition newResData :: "int \<Rightarrow> int \<Rightarrow> int \<times> int \<Rightarrow> mapResData" where
  "newResData w i e =
     \<lparr> res_id = i, res_type = fst e, res_level = snd e,
       res_x = js_rem i w, res_y = \<lfloor>real_of_int i / real_of_int w\<rfloor> \<rparr>"

fun resDatasFrom :: "int \<Rightarrow> int \<Rightarrow> (int \<times> int) list \<Rightarrow> mapResData list" where
  "resDatasFrom w i [] = []"
| "resDatasFrom w i (e # es) = newResData w i e # resDatasFrom w (i + 1) es"

definition initMapResConfig :: "int \<Rightarrow> (int \<times> int) list \<Rightarrow> mapProxy \<Rightarrow> mapProxy" where
  "initMapResConfig w list s =
     (let datas = resDatasFrom w 0 list
      in s\<lparr>mapResDatas := datas,
           mapSysCityResDatas := filter (\<lambda>d. res_type d = SYS_CITY) datas\<rparr>)"

definition getResData :: "int \<Rightarrow> mapProxy \<Rightarrow> mapResData option" where
  "getResData i s =
     (if 0 \<le> i \<and> i < int (length (mapResDatas s)) then Some (mapResDatas s ! nat i) else None)"

definition hasResDatas :: "mapProxy \<Rightarrow> bool" where
  "hasResDatas s \<longleftrightarrow> 0 < length (mapResDatas s)"

text \<open>The loop of \<open>getSysCityResData\<close>, returning at the first city whose influence
  square holds the point; \<open>None\<close> is the final \<open>null\<close>.\<close>

fun sysCityLoop :: "int \<Rightarrow> int \<Rightarrow> mapResData list \<Rightarrow> mapResData option" where
  "sysCityLoop x y [] = None"
| "sysCityLoop x y (r # rs) =
     (let dis = sysCityDis (res_level r)
      in if dis \<ge> \<bar>x - res_x r\<bar> \<and> dis \<ge> \<bar>y - res_y r\<bar> then Some r else sysCityLoop x y rs)"

definition getSysCityResData :: "int \<Rightarrow> int \<Rightarrow> mapProxy \<Rightarrow> mapResData option" where
  "getSysCityResData x y s = sysCityLoop x y (mapSysCityResDatas s)"

section \<open>Position tags\<close>

definition updateMapPosTags :: "(int \<times> int \<times> string) list \<Rightarrow> mapProxy \<Rightarrow> mapProxy" where
  "updateMapPosTags posTag s =
     s\<lparr>mapPosTags := map (\<lambda>(x, y, n). \<lparr> tag_x = x, tag_y = y, tag_name = n \<rparr>) posTag\<rparr>"

definition removeMapPosTag :: "int \<Rightarrow> int \<Rightarrow> mapProxy \<Rightarrow> mapProxy" where
  "removeMapPosTag x y s = s\<lparr>mapPosTags := filter (\<lambda>t. tag_x t \<noteq> x \<or> y \<noteq> tag_y t) (mapPosTags s)\<rparr>"

definition addMapPosTag :: "int \<Rightarrow> int \<Rightarrow> string \<Rightarrow> mapProxy \<Rightarrow> mapProxy" where
  "addMapPosTag x y name s =
     (let tag = \<lparr> tag_x = x, tag_y = y, tag_name = name \<rparr>;
          ok = fold (\<lambda>t ok. if tag_x t = x \<and> tag_y t = y then False else ok) (mapPosTags s) True
      in if ok then s\<lparr>mapPosTags := mapPosTags s @ [tag]\<rparr> else s)"

fun isPosTagLoop :: "int \<Rightarrow> int \<Rightarrow> mapTagPos list \<Rightarrow> bool" where
  "isPosTagLoop x y [] = False"
| "isPosTagLoop x y (t # ts) = (if tag_x t = x \<and> tag_y t = y then True else isPosTagLoop x y ts)"

definition isPosTag :: "int \<Rightarrow> int \<Rightarrow> mapProxy \<Rightarrow> bool" where
  "isPosTag x y s = isPosTagLoop x y (mapPosTags s)"

definition getPosTags :: "mapProxy \<Rightarrow> mapTagPos list" where
  "getPosTags s = mapPosTags s"

text \<open>No two tags at one position.\<close>

definition tags_ok :: "mapProxy \<Rightarrow> bool" where
  "tags_ok s \<longleftrightarrow> distinct (map (\<lambda>t. (tag_x t, tag_y t)) (mapPosTags s))"

text \<open>Three server entries: two for type 52 (wood) level 1, whose production the
  server sends as \<open>wood\<close>, and one for type 5 level 21.\<close>

definition demo_configs :: "json list" where
  "demo_configs =
     [[''type'' \<mapsto> JNum 52, ''level'' \<mapsto> JNum 1, ''wood'' \<mapsto> JNum 100],
      [''type'' \<mapsto> JNum 5, ''level'' \<mapsto> JNum 21, ''grain'' \<mapsto> JNum 30],
      [''type'' \<mapsto> JNum 52, ''level'' \<mapsto> JNum 1, ''wood'' \<mapsto> JNum 200]]"

text \<open>Six resource points on a map 4 cells wide; points 1 and 4 are system cities of
  levels 5 and 9.\<close>

definition demo_res :: "(int \<times> int) list" where
  "demo_res = [(52, 1), (51, 5), (53, 2), (55, 1), (51, 9), (54, 3)]"

section \<open>Configurations: keys and lookup\<close>

lemma map_of_fold_update:
  "map_of (fold (\<lambda>j m. AList.update (k j) (v j) m) cl m0) key =
     (case filter (\<lambda>j. k j = key) (rev cl) of [] \<Rightarrow> map_of m0 key | j # _ \<Rightarrow> Some (v j))"
  by (induction cl arbitrary: m0) (auto simp: update_conv' split: list.splits)

lemma resConfigKey_num:
  "j ''type'' = Some (JNum a) \<Longrightarrow> j ''level'' = Some (JNum b) \<Longrightarrow>
   resConfigKey j = int_to_string a @ ''_'' @ int_to_string b"
  by (simp add: resConfigKey_def newResConfig_def js_to_string_def)

lemma int_key_eq:
  "int_to_string a @ CHR ''_'' # int_to_string b = int_to_string t @ CHR ''_'' # int_to_string l
   \<longleftrightarrow> a = t \<and> b = l"
  by (simp add: append_sep_inj underscore_not_in_int_to_string int_to_string_inj)

text \<open>C31: after \<open>setNationMapConfig\<close> with entries whose \<open>type\<close> and \<open>level\<close> are
  numbers, \<open>getResConfig type level\<close> finds the configuration built from the last entry
  with that type and level, and nothing when there is none: the string key
  \<open>type + "_" + level\<close> tells different pairs of integers apart.\<close>

theorem getResConfig_setNationMapConfig:
  assumes "\<forall>j \<in> set cl. \<exists>a b. j ''type'' = Some (JNum a) \<and> j ''level'' = Some (JNum b)"
  shows "getResConfig t l (setNationMapConfig cl s) =
    (case filter (\<lambda>j. j ''type'' = Some (JNum t) \<and> j ''level'' = Some (JNum l)) (rev cl) of
       [] \<Rightarrow> None | j # _ \<Rightarrow> Some (newResConfig j))"
proof -
  have "filter (\<lambda>j. resConfigKey j = int_to_string t @ ''_'' @ int_to_string l) (rev cl)
      = filter (\<lambda>j. j ''type'' = Some (JNum t) \<and> j ''level'' = Some (JNum l)) (rev cl)"
  proof (rule filter_cong [OF refl])
    fix j assume "j \<in> set (rev cl)"
    with assms obtain a b where "j ''type'' = Some (JNum a)" "j ''level'' = Some (JNum b)" by auto
    then show "(resConfigKey j = int_to_string t @ ''_'' @ int_to_string l) =
        (j ''type'' = Some (JNum t) \<and> j ''level'' = Some (JNum l))"
      by (simp add: resConfigKey_num int_key_eq)
  qed
  then show ?thesis
    by (simp add: getResConfig_def setNationMapConfig_def map_of_fold_update split: list.split)
qed

theorem getResConfig_setNationMapConfig_witness:
  "getResConfig 52 1 (setNationMapConfig demo_configs initProxy) = Some (newResConfig (demo_configs ! 2))
   \<and> getResConfig 5 21 (setNationMapConfig demo_configs initProxy) = Some (newResConfig (demo_configs ! 1))
   \<and> getResConfig 52 2 (setNationMapConfig demo_configs initProxy) = None"
  using getResConfig_setNationMapConfig [of demo_configs 52 1 initProxy]
    getResConfig_setNationMapConfig [of demo_configs 5 21 initProxy]
    getResConfig_setNationMapConfig [of demo_configs 52 2 initProxy]
  by (simp add: demo_configs_def)

text \<open>C32: \<open>setNationMapConfig\<close> reads the wood production from the property
  \<open>Wood\<close>, while every other field uses the lower-case name. For an entry without a
  \<open>Wood\<close> property the configuration's wood is \<open>undefined\<close>, and
  \<open>getResYieldDesList\<close> never lists a wood line for it.\<close>

theorem wood_read_from_Wood:
  assumes "j ''Wood'' = None"
  shows "wood (newResConfig j) = None
    \<and> (\<forall>y \<in> set (getResYieldDesList (newResConfig j)). \<forall>v. y \<noteq> WoodYield v)"
  using assms by (auto simp: newResConfig_def getResYieldDesList_def js_pos_def)

theorem wood_read_from_Wood_witness:
  "wood (newResConfig (demo_configs ! 2)) = None
   \<and> getResYieldDesList (newResConfig (demo_configs ! 2)) = []
   \<and> (demo_configs ! 2) ''wood'' = Some (JNum 200)"
proof -
  have "(demo_configs ! 2) ''Wood'' = None" by (simp add: demo_configs_def)
  from wood_read_from_Wood [of "demo_configs ! 2", OF this] show ?thesis
    by (simp add: demo_configs_def newResConfig_def getResYieldDesList_def js_pos_def)
qed

section \<open>Resource points\<close>

lemma resDatasFrom_length [simp]: "length (resDatasFrom w i es) = length es"
  by (induction es arbitrary: i) simp_all

lemma resDatasFrom_nth:
  "k < length es \<Longrightarrow> resDatasFrom w i es ! k = newResData w (i + int k) (es ! k)"
proof (induction es arbitrary: i k)
  case Nil
  then show ?case by simp
next
  case (Cons e es)
  then show ?case by (cases k) (simp_all add: algebra_simps)
qed

text \<open>C33: after \<open>initMapResConfig w list\<close> with \<open>w > 0\<close>, \<open>getResData i\<close> answers a
  point exactly for the indices of \<open>list\<close>; that point has id \<open>i\<close>, the type and level
  of entry \<open>i\<close>, and the coordinates that \<open>MapUtil\<close> numbers \<open>i\<close> on a map \<open>w\<close> wide.\<close>

theorem initMapResConfig_getResData:
  assumes "0 < fst (mapSize u)" "w = fst (mapSize u)"
  shows "(getResData i (initMapResConfig w list s) \<noteq> None \<longleftrightarrow> 0 \<le> i \<and> i < int (length list))
    \<and> (\<forall>r. getResData i (initMapResConfig w list s) = Some r \<longrightarrow>
         res_id r = i \<and> (res_type r, res_level r) = list ! nat i
         \<and> 0 \<le> res_x r \<and> res_x r < w \<and> getIdByCellPoint u (res_x r) (res_y r) = i)"
proof -
  have "res_id r = i \<and> (res_type r, res_level r) = list ! nat i
         \<and> 0 \<le> res_x r \<and> res_x r < w \<and> getIdByCellPoint u (res_x r) (res_y r) = i"
    if "getResData i (initMapResConfig w list s) = Some r" for r
  proof -
    from that have i: "0 \<le> i" "i < int (length list)"
      and r: "r = newResData w i (list ! nat i)"
      by (auto simp: getResData_def initMapResConfig_def resDatasFrom_nth Let_def split: if_splits)
    have "res_x r = i mod w" "res_y r = i div w"
      using assms i r by (simp_all add: newResData_def js_rem_nonneg floor_real_div)
    with assms i r show ?thesis
      by (simp add: newResData_def getIdByCellPoint_def)
  qed
  then show ?thesis by (auto simp: getResData_def initMapResConfig_def Let_def)
qed

theorem initMapResConfig_getResData_witness:
  "getResData 4 (initMapResConfig 20 demo_res initProxy) =
     Some \<lparr> res_id = 4, res_type = 51, res_level = 9, res_x = 4, res_y = 0 \<rparr>
   \<and> getResData 6 (initMapResConfig 20 demo_res initProxy) = None
   \<and> getIdByCellPoint demo_util 4 0 = 4"
proof -
  have u: "0 < fst (mapSize demo_util)" "20 = fst (mapSize demo_util)" by (simp_all add: demo_util_eq)
  note c4 = initMapResConfig_getResData [OF u, of 4 demo_res initProxy]
    and c6 = initMapResConfig_getResData [OF u, of 6 demo_res initProxy]
  have "getResData 4 (initMapResConfig 20 demo_res initProxy) =
     Some \<lparr> res_id = 4, res_type = 51, res_level = 9, res_x = 4, res_y = 0 \<rparr>"
    by (simp add: getResData_def initMapResConfig_def demo_res_def newResData_def js_rem_def)
  with c4 c6 show ?thesis by (simp add: demo_res_def)
qed

section \<open>System cities\<close>

text \<open>C34: \<open>getSysCityResData\<close> is a search: it answers the first system city, in
  the order of the server's list, whose influence square of half-side \<open>sysCityDis\<close> of
  its level (the distance \<open>getSideIdsForSysCity\<close> also uses) holds the point.\<close>

theorem getSysCityResData_find:
  "getSysCityResData x y s =
     find (\<lambda>r. max \<bar>x - res_x r\<bar> \<bar>y - res_y r\<bar> \<le> sysCityDis (res_level r)) (mapSysCityResDatas s)"
proof -
  have "sysCityLoop x y rs = find (\<lambda>r. max \<bar>x - res_x r\<bar> \<bar>y - res_y r\<bar> \<le> sysCityDis (res_level r)) rs"
    for rs by (induction rs) (auto simp: Let_def)
  then show ?thesis by (simp add: getSysCityResData_def)
qed

section \<open>Position tags\<close>

lemma isPosTagLoop_ex: "isPosTagLoop x y ts \<longleftrightarrow> (\<exists>t \<in> set ts. tag_x t = x \<and> tag_y t = y)"
  by (induction ts) auto

lemma fold_tag_ok:
  "fold (\<lambda>t ok. if tag_x t = x \<and> tag_y t = y then False else ok) ts ok0 \<longleftrightarrow>
     ok0 \<and> \<not> (\<exists>t \<in> set ts. tag_x t = x \<and> tag_y t = y)"
  by (induction ts arbitrary: ok0) auto

lemma addMapPosTag_eq:
  "addMapPosTag x y n s =
     (if \<exists>t \<in> set (mapPosTags s). tag_x t = x \<and> tag_y t = y then s
      else s\<lparr>mapPosTags := mapPosTags s @ [\<lparr> tag_x = x, tag_y = y, tag_name = n \<rparr>]\<rparr>)"
  by (simp add: addMapPosTag_def fold_tag_ok Let_def)

text \<open>Position tags behave as a set of positions: after \<open>addMapPosTag x y\<close>
  there is a tag at \<open>(x, y)\<close>, and an existing tag there keeps its name; after
  \<open>removeMapPosTag x y\<close> there is none, and the other tags are kept in order.\<close>

theorem posTag_add_remove:
  "isPosTag x y (addMapPosTag x y n s)
   \<and> ((\<exists>t \<in> set (mapPosTags s). tag_x t = x \<and> tag_y t = y) \<longrightarrow> addMapPosTag x y n s = s)
   \<and> \<not> isPosTag x y (removeMapPosTag x y s)
   \<and> mapPosTags (removeMapPosTag x y s) = filter (\<lambda>t. (tag_x t, tag_y t) \<noteq> (x, y)) (mapPosTags s)"
  by (auto simp: addMapPosTag_eq isPosTag_def isPosTagLoop_ex removeMapPosTag_def filter_id_conv intro!: filter_cong)

theorem posTag_add_remove_witness:
  "let s = updateMapPosTags [(3, 4, ''home'')] initProxy in
   isPosTag 3 4 (addMapPosTag 3 4 ''camp'' s) \<and> addMapPosTag 3 4 ''camp'' s = s
   \<and> \<not> isPosTag 3 4 (removeMapPosTag 3 4 s) \<and> mapPosTags (removeMapPosTag 3 4 s) = []"
  using posTag_add_remove [of 3 4 "''camp''" "updateMapPosTags [(3, 4, ''home'')] initProxy"]
  by (simp add: updateMapPosTags_def initProxy_def isPosTag_def)

text \<open>Adding and removing tags keeps at most one tag per position.\<close>

theorem tags_ok_add_remove:
  assumes "tags_ok s"
  shows "tags_ok (addMapPosTag x y n s) \<and> tags_ok (removeMapPosTag x' y' s)"
  using assms by (auto simp: tags_ok_def addMapPosTag_eq removeMapPosTag_def distinct_map_filter
      image_iff)

theorem tags_ok_add_remove_witness:
  "let s = updateMapPosTags [(3, 4, ''home'')] initProxy in
   tags_ok (addMapPosTag 5 5 ''camp'' s) \<and> tags_ok (removeMapPosTag 3 4 s)"
proof -
  have "tags_ok (updateMapPosTags [(3, 4, ''home'')] initProxy)"
    by (simp add: tags_ok_def updateMapPosTags_def)
  from tags_ok_add_remove [OF this, of 5 5 "''camp''" 3 4] show ?thesis by (simp add: Let_def)
qed

end
