(* ===== verification/MapLogic.thy ===== *)
theory MapLogic
  imports MapProxy
begin

text \<open>
  The map controller \<open>MapLogic\<close> of \<^verbatim>\<open>src/assets/scripts/map/MapLogic.ts\<close>: the touch
  state (\<open>_isTouch\<close>, \<open>_isMove\<close>), the map camera's position and orthographic height,
  the camera bounds computed by \<open>setTiledMap\<close>, and the proxy it drives through
  \<open>setCenterMapCellPoint\<close> (\<open>this._cmd.proxy\<close>, the record \<open>proxy\<close>). The engine
  objects the handlers read (the tiled map's \<open>UITransform\<close>, the canvas anchor, the
  visible size) form the context \<open>logic_ctx\<close>; the events emitted through
  \<open>EventMgr\<close> are values of \<open>map_event\<close>, the proxy's own events included in order.
  \<open>updateCulling\<close> only asks the engine to redraw and is not modelled; the camera's
  \<open>z\<close> coordinate is never changed and is left out. \<open>Number(x.toFixed(1))\<close> is
  rounding half away from zero to one decimal, on exact reals.
\<close>

record logic_ctx =
  lc_util :: map_util
  lc_map :: tiled_map
  lc_view :: rsize
  lc_canvasAnchor :: rpoint

record mapLogic =
  isTouch :: bool
  isMove :: bool
  cameraPos :: rpoint
  orthoHeight :: real
  baseOrtho :: real
  maxMapX :: real
  maxMapY :: real
  proxy :: mapProxy

datatype map_event = TouchMapEv ipoint rpoint | MoveMapEv | ProxyEv logic_event

datatype touch_input =
    TouchBegan
  | TouchMove rpoint
  | TouchEnd rpoint
  | TouchCancel
  | MouseWheel real
  | OpenCityAbout
  | CloseCityAbout
  | ScrollToMapPoint ipoint

definition minZoomRatio :: real where "minZoomRatio = 1"
definition maxZoomRatio :: real where "maxZoomRatio = 0.8"
definition changeZoomRadix :: real where "changeZoomRadix = 200"

definition js_toFixed1 :: "real \<Rightarrow> real" where
  "js_toFixed1 x = sgn x * (real_of_int \<lfloor>\<bar>x\<bar> * 10 + 1 / 2\<rfloor> / 10)"

definition js_clamp :: "real \<Rightarrow> real \<Rightarrow> real" where
  "js_clamp m v = min m (max (- m) v)"

text \<open>\<open>onLoad\<close> keeps the camera's orthographic height as the base; \<open>setTiledMap\<close>
  computes how far the camera may move from the map's centre.\<close>

definition onLoad :: "real \<Rightarrow> rpoint \<Rightarrow> mapProxy \<Rightarrow> mapLogic" where
  "onLoad ortho cam p = \<lparr> isTouch = False, isMove = False, cameraPos = cam, orthoHeight = ortho,
     baseOrtho = ortho, maxMapX = 1, maxMapY = 1, proxy = p \<rparr>"

definition setTiledMap :: "logic_ctx \<Rightarrow> mapLogic \<Rightarrow> mapLogic" where
  "setTiledMap c s =
     s\<lparr>maxMapX := (uit_width (lc_map c) - fst (lc_view c)) * 0.5,
       maxMapY := (uit_height (lc_map c) - snd (lc_view c)) * 0.5\<rparr>"

definition openCityAbout :: "mapLogic \<Rightarrow> mapLogic" where
  "openCityAbout s = s\<lparr>orthoHeight := baseOrtho s * maxZoomRatio\<rparr>"

definition closeCityAbout :: "mapLogic \<Rightarrow> mapLogic" where
  "closeCityAbout s = s\<lparr>orthoHeight := baseOrtho s * minZoomRatio\<rparr>"

definition onMouseWheel :: "real \<Rightarrow> mapLogic \<Rightarrow> mapLogic" where
  "onMouseWheel scrollY s =
     (let changeRatio = js_toFixed1 (scrollY / changeZoomRadix);
          newZoomRatio = min minZoomRatio (max maxZoomRatio (orthoHeight s / baseOrtho s + changeRatio))
      in s\<lparr>orthoHeight := baseOrtho s * newZoomRatio\<rparr>)"

definition setCenterMapCellPoint :: "logic_ctx \<Rightarrow> ipoint \<Rightarrow> rpoint \<Rightarrow> mapLogic \<Rightarrow> mapLogic \<times> map_event list" where
  "setCenterMapCellPoint c point pixelPoint s =
     (let (_, p', evs) = setCurCenterPoint (lc_util c) (lc_view c) point pixelPoint (proxy s)
      in (s\<lparr>proxy := p'\<rparr>, map ProxyEv evs))"

definition onTouchMove :: "logic_ctx \<Rightarrow> rpoint \<Rightarrow> mapLogic \<Rightarrow> mapLogic \<times> map_event list" where
  "onTouchMove c delta s =
     (if isTouch s \<and> (fst delta \<noteq> 0 \<or> snd delta \<noteq> 0) then
        (let px = js_clamp (maxMapX s) (fst (cameraPos s) - fst delta);
             py = js_clamp (maxMapY s) (snd (cameraPos s) - snd delta);
             s1 = s\<lparr>isMove := True, cameraPos := (px, py)\<rparr>
         in setCenterMapCellPoint c (mapPixelToCellPoint (lc_util c) (px, py)) (px, py) s1)
      else (s, []))"

definition onTouchBegan :: "mapLogic \<Rightarrow> mapLogic" where
  "onTouchBegan s = s\<lparr>isTouch := True, isMove := False\<rparr>"

definition viewPointToWorldPoint :: "logic_ctx \<Rightarrow> rpoint \<Rightarrow> rpoint \<Rightarrow> rpoint" where
  "viewPointToWorldPoint c cam point =
     (let m = lc_map c;
          cameraWorldX = uit_width m * uit_anchorX m - fst (lc_view c) * fst (lc_canvasAnchor c) + fst cam;
          cameraWorldY = uit_height m * uit_anchorY m - snd (lc_view c) * snd (lc_canvasAnchor c) + snd cam
      in (fst point + cameraWorldX, snd point + cameraWorldY))"

definition worldToMapPixelPoint :: "logic_ctx \<Rightarrow> rpoint \<Rightarrow> rpoint" where
  "worldToMapPixelPoint c point =
     (fst point - uit_width (lc_map c) * uit_anchorX (lc_map c),
      snd point - uit_height (lc_map c) * uit_anchorY (lc_map c))"

definition onTouchEnd :: "logic_ctx \<Rightarrow> rpoint \<Rightarrow> mapLogic \<Rightarrow> mapLogic \<times> map_event list" where
  "onTouchEnd c touchLocation s =
     (let evs = (if \<not> isMove s then
                   (let touchLocation1 = viewPointToWorldPoint c (cameraPos s) touchLocation;
                        mapPoint = worldPixelToMapCellPoint (lc_util c) touchLocation1;
                        clickCenterPoint = mapCellToPixelPoint (lc_util c) mapPoint
                    in [TouchMapEv mapPoint clickCenterPoint])
                 else [MoveMapEv])
      in (s\<lparr>isTouch := False, isMove := False\<rparr>, evs))"

definition onTouchCancel :: "mapLogic \<Rightarrow> mapLogic" where
  "onTouchCancel s = s\<lparr>isTouch := False, isMove := False\<rparr>"

definition toCameraPoint :: "logic_ctx \<Rightarrow> mapLogic \<Rightarrow> ipoint \<Rightarrow> rpoint" where
  "toCameraPoint c s point =
     (let pixelPoint = mapCellToPixelPoint (lc_util c) point
      in (js_clamp (maxMapX s) (fst pixelPoint), js_clamp (maxMapY s) (snd pixelPoint)))"

definition scrollToMapPoint :: "logic_ctx \<Rightarrow> ipoint \<Rightarrow> mapLogic \<Rightarrow> mapLogic \<times> map_event list" where
  "scrollToMapPoint c point s =
     (let temp = toCameraPoint c s point;
          pixelPoint = mapCellToPixelPoint (lc_util c) point
      in setCenterMapCellPoint c point pixelPoint (s\<lparr>cameraPos := temp\<rparr>))"

definition curCameraPoint :: "mapLogic \<Rightarrow> rpoint" where
  "curCameraPoint s = cameraPos s"

text \<open>The handlers as one step on an input, and the states reachable from a controller
  set up by \<open>onLoad\<close> and \<open>setTiledMap\<close>.\<close>

fun logicStep :: "logic_ctx \<Rightarrow> touch_input \<Rightarrow> mapLogic \<Rightarrow> mapLogic \<times> map_event list" where
  "logicStep c TouchBegan s = (onTouchBegan s, [])"
| "logicStep c (TouchMove d) s = onTouchMove c d s"
| "logicStep c (TouchEnd l) s = onTouchEnd c l s"
| "logicStep c TouchCancel s = (onTouchCancel s, [])"
| "logicStep c (MouseWheel y) s = (onMouseWheel y s, [])"
| "logicStep c OpenCityAbout s = (openCityAbout s, [])"
| "logicStep c CloseCityAbout s = (closeCityAbout s, [])"
| "logicStep c (ScrollToMapPoint p) s = scrollToMapPoint c p s"

fun logicRun :: "logic_ctx \<Rightarrow> touch_input list \<Rightarrow> mapLogic \<Rightarrow> mapLogic \<times> map_event list" where
  "logicRun c [] s = (s, [])"
| "logicRun c (i # is) s =
     (let (s', evs) = logicStep c i s; (s'', evs') = logicRun c is s' in (s'', evs @ evs'))"

inductive logic_reach :: "logic_ctx \<Rightarrow> mapLogic \<Rightarrow> bool" for c where
  init: "logic_reach c (setTiledMap c (onLoad ortho (0, 0) initProxy))"
| step: "logic_reach c s \<Longrightarrow> logicStep c i s = (t, evs) \<Longrightarrow> logic_reach c t"

text \<open>The controller's invariant for a map at least as large as the view: a move is
  only recorded during a touch, the zoom stays between \<open>maxZoomRatio\<close> and
  \<open>minZoomRatio\<close> of the base height, and the camera stays within the bounds.\<close>

definition logic_ok :: "mapLogic \<Rightarrow> bool" where
  "logic_ok s \<longleftrightarrow> (isMove s \<longrightarrow> isTouch s)
     \<and> baseOrtho s * maxZoomRatio \<le> orthoHeight s \<and> orthoHeight s \<le> baseOrtho s * minZoomRatio
     \<and> \<bar>fst (cameraPos s)\<bar> \<le> maxMapX s \<and> \<bar>snd (cameraPos s)\<bar> \<le> maxMapY s"

definition demo_ctx :: logic_ctx where
  "demo_ctx = \<lparr> lc_util = demo_util, lc_map = demo_map, lc_view = (1280, 720),
     lc_canvasAnchor = (0.5, 0.5) \<rparr>"

text \<open>The demo controller: loaded with the camera at the map's centre and the default
  orthographic height 360 (\<open>_orthoHeight\<close>'s initial value), then given the demo map.\<close>

definition demo_start :: mapLogic where
  "demo_start = setTiledMap demo_ctx (onLoad 360 (0, 0) initProxy)"

text \<open>A view wider than the demo map (6000 pixels against 5120), which makes
  \<open>_maxMapX\<close> negative.\<close>

definition wide_ctx :: logic_ctx where
  "wide_ctx = demo_ctx\<lparr>lc_view := (6000, 720)\<rparr>"

section \<open>Frames of the handlers\<close>

lemma setCenterMapCellPoint_frame:
  assumes "setCenterMapCellPoint c point px s = (t, evs)"
  obtains r p' pevs where "setCurCenterPoint (lc_util c) (lc_view c) point px (proxy s) = (r, p', pevs)"
    and "t = s\<lparr>proxy := p'\<rparr>" and "evs = map ProxyEv pevs"
  using assms by (auto simp: setCenterMapCellPoint_def split: prod.splits)

lemma js_clamp_bound: "0 \<le> m \<Longrightarrow> \<bar>js_clamp m v\<bar> \<le> m"
  by (simp add: js_clamp_def)

lemma js_clamp_neg: "m < 0 \<Longrightarrow> js_clamp m v = m"
  by (simp add: js_clamp_def)

lemma js_clamp_inside: "\<bar>v\<bar> \<le> m \<Longrightarrow> js_clamp m v = v"
  by (simp add: js_clamp_def)

lemma onMouseWheel_zoom:
  assumes "0 \<le> baseOrtho s"
  shows "baseOrtho s * maxZoomRatio \<le> orthoHeight (onMouseWheel y s)
    \<and> orthoHeight (onMouseWheel y s) \<le> baseOrtho s * minZoomRatio"
proof -
  let ?z = "min minZoomRatio (max maxZoomRatio (orthoHeight s / baseOrtho s + js_toFixed1 (y / changeZoomRadix)))"
  have "maxZoomRatio \<le> ?z" "?z \<le> minZoomRatio" by (auto simp: maxZoomRatio_def minZoomRatio_def)
  with assms show ?thesis
    by (simp add: onMouseWheel_def Let_def mult_left_mono)
qed

lemma onTouchMove_still: "\<not> isTouch s \<or> d = (0, 0) \<Longrightarrow> onTouchMove c d s = (s, [])"
  by (cases d) (auto simp: onTouchMove_def)

lemma onTouchMove_drag:
  assumes "isTouch s" "d \<noteq> (0, 0)" "onTouchMove c d s = (t, evs)"
  obtains r p' pevs where
    "setCurCenterPoint (lc_util c) (lc_view c)
       (mapPixelToCellPoint (lc_util c) (js_clamp (maxMapX s) (fst (cameraPos s) - fst d),
          js_clamp (maxMapY s) (snd (cameraPos s) - snd d)))
       (js_clamp (maxMapX s) (fst (cameraPos s) - fst d), js_clamp (maxMapY s) (snd (cameraPos s) - snd d))
       (proxy s) = (r, p', pevs)"
    and "t = s\<lparr>isMove := True, cameraPos := (js_clamp (maxMapX s) (fst (cameraPos s) - fst d),
        js_clamp (maxMapY s) (snd (cameraPos s) - snd d)), proxy := p'\<rparr>"
    and "evs = map ProxyEv pevs"
proof -
  let ?p = "(js_clamp (maxMapX s) (fst (cameraPos s) - fst d), js_clamp (maxMapY s) (snd (cameraPos s) - snd d))"
  have "setCenterMapCellPoint c (mapPixelToCellPoint (lc_util c) ?p) ?p (s\<lparr>isMove := True, cameraPos := ?p\<rparr>) = (t, evs)"
    using assms by (cases d) (simp add: onTouchMove_def Let_def)
  then show ?thesis by (elim setCenterMapCellPoint_frame) (rule that; simp)
qed

lemma logic_ok_proxy: "logic_ok (s\<lparr>proxy := p\<rparr>) = logic_ok s"
  by (simp add: logic_ok_def)

lemma logicStep_fields:
  assumes "logicStep c i s = (t, evs)"
  shows "maxMapX t = maxMapX s \<and> maxMapY t = maxMapY s \<and> baseOrtho t = baseOrtho s"
  using assms
  by (cases i) (auto simp: onTouchBegan_def onTouchCancel_def onMouseWheel_def openCityAbout_def
      closeCityAbout_def onTouchEnd_def onTouchMove_def scrollToMapPoint_def setCenterMapCellPoint_def
      Let_def split: prod.splits if_splits)

lemma logic_ok_step:
  assumes ok: "logic_ok s" and b: "0 \<le> baseOrtho s" "0 \<le> maxMapX s" "0 \<le> maxMapY s"
    and st: "logicStep c i s = (t, evs)"
  shows "logic_ok t"
proof (cases i)
  case (TouchMove d)
  show ?thesis
  proof (cases "isTouch s \<and> (fst d \<noteq> 0 \<or> snd d \<noteq> 0)")
    case True
    let ?s1 = "s\<lparr>isMove := True, cameraPos := (js_clamp (maxMapX s) (fst (cameraPos s) - fst d),
        js_clamp (maxMapY s) (snd (cameraPos s) - snd d))\<rparr>"
    have "setCenterMapCellPoint c (mapPixelToCellPoint (lc_util c) (cameraPos ?s1)) (cameraPos ?s1) ?s1 = (t, evs)"
      using st TouchMove True by (simp add: onTouchMove_def Let_def)
    then obtain p' where "t = ?s1\<lparr>proxy := p'\<rparr>" by (elim setCenterMapCellPoint_frame) blast
    then show ?thesis using ok b True by (simp add: logic_ok_def js_clamp_bound)
  next
    case False
    then have "onTouchMove c d s = (s, [])" by (cases d) (auto simp: onTouchMove_still)
    with st TouchMove ok show ?thesis by simp
  qed
next
  case (ScrollToMapPoint p)
  let ?s1 = "s\<lparr>cameraPos := toCameraPoint c s p\<rparr>"
  have "setCenterMapCellPoint c p (mapCellToPixelPoint (lc_util c) p) ?s1 = (t, evs)"
    using st ScrollToMapPoint by (simp add: scrollToMapPoint_def Let_def)
  then obtain p' where "t = ?s1\<lparr>proxy := p'\<rparr>" by (elim setCenterMapCellPoint_frame) blast
  then show ?thesis using ok b by (simp add: logic_ok_def toCameraPoint_def Let_def js_clamp_bound)
next
  case (MouseWheel y)
  with st ok onMouseWheel_zoom [OF b(1), of y] show ?thesis
    by (auto simp: logic_ok_def onMouseWheel_def Let_def)
qed (use st ok b in \<open>auto simp: logic_ok_def onTouchBegan_def onTouchCancel_def openCityAbout_def
      closeCityAbout_def onTouchEnd_def Let_def maxZoomRatio_def minZoomRatio_def
      mult_left_mono\<close>)

lemma logic_reach_fields:
  assumes "logic_reach c s"
  shows "maxMapX s = (uit_width (lc_map c) - fst (lc_view c)) * 0.5
    \<and> maxMapY s = (uit_height (lc_map c) - snd (lc_view c)) * 0.5"
  using assms
proof (induction rule: logic_reach.induct)
  case (init ortho)
  then show ?case by (simp add: setTiledMap_def onLoad_def)
next
  case (step s i t evs)
  with logicStep_fields [OF step.hyps(2)] show ?case by simp
qed

lemma logicRun_append:
  "logicRun c (xs @ ys) s =
     (let (s1, e1) = logicRun c xs s; (s2, e2) = logicRun c ys s1 in (s2, e1 @ e2))"
  by (induction xs arbitrary: s) (auto split: prod.splits)

lemma logicRun_touchMoves:
  assumes "isTouch s" "logicRun c (map TouchMove ds) s = (t, evs)"
  shows "isTouch t \<and> (isMove t \<longleftrightarrow> isMove s \<or> (\<exists>d \<in> set ds. d \<noteq> (0, 0)))
    \<and> (\<exists>pevs. evs = map ProxyEv pevs) \<and> ((\<forall>d \<in> set ds. d = (0, 0)) \<longrightarrow> t = s \<and> evs = [])"
  using assms
proof (induction ds arbitrary: s t evs)
  case Nil
  then show ?case by simp
next
  case (Cons d ds)
  obtain s1 e1 where st: "onTouchMove c d s = (s1, e1)" by fastforce
  obtain s2 e2 where rn: "logicRun c (map TouchMove ds) s1 = (s2, e2)" by fastforce
  have ev: "t = s2" "evs = e1 @ e2" using Cons.prems(2) st rn by auto
  have h1: "isTouch s1 \<and> (isMove s1 \<longleftrightarrow> isMove s \<or> d \<noteq> (0, 0)) \<and> (\<exists>p. e1 = map ProxyEv p)
      \<and> (d = (0, 0) \<longrightarrow> s1 = s \<and> e1 = [])"
  proof (cases "d = (0, 0)")
    case True
    with st onTouchMove_still [of s d c] show ?thesis by (auto simp: Cons.prems(1))
  next
    case False
    show ?thesis by (rule onTouchMove_drag [OF Cons.prems(1) False st]) (use Cons.prems(1) False in auto)
  qed
  have h2: "isTouch s2 \<and> (isMove s2 \<longleftrightarrow> isMove s1 \<or> (\<exists>d \<in> set ds. d \<noteq> (0, 0)))
      \<and> (\<exists>pevs. e2 = map ProxyEv pevs) \<and> ((\<forall>d \<in> set ds. d = (0, 0)) \<longrightarrow> s2 = s1 \<and> e2 = [])"
    using Cons.IH [OF _ rn] h1 by blast
  from h1 h2 show ?case unfolding ev by (auto simp flip: map_append)
qed

section \<open>Properties of the controller\<close>

text \<open>C12: on a map at least as large as the visible area and a camera with a
  non-negative orthographic height, every reachable controller state satisfies
  \<open>logic_ok\<close>: a move is only recorded during a touch, the zoom stays between 0.8 and 1
  times the base height, and the camera stays within \<open>[-_maxMapX, _maxMapX]\<close> and
  \<open>[-_maxMapY, _maxMapY]\<close>, whatever sequence of touches, wheel turns, city panels and
  scrolls drives it.\<close>

theorem logic_reach_ok:
  assumes "logic_reach c s"
    and "fst (lc_view c) \<le> uit_width (lc_map c)" "snd (lc_view c) \<le> uit_height (lc_map c)"
    and "0 \<le> baseOrtho s"
  shows "logic_ok s"
  using assms
proof (induction rule: logic_reach.induct)
  case (init ortho)
  then show ?case by (simp add: logic_ok_def setTiledMap_def onLoad_def maxZoomRatio_def minZoomRatio_def)
next
  case (step s i t evs)
  note f = logicStep_fields [OF step.hyps(2)] and b = logic_reach_fields [OF step.hyps(1)]
  show ?case
  proof (rule logic_ok_step [OF _ _ _ _ step.hyps(2)])
    show "logic_ok s" using step f by simp
  qed (use step f b in simp_all)
qed

theorem logic_reach_ok_witness:
  "logic_ok (fst (logicStep demo_ctx (MouseWheel 100) demo_start))"
proof -
  have r: "logic_reach demo_ctx demo_start" unfolding demo_start_def by (rule logic_reach.init)
  have "logic_reach demo_ctx (fst (logicStep demo_ctx (MouseWheel 100) demo_start))"
    by (rule logic_reach.step [OF r, of "MouseWheel 100" _ "snd (logicStep demo_ctx (MouseWheel 100) demo_start)"]) simp
  moreover have "baseOrtho (fst (logicStep demo_ctx (MouseWheel 100) demo_start)) = 360"
    by (simp add: demo_start_def setTiledMap_def onLoad_def onMouseWheel_def Let_def)
  ultimately show ?thesis
    using logic_reach_ok [of demo_ctx "fst (logicStep demo_ctx (MouseWheel 100) demo_start)"]
    by (simp add: demo_ctx_def demo_map_def)
qed

text \<open>C13: a gesture is a touch, any number of moves and a release. If some move
  had a non-zero delta the gesture is a drag: it emits only the proxy's events and ends
  with one \<open>moveMap\<close>, never a \<open>touchMap\<close>. Otherwise it is a tap: the camera has
  not moved and the only event is \<open>touchMap\<close> with the cell under the released point and
  that cell's centre pixel. Either way the controller ends neither touching nor moving.\<close>

theorem touch_gesture:
  assumes "logicRun c (TouchBegan # map TouchMove ds @ [TouchEnd l]) s = (t, evs)"
  shows "\<not> isTouch t \<and> \<not> isMove t
    \<and> (if \<exists>d \<in> set ds. d \<noteq> (0, 0) then (\<exists>pevs. evs = map ProxyEv pevs @ [MoveMapEv])
       else evs = [TouchMapEv (worldPixelToMapCellPoint (lc_util c) (viewPointToWorldPoint c (cameraPos s) l))
                     (mapCellToPixelPoint (lc_util c)
                        (worldPixelToMapCellPoint (lc_util c) (viewPointToWorldPoint c (cameraPos s) l)))])"
proof -
  obtain s2 e2 where rn: "logicRun c (map TouchMove ds) (onTouchBegan s) = (s2, e2)" by fastforce
  have tb: "isTouch (onTouchBegan s)" "\<not> isMove (onTouchBegan s)" "cameraPos (onTouchBegan s) = cameraPos s"
    by (simp_all add: onTouchBegan_def)
  note mv = logicRun_touchMoves [OF tb(1) rn]
  have out: "t = fst (onTouchEnd c l s2)" "evs = e2 @ snd (onTouchEnd c l s2)"
    using assms rn by (auto simp: logicRun_append split: prod.splits)
  have "\<not> isTouch t \<and> \<not> isMove t" unfolding out by (simp add: onTouchEnd_def Let_def)
  moreover have "evs = e2 @ [MoveMapEv]" if "\<exists>d \<in> set ds. d \<noteq> (0, 0)"
    using mv that unfolding out by (simp add: onTouchEnd_def Let_def)
  moreover have "s2 = onTouchBegan s \<and> e2 = []" if "\<not> (\<exists>d \<in> set ds. d \<noteq> (0, 0))"
    using mv that rn by (auto simp: logicRun_touchMoves)
  ultimately show ?thesis
    using mv tb unfolding out by (auto simp: onTouchEnd_def Let_def)
qed

theorem touch_gesture_witness:
  "logicRun demo_ctx [TouchBegan, TouchEnd (640, 360)] demo_start
     = (fst (logicRun demo_ctx [TouchBegan, TouchEnd (640, 360)] demo_start), [TouchMapEv (10, 10) (0, -64)])"
proof -
  have v: "viewPointToWorldPoint demo_ctx (0, 0) (640, 360) = (2560, 1280)"
    by (simp add: viewPointToWorldPoint_def demo_ctx_def demo_map_def)
  have w: "worldPixelToMapCellPoint demo_util (2560, 1280) = (10, 10)"
    by (simp add: worldPixelToMapCellPoint_def demo_util_eq)
  have m: "mapCellToPixelPoint demo_util (10, 10) = (0, -64)"
    by (simp add: mapCellToPixelPoint_def mapCellToWorldPixelPoint_def demo_util_eq)
  have c: "cameraPos demo_start = (0, 0)" "lc_util demo_ctx = demo_util"
    by (simp_all add: demo_start_def setTiledMap_def onLoad_def demo_ctx_def)
  obtain t evs where r: "logicRun demo_ctx (TouchBegan # map TouchMove [] @ [TouchEnd (640, 360)]) demo_start = (t, evs)"
    by fastforce
  from touch_gesture [OF r] have "evs = [TouchMapEv (10, 10) (0, -64)]" by (simp add: c v w m)
  with r show ?thesis by simp
qed

text \<open>C14: a drag during a touch moves the camera by the opposite of the delta,
  clamped to the bounds, marks the gesture as a move, and hands the proxy the cell under
  the new camera position together with that position: afterwards the proxy's centre
  cell is the camera's cell, and the step's events are exactly the proxy's.\<close>

theorem drag_syncs_cache:
  assumes "isTouch s" "d \<noteq> (0, 0)" "logicStep c (TouchMove d) s = (t, evs)"
  shows "isTouch t \<and> isMove t
    \<and> cameraPos t = (js_clamp (maxMapX s) (fst (cameraPos s) - fst d),
                     js_clamp (maxMapY s) (snd (cameraPos s) - snd d))
    \<and> curCenterPoint (proxy t) = Some (mapPixelToCellPoint (lc_util c) (cameraPos t))
    \<and> (\<exists>r pevs. setCurCenterPoint (lc_util c) (lc_view c) (mapPixelToCellPoint (lc_util c) (cameraPos t))
           (cameraPos t) (proxy s) = (r, proxy t, pevs) \<and> evs = map ProxyEv pevs)"
proof -
  have st: "onTouchMove c d s = (t, evs)" using assms(3) by simp
  show ?thesis
    by (rule onTouchMove_drag [OF assms(1,2) st]) (use assms(1) in \<open>auto dest: setCurCenterPoint_frame\<close>)
qed

theorem drag_syncs_cache_witness:
  "isTouch (onTouchBegan demo_start) \<and> cameraPos (fst (logicStep demo_ctx (TouchMove (0, 10)) (onTouchBegan demo_start))) = (0, -10)
   \<and> curCenterPoint (proxy (fst (logicStep demo_ctx (TouchMove (0, 10)) (onTouchBegan demo_start)))) = Some (10, 10)"
proof -
  obtain t evs where r: "logicStep demo_ctx (TouchMove (0, 10)) (onTouchBegan demo_start) = (t, evs)" by fastforce
  have b: "isTouch (onTouchBegan demo_start)" "maxMapX (onTouchBegan demo_start) = 1920"
    "maxMapY (onTouchBegan demo_start) = 920" "cameraPos (onTouchBegan demo_start) = (0, 0)"
    by (simp_all add: onTouchBegan_def demo_start_def setTiledMap_def onLoad_def demo_ctx_def demo_map_def)
  have c: "mapPixelToCellPoint demo_util (0, -10) = (10, 10)" "lc_util demo_ctx = demo_util"
    by (simp_all add: mapPixelToCellPoint_def worldPixelToMapCellPoint_def demo_util_eq demo_ctx_def)
  from drag_syncs_cache [OF b(1) _ r] have "cameraPos t = (0, -10) \<and> curCenterPoint (proxy t) = Some (10, 10)"
    by (simp add: b c js_clamp_def)
  with r b show ?thesis by simp
qed

text \<open>\<open>scrollToMapPoint\<close> to a cell whose centre pixel lies within the camera
  bounds puts the camera on that pixel and leaves the proxy centred on the camera's cell.\<close>

theorem scrollToMapPoint_inside:
  assumes "map_util_ok (lc_util c)"
    and "\<bar>fst (mapCellToPixelPoint (lc_util c) p)\<bar> \<le> maxMapX s"
    and "\<bar>snd (mapCellToPixelPoint (lc_util c) p)\<bar> \<le> maxMapY s"
    and "logicStep c (ScrollToMapPoint p) s = (t, evs)"
  shows "cameraPos t = mapCellToPixelPoint (lc_util c) p
    \<and> curCenterPoint (proxy t) = Some (mapPixelToCellPoint (lc_util c) (cameraPos t))"
proof -
  let ?s1 = "s\<lparr>cameraPos := toCameraPoint c s p\<rparr>"
  have "setCenterMapCellPoint c p (mapCellToPixelPoint (lc_util c) p) ?s1 = (t, evs)"
    using assms(4) by (simp add: scrollToMapPoint_def Let_def)
  then obtain r p' pevs where sc: "setCurCenterPoint (lc_util c) (lc_view c) p (mapCellToPixelPoint (lc_util c) p)
      (proxy s) = (r, p', pevs)" and e: "t = ?s1\<lparr>proxy := p'\<rparr>"
    by (elim setCenterMapCellPoint_frame) auto
  have cur: "curCenterPoint (proxy t) = Some p" using setCurCenterPoint_frame [OF sc] by (simp add: e)
  have cam: "cameraPos t = mapCellToPixelPoint (lc_util c) p"
    using assms(2,3) by (simp add: e toCameraPoint_def js_clamp_inside)
  have "mapPixelToCellPoint (lc_util c) (mapCellToPixelPoint (lc_util c) p) = p"
    using world_cell_roundtrip [OF assms(1)] by (simp add: mapPixelToCellPoint_def mapCellToPixelPoint_def Let_def)
  with cam cur show ?thesis by simp
qed

theorem scrollToMapPoint_inside_witness:
  "cameraPos (fst (logicStep demo_ctx (ScrollToMapPoint (10, 10)) demo_start)) = (0, -64)
   \<and> curCenterPoint (proxy (fst (logicStep demo_ctx (ScrollToMapPoint (10, 10)) demo_start))) = Some (10, 10)"
proof -
  obtain t evs where r: "logicStep demo_ctx (ScrollToMapPoint (10, 10)) demo_start = (t, evs)" by fastforce
  have b: "maxMapX demo_start = 1920" "maxMapY demo_start = 920" "lc_util demo_ctx = demo_util"
    by (simp_all add: demo_start_def setTiledMap_def onLoad_def demo_ctx_def demo_map_def)
  have m: "mapCellToPixelPoint demo_util (10, 10) = (0, -64)"
    by (simp add: mapCellToPixelPoint_def mapCellToWorldPixelPoint_def demo_util_eq)
  have c: "mapPixelToCellPoint demo_util (0, -64) = (10, 10)"
    by (simp add: mapPixelToCellPoint_def worldPixelToMapCellPoint_def demo_util_eq)
  from scrollToMapPoint_inside [of demo_ctx, OF _ _ _ r]
  have "cameraPos t = (0, -64) \<and> curCenterPoint (proxy t) = Some (10, 10)"
    by (simp add: b m c demo_util_ok)
  with r show ?thesis by simp
qed

text \<open>C35: Near the edge of the map the camera and the proxy disagree after
  \<open>scrollToMapPoint\<close>: it clamps the camera but hands the proxy the target cell and its
  unclamped pixel point. On the demo map, scrolling to the corner cell (0, 0) leaves the
  camera at (0, 920), over cell (2, 2), while the proxy records (0, 0) as the centre.\<close>

theorem scrollToMapPoint_edge_desync:
  "cameraPos (fst (logicStep demo_ctx (ScrollToMapPoint (0, 0)) demo_start)) = (0, 920)
   \<and> mapPixelToCellPoint demo_util (0, 920) = (2, 2)
   \<and> curCenterPoint (proxy (fst (logicStep demo_ctx (ScrollToMapPoint (0, 0)) demo_start))) = Some (0, 0)"
proof -
  obtain t evs where r: "logicStep demo_ctx (ScrollToMapPoint (0, 0)) demo_start = (t, evs)" by fastforce
  have "setCenterMapCellPoint demo_ctx (0, 0) (mapCellToPixelPoint demo_util (0, 0))
      (demo_start\<lparr>cameraPos := toCameraPoint demo_ctx demo_start (0, 0)\<rparr>) = (t, evs)"
    using r by (simp add: scrollToMapPoint_def Let_def demo_ctx_def)
  then obtain q p' pevs where sc: "setCurCenterPoint (lc_util demo_ctx) (lc_view demo_ctx) (0, 0)
      (mapCellToPixelPoint demo_util (0, 0)) (proxy demo_start) = (q, p', pevs)"
    and e: "t = demo_start\<lparr>cameraPos := toCameraPoint demo_ctx demo_start (0, 0), proxy := p'\<rparr>"
    by (elim setCenterMapCellPoint_frame) auto
  have cur: "curCenterPoint (proxy t) = Some (0, 0)" using setCurCenterPoint_frame [OF sc] by (simp add: e)
  have cam: "toCameraPoint demo_ctx demo_start (0, 0) = (0, 920)"
    by (simp add: toCameraPoint_def mapCellToPixelPoint_def mapCellToWorldPixelPoint_def demo_util_eq
        demo_start_def setTiledMap_def onLoad_def demo_ctx_def demo_map_def js_clamp_def)
  have "cameraPos t = (0, 920)" by (simp add: e cam)
  moreover have "mapPixelToCellPoint demo_util (0, 920) = (2, 2)"
    by (simp add: mapPixelToCellPoint_def worldPixelToMapCellPoint_def demo_util_eq)
  ultimately show ?thesis using r cur by simp
qed

text \<open>C36: On a map narrower than the visible area \<open>_maxMapX\<close> is negative and the clamp
  \<open>Math.min(_maxMapX, Math.max(-_maxMapX, x))\<close> returns \<open>_maxMapX\<close> whatever \<open>x\<close> is:
  every drag pins the camera's \<open>x\<close> to that negative bound instead of the map's centre.\<close>

theorem drag_narrow_map_pinned:
  assumes "maxMapX s < 0" "isTouch s" "d \<noteq> (0, 0)" "logicStep c (TouchMove d) s = (t, evs)"
  shows "fst (cameraPos t) = maxMapX s"
proof -
  have "onTouchMove c d s = (t, evs)" using assms(4) by simp
  then show ?thesis by (rule onTouchMove_drag [OF assms(2,3)]) (simp add: assms(1) js_clamp_neg)
qed

theorem drag_narrow_map_pinned_witness:
  "maxMapX (onTouchBegan (setTiledMap wide_ctx (onLoad 360 (0, 0) initProxy))) = -440
   \<and> fst (cameraPos (fst (logicStep wide_ctx (TouchMove (-5, 0))
        (onTouchBegan (setTiledMap wide_ctx (onLoad 360 (0, 0) initProxy)))))) = -440"
proof -
  let ?s = "onTouchBegan (setTiledMap wide_ctx (onLoad 360 (0, 0) initProxy))"
  obtain t evs where r: "logicStep wide_ctx (TouchMove (-5, 0)) ?s = (t, evs)" by fastforce
  have b: "maxMapX ?s = -440" "isTouch ?s"
    by (simp_all add: onTouchBegan_def setTiledMap_def onLoad_def wide_ctx_def demo_ctx_def demo_map_def)
  from drag_narrow_map_pinned [OF _ b(2) _ r] b r show ?thesis by simp
qed

end
