(* ===== verification/MapCityLogic.thy ===== *)
theory MapCityLogic
  imports LayerLogic MapUtil
begin

text \<open>
  The city layer \<open>MapCityLogic\<close> of \<^verbatim>\<open>src/assets/scripts/map/MapCityLogic.ts\<close>: a render
  layer (theory \<open>LayerLogic\<close>) whose items are the cities of the city proxy, keyed by
  \<open>cityId\<close>. \<open>MapCityProxy\<close> is not in the repository: a city is the record
  \<open>mapCityData\<close> of the fields the layer and \<open>MapCommand\<close> read (its id and cell, its
  owner, alliance and parent alliance, occupation time, and the radius \<open>getCellRadius()\<close>
  answers), and the proxy's \<open>getCity\<close> is a
  parameter that may answer \<open>null\<close> (\<open>None\<close>), as the tap handler's \<open>!= null\<close> test expects.
  The layer's overrides: \<open>getIdByData\<close> reads \<open>cityId\<close>, so on \<open>null\<close> it throws a
  \<open>TypeError\<close>; \<open>setItemData\<close> also places the node on the centre pixel of the city's
  cell, which \<open>cityNodePosition\<close> reads back from the data the node holds. The handlers
  \<open>onUpdateCitys\<close> and \<open>onUpdateCity\<close> mutate the layer in place; a throw in the middle of
  \<open>onUpdateCitys\<close> leaves the items handled before it (Prelude's \<open>forEachE\<close>).
\<close>

record mapCityData =
  cityId :: int
  city_x :: int
  city_y :: int
  rid :: int
  unionId :: int
  parentId :: int
  occupyTime :: int
  cityCellRadius :: int

type_synonym cityLayer = "mapCityData mapLayer"

definition getIdByData :: "mapCityData \<Rightarrow> int" where
  "getIdByData data = cityId data"

definition cityNodePosition :: "map_util \<Rightarrow> cityLayer \<Rightarrow> node \<Rightarrow> rpoint option" where
  "cityNodePosition u s n =
     map_option (\<lambda>cityData. mapCellToPixelPoint u (city_x cityData, city_y cityData)) (itemData s n)"

text \<open>The base class's \<open>addItem\<close>, \<open>updateItem\<close> and \<open>removeItem\<close> on this layer, with
  the data possibly \<open>null\<close>: on a shown area \<open>getIdByData(null)\<close> throws before anything
  changes.\<close>

definition cityAddItem :: "int \<Rightarrow> mapCityData option \<Rightarrow> cityLayer \<Rightarrow> cityLayer \<times> layer_error option" where
  "cityAddItem areaIndex data s =
     (case itemMap s areaIndex of
        None \<Rightarrow> (s, None)
      | Some _ \<Rightarrow> (case data of
                    None \<Rightarrow> (s, Some TypeError)
                  | Some c \<Rightarrow> (snd (addItem getIdByData areaIndex c s), None)))"

definition cityUpdateItem :: "int \<Rightarrow> mapCityData option \<Rightarrow> cityLayer \<Rightarrow> cityLayer \<times> layer_error option" where
  "cityUpdateItem areaIndex data s =
     (case itemMap s areaIndex of
        None \<Rightarrow> (s, None)
      | Some _ \<Rightarrow> (case data of
                    None \<Rightarrow> (s, Some TypeError)
                  | Some c \<Rightarrow> (updateItem getIdByData areaIndex c None s, None)))"

definition cityRemoveItem :: "int \<Rightarrow> int \<Rightarrow> cityLayer \<Rightarrow> cityLayer \<times> layer_error option" where
  "cityRemoveItem areaIndex i s =
     (case removeItem areaIndex i s of Inl e \<Rightarrow> (s, Some e) | Inr (_, t) \<Rightarrow> (t, None))"

definition onUpdateCitys ::
  "(int \<Rightarrow> mapCityData option) \<Rightarrow> int \<Rightarrow> int list \<Rightarrow> int list \<Rightarrow> int list \<Rightarrow> cityLayer
     \<Rightarrow> cityLayer \<times> layer_error option" where
  "onUpdateCitys getCity areaIndex addIds removeIds updateIds s =
     (if itemMap s areaIndex \<noteq> None then
        seqE (forEachE (\<lambda>i. cityAddItem areaIndex (getCity i)) addIds s)
          (\<lambda>s1. seqE (forEachE (cityRemoveItem areaIndex) removeIds s1)
             (forEachE (\<lambda>i. cityUpdateItem areaIndex (getCity i)) updateIds))
      else (s, None))"

definition onUpdateCity :: "map_util \<Rightarrow> mapCityData \<Rightarrow> cityLayer \<Rightarrow> cityLayer" where
  "onUpdateCity u city s =
     (let areaIndex = getAreaIdByCellPoint u (city_x city) (city_y city)
      in if itemMap s areaIndex \<noteq> None then snd (addItem getIdByData areaIndex city s) else s)"

text \<open>The events the layer listens to: the two city events registered in \<open>onLoad\<close>, and
  the area change the base layer applies through \<open>udpateShowAreas\<close>.\<close>

datatype city_event =
    UpdateCitys int "int list" "int list" "int list"
  | UpdateCity mapCityData
  | CityShowAreas "int list" "int list"

fun cityStep ::
  "map_util \<Rightarrow> (int \<Rightarrow> mapCityData option) \<Rightarrow> city_event \<Rightarrow> cityLayer \<Rightarrow> cityLayer \<times> layer_error option"
  where
  "cityStep u getCity (UpdateCitys a adds rems upds) s = onUpdateCitys getCity a adds rems upds s"
| "cityStep u getCity (UpdateCity c) s = (onUpdateCity u c s, None)"
| "cityStep u getCity (CityShowAreas adds rems) s = (udpateShowAreas adds rems s, None)"

text \<open>The ids of the items shown in an area.\<close>

definition areaItemIds :: "cityLayer \<Rightarrow> int \<Rightarrow> int set" where
  "areaItemIds s a = (case itemMap s a of None \<Rightarrow> {} | Some l \<Rightarrow> dom (map_of l))"

definition demo_city :: mapCityData where
  "demo_city = \<lparr> cityId = 7, city_x = 3, city_y = 4, rid = 1, unionId = 0, parentId = 0, occupyTime = 0,
     cityCellRadius = 1 \<rparr>"

definition demo_getCity :: "int \<Rightarrow> mapCityData option" where
  "demo_getCity i = (if i = 7 then Some demo_city else if i = 8 then Some \<lparr> cityId = 8, city_x = 5, city_y = 1, rid = 2, unionId = 0, parentId = 0, occupyTime = 0,
     cityCellRadius = 1 \<rparr> else None)"

section \<open>The layer's handlers\<close>

lemma cityAddItem_ok: "layer_ok s \<Longrightarrow> layer_ok (fst (cityAddItem a d s))"
  by (auto simp: cityAddItem_def layer_ok_addItem split: option.splits)

lemma cityUpdateItem_ok: "layer_ok s \<Longrightarrow> layer_ok (fst (cityUpdateItem a d s))"
  by (auto simp: cityUpdateItem_def layer_ok_updateItem split: option.splits)

lemma cityRemoveItem_ok: "layer_ok s \<Longrightarrow> layer_ok (fst (cityRemoveItem a i s))"
  by (auto simp: cityRemoveItem_def split: sum.splits intro: layer_ok_removeItem)

lemma forEachE_layer_ok:
  "layer_ok s \<Longrightarrow> (\<And>x t. layer_ok t \<Longrightarrow> layer_ok (fst (f x t))) \<Longrightarrow> layer_ok (fst (forEachE f xs s))"
  by (rule forEachE_inv)

lemma cityStep_ok:
  assumes "layer_ok s" "cityStep u getCity ev s = (t, err)"
  shows "layer_ok t"
proof (cases ev)
  case (UpdateCitys a adds rems upds)
  let ?add = "\<lambda>i. cityAddItem a (getCity i)" and ?upd = "\<lambda>i. cityUpdateItem a (getCity i)"
  have s1: "layer_ok (fst (forEachE ?add adds s))"
    using assms(1) by (rule forEachE_layer_ok) (rule cityAddItem_ok)
  then have s2: "layer_ok (fst (forEachE (cityRemoveItem a) rems (fst (forEachE ?add adds s))))"
    by (rule forEachE_layer_ok) (rule cityRemoveItem_ok)
  then have "layer_ok (fst (forEachE ?upd upds (fst (forEachE (cityRemoveItem a) rems
      (fst (forEachE ?add adds s))))))"
    by (rule forEachE_layer_ok) (rule cityUpdateItem_ok)
  with s1 s2 assms UpdateCitys show ?thesis
    by (auto simp: onUpdateCitys_def seqE_def split: option.splits if_splits)
next
  case (UpdateCity c)
  with assms show ?thesis by (auto simp: onUpdateCity_def Let_def layer_ok_addItem)
next
  case (CityShowAreas adds rems)
  with assms show ?thesis by (auto simp: layer_ok_udpateShowAreas)
qed

text \<open>With a proxy that knows every city asked for, each addition binds the city's id in
  the area, each removal unbinds one, an update binds nothing, and none of them throws.\<close>

lemma cityAddItem_ids:
  assumes "itemMap s a = Some l" "getCity i = Some c" "getIdByData c = i"
  shows "\<exists>t l'. cityAddItem a (getCity i) s = (t, None) \<and> itemMap t = (itemMap s)(a \<mapsto> l')
    \<and> dom (map_of l') = insert i (dom (map_of l))"
proof -
  obtain r t where rt: "addItem getIdByData a c s = (r, t)" by fastforce
  from addItem_map_of [OF assms(1) rt] obtain n l' where
    "itemMap t = (itemMap s)(a \<mapsto> l')" "map_of l' = (map_of l)(i \<mapsto> n)"
    using assms(3) by auto
  moreover have "cityAddItem a (getCity i) s = (t, None)" using assms(1,2) rt by (simp add: cityAddItem_def)
  ultimately show ?thesis by (auto intro!: exI [of _ l'])
qed

lemma forEachE_cityAddItem_ids:
  assumes "itemMap s a = Some l" "\<forall>i \<in> set adds. \<exists>c. getCity i = Some c \<and> getIdByData c = i"
  shows "\<exists>t l'. forEachE (\<lambda>i. cityAddItem a (getCity i)) adds s = (t, None)
    \<and> itemMap t = (itemMap s)(a \<mapsto> l') \<and> dom (map_of l') = dom (map_of l) \<union> set adds"
  using assms
proof (induction adds arbitrary: s l)
  case Nil
  then show ?case by (auto intro!: exI [of _ l])
next
  case (Cons i adds)
  then obtain c where c: "getCity i = Some c" "getIdByData c = i" by auto
  from cityAddItem_ids [of s a l getCity i c, OF Cons.prems(1) c] obtain t1 l1 where
    e: "cityAddItem a (getCity i) s = (t1, None)" and m: "itemMap t1 = (itemMap s)(a \<mapsto> l1)"
    and d: "dom (map_of l1) = insert i (dom (map_of l))" by blast
  from m have t1: "itemMap t1 a = Some l1" by simp
  have "\<forall>i \<in> set adds. \<exists>c. getCity i = Some c \<and> getIdByData c = i" using Cons.prems(2) by simp
  from Cons.IH [OF t1 this] obtain t2 l2 where
    "forEachE (\<lambda>i. cityAddItem a (getCity i)) adds t1 = (t2, None)"
    "itemMap t2 = (itemMap t1)(a \<mapsto> l2)" "dom (map_of l2) = dom (map_of l1) \<union> set adds" by blast
  with e m d show ?case by (auto intro!: exI [of _ l2])
qed

lemma forEachE_cityRemoveItem_ids:
  assumes "itemMap s a = Some l"
  shows "\<exists>t l'. forEachE (cityRemoveItem a) rems s = (t, None)
    \<and> itemMap t = (itemMap s)(a \<mapsto> l') \<and> dom (map_of l') = dom (map_of l) - set rems"
  using assms
proof (induction rems arbitrary: s l)
  case Nil
  then show ?case by (auto intro!: exI [of _ l])
next
  case (Cons i rems)
  from removeItem_map_of [OF Cons.prems, of i] obtain b t1 l1 where
    r: "removeItem a i s = Inr (b, t1)" and m: "itemMap t1 = (itemMap s)(a \<mapsto> l1)"
    and d: "map_of l1 = (map_of l)(i := None)" by blast
  from m have t1: "itemMap t1 a = Some l1" by simp
  from Cons.IH [OF t1] obtain t2 l2 where
    "forEachE (cityRemoveItem a) rems t1 = (t2, None)"
    "itemMap t2 = (itemMap t1)(a \<mapsto> l2)" "dom (map_of l2) = dom (map_of l1) - set rems" by blast
  moreover have "cityRemoveItem a i s = (t1, None)" using r by (simp add: cityRemoveItem_def)
  ultimately show ?case using m d by (auto intro!: exI [of _ l2])
qed

lemma forEachE_cityUpdateItem_ids:
  assumes "\<forall>i \<in> set upds. getCity i \<noteq> None"
  shows "\<exists>t. forEachE (\<lambda>i. cityUpdateItem a (getCity i)) upds s = (t, None) \<and> itemMap t = itemMap s"
  using assms
proof (induction upds arbitrary: s)
  case (Cons i upds)
  then obtain c where "getCity i = Some c" by auto
  then have "cityUpdateItem a (getCity i) s = (fst (cityUpdateItem a (getCity i) s), None)"
    "itemMap (fst (cityUpdateItem a (getCity i) s)) = itemMap s"
    by (auto simp: cityUpdateItem_def split: option.splits)
  with Cons show ?case by (metis forEachE.simps(2) list.set_intros(2) seqE_None)
qed simp

text \<open>Adding cities the proxy knows never throws and keeps the area shown.\<close>

lemma forEachE_cityAddItem_known:
  assumes "itemMap s a \<noteq> None" "\<forall>i \<in> set adds. getCity i \<noteq> None"
  shows "forEachE (\<lambda>i. cityAddItem a (getCity i)) adds s
      = (fst (forEachE (\<lambda>i. cityAddItem a (getCity i)) adds s), None)
    \<and> itemMap (fst (forEachE (\<lambda>i. cityAddItem a (getCity i)) adds s)) a \<noteq> None"
proof -
  have step: "snd (cityAddItem a (getCity i) t) = None \<and> itemMap (fst (cityAddItem a (getCity i) t)) a \<noteq> None"
    if "i \<in> set adds" "itemMap t a \<noteq> None" for i t
  proof -
    from that(2) obtain l where l: "itemMap t a = Some l" by blast
    from that(1) assms(2) obtain c where c: "getCity i = Some c" by blast
    obtain r t' where rt: "addItem getIdByData a c t = (r, t')" by fastforce
    from addItem_map_of [OF l rt] have "itemMap t' a \<noteq> None" by auto
    with l c rt show ?thesis by (simp add: cityAddItem_def)
  qed
  have "forEachE (\<lambda>i. cityAddItem a (getCity i)) adds s
      = (fold (\<lambda>x t. fst (cityAddItem a (getCity x) t)) adds s, None)"
    using step assms(1) by (rule forEachE_fold)
  moreover have "itemMap (fst (forEachE (\<lambda>i. cityAddItem a (getCity i)) adds s)) a \<noteq> None"
    by (rule forEachE_inv [where P = "\<lambda>t. itemMap t a \<noteq> None"]) (use step assms(1) in auto)
  ultimately show ?thesis by simp
qed

section \<open>Properties of the city layer\<close>

text \<open>C27: on a shown area, with a city proxy that knows every city added or updated,
  \<open>onUpdateCitys\<close> does not throw, shows the same areas, leaves the other areas alone,
  and the area then holds exactly its former cities and the added ones, less the removed
  ones (additions are made before removals).\<close>

theorem onUpdateCitys_ids:
  assumes "a \<in> shownAreas s"
    and "\<forall>i \<in> set addIds \<union> set updateIds. \<exists>c. getCity i = Some c \<and> getIdByData c = i"
  shows "\<exists>t. onUpdateCitys getCity a addIds removeIds updateIds s = (t, None)
    \<and> shownAreas t = shownAreas s \<and> areaItemIds t a = (areaItemIds s a \<union> set addIds) - set removeIds
    \<and> (\<forall>b. b \<noteq> a \<longrightarrow> itemMap t b = itemMap s b)"
proof -
  obtain l where l: "itemMap s a = Some l" using assms(1) by (auto simp: shownAreas_def)
  have "\<forall>i \<in> set addIds. \<exists>c. getCity i = Some c \<and> getIdByData c = i" using assms(2) by simp
  from forEachE_cityAddItem_ids [OF l this] obtain t1 l1 where
    a1: "forEachE (\<lambda>i. cityAddItem a (getCity i)) addIds s = (t1, None)"
    and m1: "itemMap t1 = (itemMap s)(a \<mapsto> l1)" and d1: "dom (map_of l1) = dom (map_of l) \<union> set addIds"
    by blast
  from m1 have "itemMap t1 a = Some l1" by simp
  from forEachE_cityRemoveItem_ids [OF this] obtain t2 l2 where
    a2: "forEachE (cityRemoveItem a) removeIds t1 = (t2, None)"
    and m2: "itemMap t2 = (itemMap t1)(a \<mapsto> l2)" and d2: "dom (map_of l2) = dom (map_of l1) - set removeIds"
    by blast
  have "\<forall>i \<in> set updateIds. getCity i \<noteq> None" using assms(2) by auto
  from forEachE_cityUpdateItem_ids [OF this] obtain t3 where
    a3: "forEachE (\<lambda>i. cityUpdateItem a (getCity i)) updateIds t2 = (t3, None)" and m3: "itemMap t3 = itemMap t2"
    by blast
  have "onUpdateCitys getCity a addIds removeIds updateIds s = (t3, None)"
    using l a1 a2 a3 by (simp add: onUpdateCitys_def)
  moreover have "shownAreas t3 = shownAreas s" using m1 m2 m3 l by (auto simp: shownAreas_def)
  moreover have "areaItemIds t3 a = (areaItemIds s a \<union> set addIds) - set removeIds"
    using m1 m2 m3 d1 d2 l by (simp add: areaItemIds_def)
  ultimately show ?thesis using m1 m2 m3 by auto
qed

theorem onUpdateCitys_ids_witness:
  "\<exists>t. onUpdateCitys demo_getCity 0 [7, 8] [7] [8] (addArea 0 initLayer) = (t, None) \<and> areaItemIds t 0 = {8}"
proof -
  have "0 \<in> shownAreas (addArea 0 initLayer :: cityLayer)" by (simp add: shownAreas_addArea)
  moreover have "\<forall>i \<in> set [7, 8] \<union> set [8]. \<exists>c. demo_getCity i = Some c \<and> getIdByData c = i"
    by (simp add: demo_getCity_def demo_city_def getIdByData_def)
  moreover have "areaItemIds (addArea 0 initLayer) 0 = {}" by (simp add: areaItemIds_def addArea_def initLayer_def)
  ultimately show ?thesis using onUpdateCitys_ids [of 0 "addArea 0 initLayer" "[7, 8]" "[8]" demo_getCity "[7]"]
    by auto
qed

text \<open>C28: a city the proxy does not know aborts \<open>onUpdateCitys\<close>: when the \<open>k\<close>-th added
  id is the first unknown one, \<open>getIdByData(null)\<close> throws a \<open>TypeError\<close>, the cities
  added before it stay on the layer, and no removal or update of the batch is made.\<close>

theorem onUpdateCitys_unknown_city:
  assumes "a \<in> shownAreas s" "k < length addIds" "getCity (addIds ! k) = None"
    and "\<forall>i \<in> set (take k addIds). getCity i \<noteq> None"
  shows "onUpdateCitys getCity a addIds removeIds updateIds s
    = (fst (forEachE (\<lambda>i. cityAddItem a (getCity i)) (take k addIds) s), Some TypeError)"
proof -
  let ?f = "\<lambda>i. cityAddItem a (getCity i)"
  let ?t = "fst (forEachE ?f (take k addIds) s)"
  have sh: "itemMap s a \<noteq> None" using assms(1) by (auto simp: shownAreas_def)
  note k = forEachE_cityAddItem_known [OF sh assms(4)]
  have "addIds = take k addIds @ addIds ! k # drop (Suc k) addIds" by (rule id_take_nth_drop [OF assms(2)])
  then have "forEachE ?f addIds s = seqE (forEachE ?f (take k addIds) s) (forEachE ?f (addIds ! k # drop (Suc k) addIds))"
    by (metis forEachE_append)
  also have "\<dots> = forEachE ?f (addIds ! k # drop (Suc k) addIds) ?t" by (subst conjunct1 [OF k]) simp
  also have "\<dots> = (?t, Some TypeError)" using conjunct2 [OF k] assms(3) by (auto simp: cityAddItem_def)
  finally show ?thesis using sh by (simp add: onUpdateCitys_def)
qed

theorem onUpdateCitys_unknown_city_witness:
  "onUpdateCitys demo_getCity 0 [7, 9, 8] [7] [8] (addArea 0 initLayer)
     = (fst (forEachE (\<lambda>i. cityAddItem 0 (demo_getCity i)) [7] (addArea 0 initLayer)), Some TypeError)
   \<and> areaItemIds (fst (forEachE (\<lambda>i. cityAddItem 0 (demo_getCity i)) [7] (addArea 0 initLayer))) 0 = {7}"
proof -
  have "0 \<in> shownAreas (addArea 0 initLayer :: cityLayer)" by (simp add: shownAreas_addArea)
  from onUpdateCitys_unknown_city [OF this, of 1 "[7, 9, 8]" demo_getCity "[7]" "[8]"]
  have "onUpdateCitys demo_getCity 0 [7, 9, 8] [7] [8] (addArea 0 initLayer)
     = (fst (forEachE (\<lambda>i. cityAddItem 0 (demo_getCity i)) [7] (addArea 0 initLayer)), Some TypeError)"
    by (simp add: demo_getCity_def)
  moreover have "areaItemIds (fst (forEachE (\<lambda>i. cityAddItem 0 (demo_getCity i)) [7] (addArea 0 initLayer))) 0 = {7}"
    by (simp add: demo_getCity_def demo_city_def cityAddItem_def addArea_def initLayer_def addItem_def
        createItem_def setParent_def updateItem_def setItemData_def areaItemIds_def getIdByData_def)
  ultimately show ?thesis by simp
qed

text \<open>\<open>onUpdateCity\<close> shows a city in the area of its cell when that area is shown:
  the city's id then names a node that holds the city and stands on the centre pixel of
  the city's cell. When the area is not shown the layer is unchanged.\<close>

theorem onUpdateCity_placed:
  "if getAreaIdByCellPoint u (city_x c) (city_y c) \<in> shownAreas s then
     (\<exists>n. getItem (getAreaIdByCellPoint u (city_x c) (city_y c)) (cityId c) (onUpdateCity u c s) = Inr (Some n)
        \<and> cityNodePosition u (onUpdateCity u c s) n = Some (mapCellToPixelPoint u (city_x c, city_y c)))
   else onUpdateCity u c s = s"
proof (cases "getAreaIdByCellPoint u (city_x c) (city_y c) \<in> shownAreas s")
  case True
  let ?a = "getAreaIdByCellPoint u (city_x c) (city_y c)"
  obtain l where l: "itemMap s ?a = Some l" using True by (auto simp: shownAreas_def)
  obtain r t where rt: "addItem getIdByData ?a c s = (r, t)" by fastforce
  from addItem_map_of [OF l rt] obtain n l' where
    "itemMap t = (itemMap s)(?a \<mapsto> l')" "map_of l' = (map_of l)(cityId c \<mapsto> n)" "itemData t n = Some c"
    by (auto simp: getIdByData_def)
  moreover have "onUpdateCity u c s = t" using l rt by (simp add: onUpdateCity_def)
  ultimately show ?thesis using True by (auto simp: getItem_def cityNodePosition_def)
next
  case False
  then show ?thesis by (simp add: onUpdateCity_def shownAreas_def domIff)
qed

end
