(* ===== verification/MapTouchLogic.thy ===== *)
theory MapTouchLogic
  imports MapLogic MapCityLogic MapResources
begin

text \<open>
  The tap dispatcher \<open>MapTouchLogic\<close> of \<^verbatim>\<open>src/assets/scripts/map/MapTouchLogic.ts\<close>. It
  listens to the controller's \<open>touchMap\<close> and \<open>moveMap\<close> events (theory \<open>MapLogic\<close>) and
  shows one reusable click panel (\<open>_clickUINode\<close>) for what lies under a tapped cell: a
  city, else a building occupied by a player, else a resource cell, where a cell inside a
  system city's influence square shows that city. The panel is the record
  \<open>mapTouchLogic\<close>: whether the node exists, whether it is attached to the \<open>touch\<close>
  container, the data and position last given to it, and how many nodes \<open>instantiate\<close>
  has created. The city and building proxies are not in the repository: their lookups
  are the parameters of \<open>touch_env\<close>, and a building is the record \<open>mapBuildData\<close> of
  what the dispatcher and \<open>MapCommand\<close> read (its cell, \<open>isSysCity()\<close>, owner, alliance and
  parent alliance, \<open>isWarFree()\<close> and \<open>getCellRadius()\<close>). The resource lookups are the
  ones of theory \<open>MapResources\<close>. Reading \<open>resData.type\<close> when \<open>getResData\<close> answers
  \<open>undefined\<close> throws a \<open>TypeError\<close>, after the panel has been detached.
\<close>

record mapBuildData =
  buildId :: int
  build_x :: int
  build_y :: int
  isSysCity :: bool
  b_rid :: int
  b_unionId :: int
  b_parentId :: int
  b_warFree :: bool
  b_cellRadius :: int

record touch_env =
  te_getCity :: "int \<Rightarrow> mapCityData option"
  te_getBuild :: "int \<Rightarrow> mapBuildData option"

datatype click_data = ClickCity mapCityData | ClickBuild mapBuildData | ClickRes mapResData

record mapTouchLogic =
  clickUINode :: bool
  clickParent :: bool
  clickCellData :: "(click_data \<times> rpoint) option"
  instantiated :: nat

definition initTouchLogic :: mapTouchLogic where
  "initTouchLogic = \<lparr> clickUINode = False, clickParent = False, clickCellData = None, instantiated = 0 \<rparr>"

definition removeClickUINode :: "mapTouchLogic \<Rightarrow> mapTouchLogic" where
  "removeClickUINode s = (if clickUINode s then s\<lparr>clickParent := False\<rparr> else s)"

definition showClickUINode :: "click_data \<Rightarrow> rpoint \<Rightarrow> mapTouchLogic \<Rightarrow> mapTouchLogic" where
  "showClickUINode data pos s =
     (let s1 = (if \<not> clickUINode s then s\<lparr>clickUINode := True, instantiated := Suc (instantiated s)\<rparr> else s)
      in s1\<lparr>clickParent := True, clickCellData := Some (data, pos)\<rparr>)"

definition onTouchMap ::
  "touch_env \<Rightarrow> map_util \<Rightarrow> mapProxy \<Rightarrow> ipoint \<Rightarrow> rpoint \<Rightarrow> mapTouchLogic
     \<Rightarrow> mapTouchLogic \<times> layer_error option" where
  "onTouchMap env u p mapPoint clickPixelPoint s =
     (let s1 = removeClickUINode s in
      if \<not> isVaildCellPoint u mapPoint then (s1, None)
      else
        (let cellId = getIdByCellPoint u (fst mapPoint) (snd mapPoint) in
         case te_getCity env cellId of
           Some cityData \<Rightarrow>
             (showClickUINode (ClickCity cityData) (mapCellToPixelPoint u (city_x cityData, city_y cityData)) s1, None)
         | None \<Rightarrow>
             (let buildData = te_getBuild env cellId in
              if buildData \<noteq> None \<and> \<not> isSysCity (the buildData) then
                (showClickUINode (ClickBuild (the buildData)) clickPixelPoint s1, None)
              else
                (case getResData cellId p of
                   None \<Rightarrow> (s1, Some TypeError)
                 | Some resData \<Rightarrow>
                     if 0 < res_type resData then
                       (case getSysCityResData (res_x resData) (res_y resData) p of
                          Some temp \<Rightarrow>
                            (let pos = mapCellToPixelPoint u (res_x temp, res_y temp);
                                 tempId = getIdByCellPoint u (res_x temp) (res_y temp)
                             in case te_getBuild env tempId of
                                  Some b \<Rightarrow> (showClickUINode (ClickBuild b) pos s1, None)
                                | None \<Rightarrow> (showClickUINode (ClickRes temp) pos s1, None))
                        | None \<Rightarrow> (showClickUINode (ClickRes resData) clickPixelPoint s1, None))
                     else (s1, None)))))"

definition onMoveMap :: "mapTouchLogic \<Rightarrow> mapTouchLogic" where
  "onMoveMap s = removeClickUINode s"

text \<open>The listener registered in \<open>onLoad\<close>: the controller's events in the order it
  emits them; the proxy's events are not for this component.\<close>

fun touchHandle ::
  "touch_env \<Rightarrow> map_util \<Rightarrow> mapProxy \<Rightarrow> map_event \<Rightarrow> mapTouchLogic \<Rightarrow> mapTouchLogic \<times> layer_error option"
  where
  "touchHandle env u p (TouchMapEv mapPoint clickPixelPoint) s = onTouchMap env u p mapPoint clickPixelPoint s"
| "touchHandle env u p MoveMapEv s = (onMoveMap s, None)"
| "touchHandle env u p (ProxyEv e) s = (s, None)"

inductive touch_reach :: "touch_env \<Rightarrow> map_util \<Rightarrow> mapProxy \<Rightarrow> mapTouchLogic \<Rightarrow> bool" for env u p where
  init: "touch_reach env u p initTouchLogic"
| step: "touch_reach env u p s \<Longrightarrow> touchHandle env u p ev s = (t, err) \<Longrightarrow> touch_reach env u p t"

text \<open>The panel's invariant: a node is created at most once and only while none exists,
  and an attached panel shows some data.\<close>

definition touch_ok :: "mapTouchLogic \<Rightarrow> bool" where
  "touch_ok s \<longleftrightarrow> instantiated s = (if clickUINode s then 1 else 0)
     \<and> (clickParent s \<longrightarrow> clickUINode s \<and> clickCellData s \<noteq> None)"

definition demo_env :: touch_env where
  "demo_env = \<lparr> te_getCity = demo_getCity, te_getBuild = (\<lambda>i. None) \<rparr>"

section \<open>The panel\<close>

lemma touch_ok_remove: "touch_ok s \<Longrightarrow> touch_ok (removeClickUINode s)"
  by (auto simp: touch_ok_def removeClickUINode_def)

lemma touch_ok_show: "touch_ok s \<Longrightarrow> touch_ok (showClickUINode d pos s)"
  by (simp add: touch_ok_def showClickUINode_def Let_def)

lemma touch_ok_onTouchMap:
  assumes "touch_ok s" "onTouchMap env u p mp px s = (t, err)"
  shows "touch_ok t"
proof -
  have r: "touch_ok (removeClickUINode s)" using assms(1) by (rule touch_ok_remove)
  have sh: "touch_ok (showClickUINode d pos (removeClickUINode s))" for d pos
    using r by (rule touch_ok_show)
  from r assms(2) show ?thesis
    by (auto simp: onTouchMap_def Let_def sh split: option.splits if_splits)
qed

lemma touch_ok_step: "touch_ok s \<Longrightarrow> touchHandle env u p ev s = (t, err) \<Longrightarrow> touch_ok t"
  by (cases ev) (auto simp: onMoveMap_def touch_ok_remove intro: touch_ok_onTouchMap)

lemma forEachE_touchHandle_proxy:
  "forEachE (touchHandle env u p) (map ProxyEv es) s = (s, None)"
  by (induction es) simp_all

section \<open>Properties of the dispatcher\<close>

text \<open>C29: whatever taps and moves reach it, the dispatcher creates at most one click
  panel, creates it only once none exists, and attaches it only with data to show.\<close>

theorem touch_reach_ok:
  assumes "touch_reach env u p s"
  shows "touch_ok s \<and> instantiated s \<le> 1"
proof -
  from assms have "touch_ok s"
  proof (induction rule: touch_reach.induct)
    case init
    then show ?case by (simp add: touch_ok_def initTouchLogic_def)
  next
    case (step s ev t err)
    from step.IH step.hyps(2) show ?case by (rule touch_ok_step)
  qed
  then show ?thesis by (simp add: touch_ok_def)
qed

theorem touch_reach_ok_witness:
  "instantiated (fst (touchHandle demo_env demo_util initProxy (TouchMapEv (3, 4) (0, 0))
      (fst (touchHandle demo_env demo_util initProxy (TouchMapEv (3, 4) (0, 0)) initTouchLogic)))) \<le> 1"
proof -
  let ?e = "TouchMapEv (3, 4) (0, 0)"
  let ?s1 = "fst (touchHandle demo_env demo_util initProxy ?e initTouchLogic)"
  have r1: "touch_reach demo_env demo_util initProxy ?s1"
    by (rule touch_reach.step [OF touch_reach.init, where ev = ?e
          and err = "snd (touchHandle demo_env demo_util initProxy ?e initTouchLogic)"]) simp
  have "touch_reach demo_env demo_util initProxy (fst (touchHandle demo_env demo_util initProxy ?e ?s1))"
    by (rule touch_reach.step [OF r1, where ev = ?e and err = "snd (touchHandle demo_env demo_util initProxy ?e ?s1)"]) simp
  then show ?thesis using touch_reach_ok by blast
qed

text \<open>C30: a tap on a valid cell with no city, no building held by a player and no
  entry in the proxy's resource list (for instance before \<open>initMapResConfig\<close> has run)
  throws a \<open>TypeError\<close> at \<open>resData.type\<close>; the panel has already been detached.\<close>

theorem onTouchMap_missing_resource:
  assumes "isVaildCellPoint u mp"
    and "te_getCity env (getIdByCellPoint u (fst mp) (snd mp)) = None"
    and "\<forall>b. te_getBuild env (getIdByCellPoint u (fst mp) (snd mp)) = Some b \<longrightarrow> isSysCity b"
    and "int (length (mapResDatas p)) \<le> getIdByCellPoint u (fst mp) (snd mp)"
  shows "onTouchMap env u p mp px s = (removeClickUINode s, Some TypeError)"
proof -
  have "getResData (getIdByCellPoint u (fst mp) (snd mp)) p = None"
    using assms(4) by (simp add: getResData_def)
  moreover have "\<not> (te_getBuild env (getIdByCellPoint u (fst mp) (snd mp)) \<noteq> None
      \<and> \<not> isSysCity (the (te_getBuild env (getIdByCellPoint u (fst mp) (snd mp)))))"
    using assms(3) by (cases "te_getBuild env (getIdByCellPoint u (fst mp) (snd mp))") auto
  ultimately show ?thesis using assms(1,2) by (simp add: onTouchMap_def Let_def)
qed

theorem onTouchMap_missing_resource_witness:
  "onTouchMap demo_env demo_util initProxy (0, 0) (0, 1216) initTouchLogic = (initTouchLogic, Some TypeError)"
proof -
  have "isVaildCellPoint demo_util (0, 0)" by (simp add: isVaildCellPoint_def demo_util_eq)
  moreover have "getIdByCellPoint demo_util 0 0 = 0" by (simp add: getIdByCellPoint_def demo_util_eq)
  ultimately show ?thesis
    using onTouchMap_missing_resource [of demo_util "(0, 0)" demo_env initProxy "(0, 1216)" initTouchLogic]
    by (simp add: demo_env_def demo_getCity_def initProxy_def removeClickUINode_def initTouchLogic_def)
qed

end
