(* ===== verification/MapCommand.thy ===== *)
theory MapCommand
  imports MapTouchLogic
begin

text \<open>
  The command centre \<open>MapCommand\<close> (lines 216-806 of
  \<^verbatim>\<open>src/assets/scripts/map/MapBaseLayerLogic.ts\<close>): the singleton that owns the map proxy
  (theories \<open>MapProxy\<close>, \<open>MapResources\<close>), the city and the building proxy, answers the
  server's messages, sends the client's requests and decides the game rules of ownership,
  war immunity, marching and occupation. Its state is the record \<open>mapCommand\<close>.
  \<open>MapCityProxy\<close> and \<open>MapBuildProxy\<close> are not in the repository: of each the model keeps
  the lookup by cell id and the player's ids the command sets (\<open>cityProxyView\<close>,
  \<open>buildProxyView\<close>), and the methods it calls on them are the parameters
  \<open>proxy_ops\<close>, over the message payload type \<open>'j\<close>. A request handed to
  \<open>NetManager.send\<close> and an event emitted through \<open>EventMgr\<close> are outputs (\<open>cmd_out\<close>),
  in the order the code produces them; the calls into \<open>MapUICommand\<close>,
  \<open>GeneralCommand\<close> and \<open>ArmyCommand\<close> are recorded as outputs too. A handler that throws
  returns the state it reached and the error.
\<close>

record cityProxyView =
  cp_getCity :: "int \<Rightarrow> mapCityData option"
  cp_myId :: int
  cp_myUnionId :: int
  cp_myParentId :: int

record buildProxyView =
  bp_getBuild :: "int \<Rightarrow> mapBuildData option"
  bp_myId :: int
  bp_myUnionId :: int
  bp_myParentId :: int

record mapCommand =
  cmd_proxy :: mapProxy
  cmd_cityProxy :: cityProxyView
  cmd_buildProxy :: buildProxyView
  isQryMyProperty :: bool

datatype request =
    QryRoleMyProperty
  | QryRoleMyCity
  | QryNationMapConfig
  | QryNationMapScanBlock int int int
  | GiveUpBuild int int
  | BuildReq int int int
  | UpBuild int int
  | DelBuild int int
  | UpPosition int int
  | PosTagListReq
  | OpPosTagReq int int int string

datatype cmd_out =
    Send request
  | EmitEnterMap
  | EmitUpdateTag
  | EmitUnionChange int int int
  | UIUpdateMyProperty
  | GeneralUpdateMyProperty
  | ArmyUpdateMyProperty

text \<open>The server's messages the constructor registers a listener for, with the fields
  the handlers read: the result \<open>code\<close>, the payload, and \<open>otherData.id\<close>.\<close>

datatype 'j server_msg =
    RoleMyProperty int 'j
  | RoleBuildPush int 'j
  | NationMapConfig int "json list"
  | NationMapScanBlock int 'j int
  | NationMapGiveUp
  | NationMapBuild
  | NationMapUpBuild
  | PosTagList int "(int \<times> int \<times> string) list"
  | OpPosTag int int int int string
  | RoleCityPush 'j int int int

record 'j proxy_ops =
  cityInitData :: "cityProxyView \<Rightarrow> cityProxyView"
  cityClearData :: "cityProxyView \<Rightarrow> cityProxyView"
  buildInitData :: "buildProxyView \<Rightarrow> buildProxyView"
  buildClearData :: "buildProxyView \<Rightarrow> buildProxyView"
  initMyCitys :: "'j \<Rightarrow> cityProxyView \<Rightarrow> cityProxyView"
  initMyBuilds :: "'j \<Rightarrow> buildProxyView \<Rightarrow> buildProxyView"
  getMyPlayerId :: "cityProxyView \<Rightarrow> int"
  getMyMainCity :: "cityProxyView \<Rightarrow> mapCityData option"
  updateBuild :: "'j \<Rightarrow> buildProxyView \<Rightarrow> buildProxyView"
  citySetMapScanBlock :: "'j \<Rightarrow> int \<Rightarrow> cityProxyView \<Rightarrow> cityProxyView"
  buildSetMapScanBlock :: "'j \<Rightarrow> int \<Rightarrow> buildProxyView \<Rightarrow> buildProxyView"
  updateSub :: "int \<Rightarrow> int \<Rightarrow> int \<Rightarrow> buildProxyView \<Rightarrow> buildProxyView"
  updateCity :: "'j \<Rightarrow> cityProxyView \<Rightarrow> cityProxyView"

section \<open>Data and requests\<close>

definition cmd_initData :: "'j proxy_ops \<Rightarrow> map_util \<Rightarrow> mapCommand \<Rightarrow> mapCommand" where
  "cmd_initData ops u s =
     s\<lparr>cmd_proxy := initData u (cmd_proxy s), cmd_cityProxy := cityInitData ops (cmd_cityProxy s),
       cmd_buildProxy := buildInitData ops (cmd_buildProxy s)\<rparr>"

definition cmd_clearData :: "'j proxy_ops \<Rightarrow> mapCommand \<Rightarrow> mapCommand" where
  "cmd_clearData ops s =
     s\<lparr>cmd_proxy := clearData (cmd_proxy s), cmd_cityProxy := cityClearData ops (cmd_cityProxy s),
       cmd_buildProxy := buildClearData ops (cmd_buildProxy s), isQryMyProperty := False\<rparr>"

definition qryRoleMyProperty :: cmd_out where "qryRoleMyProperty = Send QryRoleMyProperty"
definition qryRoleMyCity :: cmd_out where "qryRoleMyCity = Send QryRoleMyCity"
definition qryNationMapConfig :: cmd_out where "qryNationMapConfig = Send QryNationMapConfig"

definition qryNationMapScanBlock :: "mapAreaData \<Rightarrow> cmd_out" where
  "qryNationMapScanBlock qryData =
     Send (QryNationMapScanBlock (startCellX qryData) (startCellY qryData) (area_len qryData))"

definition giveUpBuild :: "int \<Rightarrow> int \<Rightarrow> cmd_out" where "giveUpBuild x y = Send (GiveUpBuild x y)"
definition build :: "int \<Rightarrow> int \<Rightarrow> int \<Rightarrow> cmd_out" where "build x y type = Send (BuildReq x y type)"
definition upBuild :: "int \<Rightarrow> int \<Rightarrow> cmd_out" where "upBuild x y = Send (UpBuild x y)"
definition delBuild :: "int \<Rightarrow> int \<Rightarrow> cmd_out" where "delBuild x y = Send (DelBuild x y)"
definition upPosition :: "int \<Rightarrow> int \<Rightarrow> cmd_out" where "upPosition x y = Send (UpPosition x y)"
definition posTagList :: cmd_out where "posTagList = Send PosTagListReq"

definition opPosTag :: "int \<Rightarrow> int \<Rightarrow> int \<Rightarrow> string \<Rightarrow> cmd_out" where
  "opPosTag type x y name = Send (OpPosTagReq type x y name)"

text \<open>\<open>enterMap\<close> asks for what is missing, the configuration first, and announces the
  map only when both the configuration and the player's property have arrived.\<close>

definition enterMap :: "mapCommand \<Rightarrow> cmd_out list" where
  "enterMap s =
     (if \<not> hasResConfig (cmd_proxy s) then [qryNationMapConfig]
      else if \<not> isQryMyProperty s then [qryRoleMyProperty]
      else [EmitEnterMap])"

section \<open>Message handlers\<close>

text \<open>\<open>onRoleMyProperty\<close> reads \<open>getMyMainCity()\<close> three times (lines 351-354; the last two
  reads see the same proxy and answer alike); a \<open>null\<close> main city throws at \<open>.unionId\<close>
  or \<open>.parentId\<close>.\<close>

definition onRoleMyProperty ::
  "'j proxy_ops \<Rightarrow> int \<Rightarrow> 'j \<Rightarrow> mapCommand \<Rightarrow> mapCommand \<times> cmd_out list \<times> layer_error option" where
  "onRoleMyProperty ops code msg s =
     (if code = 0 then
        (let outs1 = [UIUpdateMyProperty, GeneralUpdateMyProperty, ArmyUpdateMyProperty];
             cp1 = initMyCitys ops msg (cmd_cityProxy s);
             bp1 = initMyBuilds ops msg (cmd_buildProxy s);
             cp2 = cp1\<lparr>cp_myId := getMyPlayerId ops cp1\<rparr>;
             bp2 = bp1\<lparr>bp_myId := getMyPlayerId ops cp2\<rparr>;
             s1 = s\<lparr>isQryMyProperty := True, cmd_cityProxy := cp2, cmd_buildProxy := bp2\<rparr>
         in case getMyMainCity ops cp2 of
              None \<Rightarrow> (s1, outs1, Some TypeError)
            | Some m1 \<Rightarrow>
                (let cp3 = cp2\<lparr>cp_myUnionId := unionId m1\<rparr> in
                 case getMyMainCity ops cp3 of
                   None \<Rightarrow> (s1\<lparr>cmd_cityProxy := cp3\<rparr>, outs1, Some TypeError)
                 | Some m2 \<Rightarrow>
                     (let cp4 = cp3\<lparr>cp_myParentId := parentId m2\<rparr> in
                      case getMyMainCity ops cp4 of
                        None \<Rightarrow> (s1\<lparr>cmd_cityProxy := cp4\<rparr>, outs1, Some TypeError)
                      | Some m3 \<Rightarrow>
                          (let s2 = s1\<lparr>cmd_cityProxy := cp4,
                                       cmd_buildProxy := bp2\<lparr>bp_myUnionId := unionId m3, bp_myParentId := parentId m3\<rparr>\<rparr>
                           in (s2, outs1 @ [posTagList] @ enterMap s2, None)))))
      else (s, [], None))"

definition onRoleBuildStatePush :: "'j proxy_ops \<Rightarrow> int \<Rightarrow> 'j \<Rightarrow> mapCommand \<Rightarrow> mapCommand" where
  "onRoleBuildStatePush ops code msg s =
     (if code = 0 then s\<lparr>cmd_buildProxy := updateBuild ops msg (cmd_buildProxy s)\<rparr> else s)"

definition onNationMapConfig :: "int \<Rightarrow> json list \<Rightarrow> mapCommand \<Rightarrow> mapCommand \<times> cmd_out list" where
  "onNationMapConfig code confs s =
     (if code = 0 then
        (let s1 = s\<lparr>cmd_proxy := setNationMapConfig confs (cmd_proxy s)\<rparr> in (s1, enterMap s1))
      else (s, []))"

definition onNationMapScanBlock :: "'j proxy_ops \<Rightarrow> int \<Rightarrow> 'j \<Rightarrow> int \<Rightarrow> mapCommand \<Rightarrow> mapCommand" where
  "onNationMapScanBlock ops code msg qid s =
     (if code = 0 then
        s\<lparr>cmd_cityProxy := citySetMapScanBlock ops msg qid (cmd_cityProxy s),
          cmd_buildProxy := buildSetMapScanBlock ops msg qid (cmd_buildProxy s)\<rparr>
      else s)"

definition onPosTagList :: "int \<Rightarrow> (int \<times> int \<times> string) list \<Rightarrow> mapCommand \<Rightarrow> mapCommand" where
  "onPosTagList code tags s =
     (if code = 0 then s\<lparr>cmd_proxy := updateMapPosTags tags (cmd_proxy s)\<rparr> else s)"

definition onOpPosTag :: "int \<Rightarrow> int \<Rightarrow> int \<Rightarrow> int \<Rightarrow> string \<Rightarrow> mapCommand \<Rightarrow> mapCommand \<times> cmd_out list" where
  "onOpPosTag code type x y name s =
     (if code = 0 then
        (if type = 0 then (s\<lparr>cmd_proxy := removeMapPosTag x y (cmd_proxy s)\<rparr>, [EmitUpdateTag])
         else if type = 1 then (s\<lparr>cmd_proxy := addMapPosTag x y name (cmd_proxy s)\<rparr>, [EmitUpdateTag])
         else (s, []))
      else (s, []))"

definition onRoleCityPush ::
  "'j proxy_ops \<Rightarrow> 'j \<Rightarrow> int \<Rightarrow> int \<Rightarrow> int \<Rightarrow> mapCommand \<Rightarrow> mapCommand \<times> cmd_out list" where
  "onRoleCityPush ops msg r unionid parentid s =
     (s\<lparr>cmd_buildProxy := updateSub ops r unionid parentid (cmd_buildProxy s),
        cmd_cityProxy := updateCity ops msg (cmd_cityProxy s)\<rparr>,
      [EmitUnionChange r unionid parentid])"

text \<open>The listeners registered in the constructor, as one handler of a message. The
  \<open>giveUp\<close>, \<open>build\<close> and \<open>upBuild\<close> answers are only logged.\<close>

fun cmdHandle ::
  "'j proxy_ops \<Rightarrow> 'j server_msg \<Rightarrow> mapCommand \<Rightarrow> mapCommand \<times> cmd_out list \<times> layer_error option" where
  "cmdHandle ops (RoleMyProperty code msg) s = onRoleMyProperty ops code msg s"
| "cmdHandle ops (RoleBuildPush code msg) s = (onRoleBuildStatePush ops code msg s, [], None)"
| "cmdHandle ops (NationMapConfig code confs) s = (let (t, outs) = onNationMapConfig code confs s in (t, outs, None))"
| "cmdHandle ops (NationMapScanBlock code msg qid) s = (onNationMapScanBlock ops code msg qid s, [], None)"
| "cmdHandle ops NationMapGiveUp s = (s, [], None)"
| "cmdHandle ops NationMapBuild s = (s, [], None)"
| "cmdHandle ops NationMapUpBuild s = (s, [], None)"
| "cmdHandle ops (PosTagList code tags) s = (onPosTagList code tags s, [], None)"
| "cmdHandle ops (OpPosTag code type x y name) s = (let (t, outs) = onOpPosTag code type x y name s in (t, outs, None))"
| "cmdHandle ops (RoleCityPush msg r unionid parentid) s =
     (let (t, outs) = onRoleCityPush ops msg r unionid parentid s in (t, outs, None))"

section \<open>Game rules\<close>

definition isBuildSub :: "mapCommand \<Rightarrow> int \<Rightarrow> bool" where
  "isBuildSub s cellId =
     (case bp_getBuild (cmd_buildProxy s) cellId of
        None \<Rightarrow> False
      | Some b \<Rightarrow> b_rid b = bp_myId (cmd_buildProxy s)
          \<or> (0 < b_unionId b \<and> b_unionId b = bp_myUnionId (cmd_buildProxy s))
          \<or> (0 < b_parentId b \<and> b_parentId b = bp_myUnionId (cmd_buildProxy s)))"

definition isBuildWarFree :: "mapCommand \<Rightarrow> int \<Rightarrow> bool" where
  "isBuildWarFree s cellId = (case bp_getBuild (cmd_buildProxy s) cellId of None \<Rightarrow> False | Some b \<Rightarrow> b_warFree b)"

definition isCitySub :: "mapCommand \<Rightarrow> int \<Rightarrow> bool" where
  "isCitySub s cellId =
     (case cp_getCity (cmd_cityProxy s) cellId of
        None \<Rightarrow> False
      | Some c \<Rightarrow> rid c = cp_myId (cmd_cityProxy s)
          \<or> (0 < unionId c \<and> unionId c = cp_myUnionId (cmd_cityProxy s))
          \<or> (0 < parentId c \<and> parentId c = cp_myUnionId (cmd_cityProxy s)))"

text \<open>\<open>DateUtil.getServerTime()\<close> is the argument \<open>now\<close>.\<close>

definition isCityWarFree :: "mapCommand \<Rightarrow> int \<Rightarrow> int \<Rightarrow> bool" where
  "isCityWarFree s now cellId =
     (case cp_getCity (cmd_cityProxy s) cellId of
        None \<Rightarrow> False
      | Some c \<Rightarrow> 0 < parentId c \<and> now - occupyTime c < getWarFree (cmd_proxy s))"

definition isCanMoveCell :: "map_util \<Rightarrow> mapCommand \<Rightarrow> int \<Rightarrow> int \<Rightarrow> bool" where
  "isCanMoveCell u s x y = (let cellId = getIdByCellPoint u x y in isBuildSub s cellId \<or> isCitySub s cellId)"

text \<open>\<open>isCanOccupyCell\<close>: the cells of the \<open>21 x 21\<close> window around the target in the
  order of the two nested loops, the test the body makes on one of them, and the loop,
  which returns at the first cell that passes.\<close>

definition occupyWindow :: "int \<Rightarrow> int \<Rightarrow> (int \<times> int) list" where
  "occupyWindow x y = concat (map (\<lambda>tx. map (\<lambda>ty. (tx, ty)) [y - 10..y + 10]) [x - 10..x + 10])"

definition nearSub :: "map_util \<Rightarrow> mapCommand \<Rightarrow> int \<Rightarrow> int \<Rightarrow> int \<Rightarrow> int \<times> int \<Rightarrow> bool" where
  "nearSub u s x y radius p =
     (let cellId = getIdByCellPoint u (fst p) (snd p);
          absX = \<bar>x - fst p\<bar>; absY = \<bar>y - snd p\<bar>
      in (case cp_getCity (cmd_cityProxy s) cellId of
            Some c \<Rightarrow> absX \<le> radius + cityCellRadius c + 1 \<and> absY \<le> radius + cityCellRadius c + 1
                      \<and> isCitySub s cellId
          | None \<Rightarrow> False)
       \<or> (case bp_getBuild (cmd_buildProxy s) cellId of
            Some b \<Rightarrow> absX \<le> radius + b_cellRadius b + 1 \<and> absY \<le> radius + b_cellRadius b + 1
                      \<and> isBuildSub s cellId
          | None \<Rightarrow> False))"

fun occupyScan :: "map_util \<Rightarrow> mapCommand \<Rightarrow> int \<Rightarrow> int \<Rightarrow> int \<Rightarrow> (int \<times> int) list \<Rightarrow> bool" where
  "occupyScan u s x y radius [] = False"
| "occupyScan u s x y radius (p # ps) = (if nearSub u s x y radius p then True else occupyScan u s x y radius ps)"

text \<open>Lines 573-591: the target's own city or building, if any, sets the radius, and a
  war-immune one forbids the occupation (\<open>None\<close>).\<close>

definition occupyRadius :: "mapCommand \<Rightarrow> int \<Rightarrow> int \<Rightarrow> int option" where
  "occupyRadius s now cellId =
     (let cityData = cp_getCity (cmd_cityProxy s) cellId;
          buildData = bp_getBuild (cmd_buildProxy s) cellId
      in if cityData \<noteq> None \<and> isCityWarFree s now cellId then None
         else if buildData \<noteq> None \<and> isBuildWarFree s cellId then None
         else Some (case buildData of Some b \<Rightarrow> b_cellRadius b
                    | None \<Rightarrow> (case cityData of Some c \<Rightarrow> cityCellRadius c | None \<Rightarrow> 0)))"

definition isCanOccupyCell :: "map_util \<Rightarrow> mapCommand \<Rightarrow> int \<Rightarrow> int \<Rightarrow> int \<Rightarrow> bool" where
  "isCanOccupyCell u s now x y =
     (case occupyRadius s now (getIdByCellPoint u x y) of
        None \<Rightarrow> False
      | Some radius \<Rightarrow> occupyScan u s x y radius (occupyWindow x y))"

text \<open>What the occupation rule means, stated over the cells of the map and not over
  the loop's window, and without the code's helpers: a target that is not war-immune (a
  city with a parent alliance occupied less than \<open>warFree\<close> seconds ago, or a war-free
  building) may be occupied when some cell of the map, at most ten cells away in each
  direction, holds a city or building of the player's side (the player's own, the
  player's alliance's, or one whose parent alliance is the player's) whose distance in
  each direction is at most the target's radius plus its own radius plus one. The
  target's radius is its building's, else its city's, else 0.\<close>

definition sideOwns :: "int \<Rightarrow> int \<Rightarrow> int \<Rightarrow> int \<Rightarrow> int \<Rightarrow> bool" where
  "sideOwns myId myUnionId owner alliance parentAlliance \<longleftrightarrow>
     owner = myId \<or> (0 < alliance \<and> alliance = myUnionId) \<or> (0 < parentAlliance \<and> parentAlliance = myUnionId)"

definition targetImmune :: "mapCommand \<Rightarrow> int \<Rightarrow> int \<Rightarrow> bool" where
  "targetImmune s now i \<longleftrightarrow>
     (case cp_getCity (cmd_cityProxy s) i of
        Some c \<Rightarrow> 0 < parentId c \<and> now - occupyTime c < warFree (cmd_proxy s) * 1000
      | None \<Rightarrow> False)
     \<or> (case bp_getBuild (cmd_buildProxy s) i of Some b \<Rightarrow> b_warFree b | None \<Rightarrow> False)"

definition targetReach :: "mapCommand \<Rightarrow> int \<Rightarrow> int" where
  "targetReach s i =
     (case bp_getBuild (cmd_buildProxy s) i of
        Some b \<Rightarrow> b_cellRadius b
      | None \<Rightarrow> (case cp_getCity (cmd_cityProxy s) i of Some c \<Rightarrow> cityCellRadius c | None \<Rightarrow> 0))"

definition supportsOccupy :: "map_util \<Rightarrow> mapCommand \<Rightarrow> int \<Rightarrow> int \<Rightarrow> int \<Rightarrow> int \<Rightarrow> bool" where
  "supportsOccupy u s x y r i =
     (let tx = fst (getCellPointById u i); ty = snd (getCellPointById u i);
          close = (\<lambda>reach. \<bar>x - tx\<bar> \<le> min 10 (r + reach + 1) \<and> \<bar>y - ty\<bar> \<le> min 10 (r + reach + 1));
          cp = cmd_cityProxy s; bp = cmd_buildProxy s
      in (case cp_getCity cp i of
            Some c \<Rightarrow> close (cityCellRadius c)
              \<and> sideOwns (cp_myId cp) (cp_myUnionId cp) (rid c) (unionId c) (parentId c)
          | None \<Rightarrow> False)
       \<or> (case bp_getBuild bp i of
            Some b \<Rightarrow> close (b_cellRadius b)
              \<and> sideOwns (bp_myId bp) (bp_myUnionId bp) (b_rid b) (b_unionId b) (b_parentId b)
          | None \<Rightarrow> False))"

definition canOccupyRef :: "map_util \<Rightarrow> mapCommand \<Rightarrow> int \<Rightarrow> int \<Rightarrow> int \<Rightarrow> bool" where
  "canOccupyRef u s now x y =
     (let target = getIdByCellPoint u x y
      in \<not> targetImmune s now target
         \<and> list_ex (supportsOccupy u s x y (targetReach s target)) [0..mapCellCount u - 1])"

section \<open>Army visibility\<close>

text \<open>\<open>MapUtil.armyIsInView\<close> (lines 425-461 of \<^verbatim>\<open>src/unnamed/part_000\<close>) reads the
  command centre's proxies, so it is modelled here. The window is clipped below at 0 and
  above at the map's width and height, both bounds inclusive; the player's alliance is
  the city proxy's \<open>myUnionId\<close>, for buildings too.\<close>

definition armyWindow :: "map_util \<Rightarrow> int \<Rightarrow> int \<Rightarrow> (int \<times> int) list" where
  "armyWindow u x y =
     concat (map (\<lambda>i. map (\<lambda>j. (i, j)) [max 0 (y - 5)..min (y + 5) (snd (mapSize u))])
       [max 0 (x - 5)..min (x + 5) (fst (mapSize u))])"

definition armySees :: "'j proxy_ops \<Rightarrow> map_util \<Rightarrow> mapCommand \<Rightarrow> int \<times> int \<Rightarrow> bool" where
  "armySees ops u s p =
     (let cellId = getIdByCellPoint u (fst p) (snd p);
          myId = getMyPlayerId ops (cmd_cityProxy s);
          myUnionId = cp_myUnionId (cmd_cityProxy s)
      in (case bp_getBuild (cmd_buildProxy s) cellId of
            Some b \<Rightarrow> b_rid b = myId \<or> (myUnionId \<noteq> 0 \<and> (b_unionId b = myUnionId \<or> b_parentId b = myUnionId))
          | None \<Rightarrow> False)
       \<or> (case cp_getCity (cmd_cityProxy s) cellId of
            Some c \<Rightarrow> rid c = myId \<or> (myUnionId \<noteq> 0 \<and> (unionId c = myUnionId \<or> parentId c = myUnionId))
          | None \<Rightarrow> False))"

fun armyScan :: "'j proxy_ops \<Rightarrow> map_util \<Rightarrow> mapCommand \<Rightarrow> (int \<times> int) list \<Rightarrow> bool" where
  "armyScan ops u s [] = False"
| "armyScan ops u s (p # ps) = (if armySees ops u s p then True else armyScan ops u s ps)"

definition armyIsInView :: "'j proxy_ops \<Rightarrow> map_util \<Rightarrow> mapCommand \<Rightarrow> int \<Rightarrow> int \<Rightarrow> bool" where
  "armyIsInView ops u s x y = armyScan ops u s (armyWindow u x y)"

text \<open>What the visibility test means: some cell of the map within five cells of the
  army in both directions holds a city or building of the player's side.\<close>

definition armyInViewRef :: "'j proxy_ops \<Rightarrow> map_util \<Rightarrow> mapCommand \<Rightarrow> int \<Rightarrow> int \<Rightarrow> bool" where
  "armyInViewRef ops u s x y = list_ex (\<lambda>p. isVaildCellPoint u p \<and> armySees ops u s p) (armyWindow u x y)"

section \<open>Sessions with the server\<close>

text \<open>A run of the client against a server: the requests sent, in order, are answered
  one at a time by \<open>srv\<close> (\<open>None\<close>: no answer), each answer is handled and the requests it
  sends join the queue. The fuel bounds the number of messages handled; a handler that
  throws loses only its own message.\<close>

definition sentRequests :: "cmd_out list \<Rightarrow> request list" where
  "sentRequests outs = concat (map (\<lambda>out. case out of Send r \<Rightarrow> [r] | _ \<Rightarrow> []) outs)"

fun netRun ::
  "nat \<Rightarrow> 'j proxy_ops \<Rightarrow> (request \<Rightarrow> 'j server_msg option) \<Rightarrow> request list \<Rightarrow> mapCommand
     \<Rightarrow> mapCommand \<times> cmd_out list" where
  "netRun 0 ops srv q s = (s, [])"
| "netRun (Suc n) ops srv [] s = (s, [])"
| "netRun (Suc n) ops srv (r # q) s =
     (case srv r of
        None \<Rightarrow> netRun n ops srv q s
      | Some m \<Rightarrow>
          (let (s1, outs, _) = cmdHandle ops m s;
               (s2, outs2) = netRun n ops srv (q @ sentRequests outs) s1
           in (s2, outs @ outs2)))"

text \<open>A session: \<open>enterMap\<close> is called, and the server answers what it asked for.\<close>

definition session ::
  "nat \<Rightarrow> 'j proxy_ops \<Rightarrow> (request \<Rightarrow> 'j server_msg option) \<Rightarrow> mapCommand \<Rightarrow> mapCommand \<times> cmd_out list" where
  "session n ops srv s =
     (let outs = enterMap s; (t, outs2) = netRun n ops srv (sentRequests outs) s in (t, outs @ outs2))"

text \<open>Fixtures: proxies that know nothing, a player with id 1 whose main city is
  \<open>demo_city\<close>, a server that answers the handshake, and a city of the player on the last
  column of the demo map.\<close>

definition demo_ops :: "unit proxy_ops" where
  "demo_ops = \<lparr> cityInitData = id, cityClearData = id, buildInitData = id, buildClearData = id,
     initMyCitys = (\<lambda>_ c. c), initMyBuilds = (\<lambda>_ b. b), getMyPlayerId = (\<lambda>_. 1),
     getMyMainCity = (\<lambda>_. Some demo_city), updateBuild = (\<lambda>_ b. b),
     citySetMapScanBlock = (\<lambda>_ _ c. c), buildSetMapScanBlock = (\<lambda>_ _ b. b),
     updateSub = (\<lambda>_ _ _ b. b), updateCity = (\<lambda>_ c. c) \<rparr>"

definition demo_srv :: "request \<Rightarrow> unit server_msg option" where
  "demo_srv r = (case r of
      QryNationMapConfig \<Rightarrow> Some (NationMapConfig 0 demo_configs)
    | QryRoleMyProperty \<Rightarrow> Some (RoleMyProperty 0 ())
    | PosTagListReq \<Rightarrow> Some (PosTagList 0 [])
    | _ \<Rightarrow> None)"

definition demo_cmd :: mapCommand where
  "demo_cmd = \<lparr> cmd_proxy = initProxy,
     cmd_cityProxy = \<lparr> cp_getCity = (\<lambda>i. None), cp_myId = 0, cp_myUnionId = 0, cp_myParentId = 0 \<rparr>,
     cmd_buildProxy = \<lparr> bp_getBuild = (\<lambda>i. None), bp_myId = 0, bp_myUnionId = 0, bp_myParentId = 0 \<rparr>,
     isQryMyProperty = False \<rparr>"

definition wrap_city :: mapCityData where
  "wrap_city = \<lparr> cityId = 99, city_x = 19, city_y = 4, rid = 1, unionId = 0, parentId = 0, occupyTime = 0,
     cityCellRadius = 0 \<rparr>"

definition empty_srv :: "request \<Rightarrow> unit server_msg option" where
  "empty_srv r = (if r = QryNationMapConfig then Some (NationMapConfig 0 []) else None)"

definition wide_util :: map_util where
  "wide_util = demo_util\<lparr>mapSize := (40, 20)\<rparr>"

definition nomain_ops :: "unit proxy_ops" where
  "nomain_ops = demo_ops\<lparr>getMyMainCity := (\<lambda>_. None)\<rparr>"

definition vision_cmd :: mapCommand where
  "vision_cmd = demo_cmd\<lparr>cmd_cityProxy :=
     \<lparr> cp_getCity = (\<lambda>i. if i = 120 then Some (wrap_city\<lparr>cityId := 120, city_x := 0, city_y := 6\<rparr>) else None),
       cp_myId = 1, cp_myUnionId = 0, cp_myParentId = 0 \<rparr>\<rparr>"

definition wrap_cmd :: mapCommand where
  "wrap_cmd = demo_cmd\<lparr>cmd_cityProxy :=
     \<lparr> cp_getCity = (\<lambda>i. if i = 99 then Some wrap_city else None), cp_myId = 1, cp_myUnionId = 0,
       cp_myParentId = 0 \<rparr>\<rparr>"

section \<open>The handshake\<close>

lemma fold_update_nonempty: "fold (\<lambda>j m. AList.update (k j) (v j) m) cs m = [] \<longleftrightarrow> cs = [] \<and> m = []"
proof (induction cs arbitrary: m)
  case (Cons c cs)
  have "AList.update k' v' l \<noteq> []" for k' v' and l :: "('a \<times> 'b) list" by (induction l) auto
  with Cons show ?case by simp
qed simp

lemma hasResConfig_setNationMapConfig: "hasResConfig (setNationMapConfig confs p) \<longleftrightarrow> confs \<noteq> []"
  by (simp add: hasResConfig_def setNationMapConfig_def fold_update_nonempty)

lemma netRun_Nil [simp]: "netRun n ops srv [] s = (s, [])"
  by (cases n) simp_all

lemma sentRequests_simps [simp]:
  "sentRequests [] = []"
  "sentRequests (Send r # outs) = r # sentRequests outs"
  "sentRequests (EmitEnterMap # outs) = sentRequests outs"
  "sentRequests (EmitUpdateTag # outs) = sentRequests outs"
  "sentRequests (UIUpdateMyProperty # outs) = sentRequests outs"
  "sentRequests (GeneralUpdateMyProperty # outs) = sentRequests outs"
  "sentRequests (ArmyUpdateMyProperty # outs) = sentRequests outs"
  "sentRequests (EmitUnionChange a b c # outs) = sentRequests outs"
  by (simp_all add: sentRequests_def)

text \<open>With a main city at hand, the property answer marks the property as received and
  ends with \<open>posTagList()\<close> and \<open>enterMap()\<close>; the map proxy is untouched.\<close>

lemma onRoleMyProperty_main:
  assumes "\<forall>cp. getMyMainCity ops cp \<noteq> None"
  shows "\<exists>s2. onRoleMyProperty ops 0 msg s
      = (s2, [UIUpdateMyProperty, GeneralUpdateMyProperty, ArmyUpdateMyProperty, posTagList] @ enterMap s2, None)
    \<and> isQryMyProperty s2 \<and> cmd_proxy s2 = cmd_proxy s"
  by (auto simp: onRoleMyProperty_def Let_def assms [rule_format] split: option.splits)

lemma enterMap_cases:
  "hasResConfig (cmd_proxy s) \<Longrightarrow> isQryMyProperty s \<Longrightarrow> enterMap s = [EmitEnterMap]"
  "hasResConfig (cmd_proxy s) \<Longrightarrow> \<not> isQryMyProperty s \<Longrightarrow> enterMap s = [qryRoleMyProperty]"
  "\<not> hasResConfig (cmd_proxy s) \<Longrightarrow> enterMap s = [qryNationMapConfig]"
  by (simp_all add: enterMap_def)

lemma hasResConfig_onNationMapConfig:
  "onNationMapConfig 0 confs s = (s1, outs) \<Longrightarrow> hasResConfig (cmd_proxy s1) \<longleftrightarrow> confs \<noteq> []"
  by (auto simp: onNationMapConfig_def Let_def hasResConfig_setNationMapConfig)

text \<open>One property answer, on a state that has the configuration, announces the map and
  queues the tag list.\<close>

lemma netRun_property:
  assumes "srv QryRoleMyProperty = Some (RoleMyProperty 0 msg)" "\<forall>cp. getMyMainCity ops cp \<noteq> None"
    and "hasResConfig (cmd_proxy s)"
  obtains s2 where "isQryMyProperty s2" "cmd_proxy s2 = cmd_proxy s"
    "\<And>n q. netRun (Suc n) ops srv (QryRoleMyProperty # q) s
       = (fst (netRun n ops srv (q @ [PosTagListReq]) s2),
          [UIUpdateMyProperty, GeneralUpdateMyProperty, ArmyUpdateMyProperty, posTagList, EmitEnterMap]
            @ snd (netRun n ops srv (q @ [PosTagListReq]) s2))"
proof -
  obtain s2 where s2: "onRoleMyProperty ops 0 msg s
      = (s2, [UIUpdateMyProperty, GeneralUpdateMyProperty, ArmyUpdateMyProperty, posTagList] @ enterMap s2, None)"
    "isQryMyProperty s2" "cmd_proxy s2 = cmd_proxy s"
    using onRoleMyProperty_main [OF assms(2)] by blast
  then have "enterMap s2 = [EmitEnterMap]" using assms(3) by (simp add: enterMap_cases)
  with s2 assms(1) show ?thesis
    by (intro that [of s2]) (simp_all add: posTagList_def split: prod.splits)
qed

text \<open>One configuration answer with an empty list leaves the proxy without a
  configuration, so \<open>enterMap\<close> asks again.\<close>

lemma netRun_empty_config:
  assumes "srv QryNationMapConfig = Some (NationMapConfig 0 [])" "\<not> hasResConfig (cmd_proxy s)"
  shows "snd (netRun n ops srv [QryNationMapConfig] s) = replicate n qryNationMapConfig"
  using assms(2)
proof (induction n arbitrary: s)
  case (Suc n)
  let ?s1 = "s\<lparr>cmd_proxy := setNationMapConfig [] (cmd_proxy s)\<rparr>"
  have h: "\<not> hasResConfig (cmd_proxy ?s1)" by (simp add: hasResConfig_setNationMapConfig)
  then have "enterMap ?s1 = [qryNationMapConfig]" by (simp add: enterMap_cases)
  with Suc.IH [OF h] assms(1) show ?case
    by (simp add: onNationMapConfig_def qryNationMapConfig_def split_def)
qed simp

lemmas handshake_simps = session_def enterMap_cases qryNationMapConfig_def qryRoleMyProperty_def
  posTagList_def hasResConfig_setNationMapConfig

section \<open>The occupation scan\<close>

lemma occupyScan_list_ex: "occupyScan u s x y radius ps = list_ex (nearSub u s x y radius) ps"
  by (induction ps) simp_all

lemma set_occupyWindow:
  "p \<in> set (occupyWindow x y) \<longleftrightarrow> x - 10 \<le> fst p \<and> fst p \<le> x + 10 \<and> y - 10 \<le> snd p \<and> snd p \<le> y + 10"
  by (cases p) (fastforce simp: occupyWindow_def image_iff)

text \<open>Within the columns of the map, a cell above or below the map has an id outside
  \<open>[0, mapCellCount)\<close>, where proxies that hold only cells of the map answer nothing.\<close>

lemma nearSub_valid:
  assumes "\<forall>i. cp_getCity (cmd_cityProxy s) i \<noteq> None \<longrightarrow> 0 \<le> i \<and> i < mapCellCount u"
    and "\<forall>i. bp_getBuild (cmd_buildProxy s) i \<noteq> None \<longrightarrow> 0 \<le> i \<and> i < mapCellCount u"
    and "0 \<le> fst p" "fst p < fst (mapSize u)" "nearSub u s x y radius p"
  shows "isVaildCellPoint u p"
proof -
  let ?W = "fst (mapSize u)" and ?i = "getIdByCellPoint u (fst p) (snd p)"
  have "cp_getCity (cmd_cityProxy s) ?i \<noteq> None \<or> bp_getBuild (cmd_buildProxy s) ?i \<noteq> None"
    using assms(5) by (auto simp: nearSub_def Let_def split: option.splits)
  then have i: "0 \<le> ?i \<and> ?i < ?W * snd (mapSize u)" using assms(1,2) by (auto simp: mapCellCount_def)
  have "0 \<le> snd p"
  proof (rule ccontr)
    assume "\<not> 0 \<le> snd p"
    then have "snd p * ?W \<le> (- 1) * ?W" using assms(3,4) by (intro mult_right_mono) auto
    then show False using i assms(4) by (simp add: getIdByCellPoint_def)
  qed
  moreover have "snd p < snd (mapSize u)"
  proof (rule ccontr)
    assume "\<not> snd p < snd (mapSize u)"
    then have "snd (mapSize u) * ?W \<le> snd p * ?W" using assms(3,4) by (intro mult_right_mono) auto
    then show False using i assms(3) unfolding getIdByCellPoint_def by (simp add: mult.commute)
  qed
  ultimately show ?thesis using assms(3,4) by (simp add: isVaildCellPoint_def)
qed

text \<open>The reference against the code's pieces: the target's radius and immunity, and
  the cells of the map named by id and by point.\<close>

lemma occupyRadius_spec:
  "occupyRadius s now i = (if targetImmune s now i then None else Some (targetReach s i))"
  by (auto simp: occupyRadius_def targetImmune_def targetReach_def isCityWarFree_def isBuildWarFree_def
      getWarFree_def Let_def split: option.splits)

lemma cell_of_grid_id:
  assumes "0 < fst (mapSize u)" "isVaildCellPoint u p"
  shows "getCellPointById u (getIdByCellPoint u (fst p) (snd p)) = p"
proof -
  have "0 \<le> fst p + snd p * fst (mapSize u)"
    using assms grid_id_bounds [of "fst p" "fst (mapSize u)" "snd p" "snd (mapSize u)"]
    by (simp add: isVaildCellPoint_def)
  with assms show ?thesis
    unfolding getCellPointById_def getIdByCellPoint_def floor_real_div
    by (cases p) (simp add: isVaildCellPoint_def js_simps)
qed

lemma grid_cell_valid:
  "0 < fst (mapSize u) \<Longrightarrow> 0 \<le> i \<Longrightarrow> i < mapCellCount u \<Longrightarrow> isVaildCellPoint u (getCellPointById u i)"
  using grid_id_nonneg_inv [of i "fst (mapSize u)" "snd (mapSize u)"]
  by (simp add: getCellPointById_def isVaildCellPoint_def mapCellCount_def js_simps)

lemma grid_id_in_map:
  "isVaildCellPoint u p \<Longrightarrow> 0 \<le> getIdByCellPoint u (fst p) (snd p) \<and> getIdByCellPoint u (fst p) (snd p) < mapCellCount u"
  using grid_id_bounds [of "fst p" "fst (mapSize u)" "snd p" "snd (mapSize u)"]
  by (simp add: isVaildCellPoint_def getIdByCellPoint_def mapCellCount_def)

lemma supportsOccupy_nearSub:
  assumes "0 < fst (mapSize u)" "isVaildCellPoint u p"
  shows "supportsOccupy u s x y r (getIdByCellPoint u (fst p) (snd p))
    \<longleftrightarrow> nearSub u s x y r p \<and> \<bar>x - fst p\<bar> \<le> 10 \<and> \<bar>y - snd p\<bar> \<le> 10"
  using cell_of_grid_id [OF assms]
  by (auto simp: supportsOccupy_def nearSub_def isCitySub_def isBuildSub_def sideOwns_def Let_def
      split: option.splits)

lemma armyScan_list_ex: "armyScan ops u s ps = list_ex (armySees ops u s) ps"
  by (induction ps) simp_all

lemma set_armyWindow:
  "p \<in> set (armyWindow u x y) \<longleftrightarrow> max 0 (x - 5) \<le> fst p \<and> fst p \<le> min (x + 5) (fst (mapSize u))
     \<and> max 0 (y - 5) \<le> snd p \<and> snd p \<le> min (y + 5) (snd (mapSize u))"
  by (cases p) (fastforce simp: armyWindow_def image_iff)

section \<open>Properties of the command centre\<close>

text \<open>C16: the handshake reaches the map. Against a server that answers the
  configuration request with a non-empty list and the property request with success, for
  a player whose main city the city proxy knows, a session started by \<open>enterMap()\<close> from
  any state emits \<open>LogicEvent.enterMap\<close> within two answers.\<close>

theorem enterMap_reached:
  assumes "srv QryNationMapConfig = Some (NationMapConfig 0 confs)" "confs \<noteq> []"
    and "srv QryRoleMyProperty = Some (RoleMyProperty 0 msg)" "\<forall>cp. getMyMainCity ops cp \<noteq> None"
  shows "EmitEnterMap \<in> set (snd (session 2 ops srv s))"
proof (cases "hasResConfig (cmd_proxy s)")
  case hc: True
  show ?thesis
  proof (cases "isQryMyProperty s")
    case True
    with hc show ?thesis by (simp add: handshake_simps split_def)
  next
    case False
    obtain s2 where "\<And>n q. netRun (Suc n) ops srv (QryRoleMyProperty # q) s
       = (fst (netRun n ops srv (q @ [PosTagListReq]) s2),
          [UIUpdateMyProperty, GeneralUpdateMyProperty, ArmyUpdateMyProperty, posTagList, EmitEnterMap]
            @ snd (netRun n ops srv (q @ [PosTagListReq]) s2))"
      using netRun_property [where srv = srv and msg = msg and ops = ops and s = s, OF assms(3,4) hc] by blast
    with hc False show ?thesis by (simp add: handshake_simps numeral_2_eq_2 split_def)
  qed
next
  case False
  let ?s1 = "s\<lparr>cmd_proxy := setNationMapConfig confs (cmd_proxy s)\<rparr>"
  have h1: "hasResConfig (cmd_proxy ?s1)" using assms(2) by (simp add: hasResConfig_setNationMapConfig)
  show ?thesis
  proof (cases "isQryMyProperty s")
    case True
    with False h1 show ?thesis
      by (simp add: handshake_simps numeral_2_eq_2 assms(1) onNationMapConfig_def split_def)
  next
    case nq: False
    obtain s2 where "\<And>n q. netRun (Suc n) ops srv (QryRoleMyProperty # q) ?s1
       = (fst (netRun n ops srv (q @ [PosTagListReq]) s2),
          [UIUpdateMyProperty, GeneralUpdateMyProperty, ArmyUpdateMyProperty, posTagList, EmitEnterMap]
            @ snd (netRun n ops srv (q @ [PosTagListReq]) s2))"
      using netRun_property [where srv = srv and msg = msg and ops = ops and s = ?s1, OF assms(3,4) h1] by blast
    with False nq h1 show ?thesis
      by (simp add: handshake_simps numeral_2_eq_2 assms(1) onNationMapConfig_def split_def)
  qed
qed

theorem enterMap_reached_witness: "EmitEnterMap \<in> set (snd (session 2 demo_ops demo_srv demo_cmd))"
  using enterMap_reached [of demo_srv demo_configs "()" demo_ops demo_cmd]
  by (simp add: demo_srv_def demo_configs_def demo_ops_def)

text \<open>C17: the handshake terminates. Against the same server, which also answers the
  tag-list request, every session has handled all its messages after three answers: more
  fuel changes neither the final state nor the outputs.\<close>

theorem session_terminates:
  assumes "srv QryNationMapConfig = Some (NationMapConfig 0 confs)" "confs \<noteq> []"
    and "srv QryRoleMyProperty = Some (RoleMyProperty 0 msg)" "\<forall>cp. getMyMainCity ops cp \<noteq> None"
    and "srv PosTagListReq = Some (PosTagList 0 tags)" "3 \<le> n"
  shows "session n ops srv s = session 3 ops srv s"
proof -
  obtain k where n: "n = Suc (Suc (Suc k))" using assms(6) by (metis Suc_diff_le diff_Suc_Suc diff_zero numeral_3_eq_3 Suc_leD)
  have "session (Suc (Suc (Suc k))) ops srv s = session (Suc (Suc (Suc 0))) ops srv s"
  proof (cases "hasResConfig (cmd_proxy s)")
    case hc: True
    show ?thesis
    proof (cases "isQryMyProperty s")
      case True
      with hc show ?thesis by (simp add: handshake_simps split_def)
    next
      case False
      obtain s2 where "\<And>n q. netRun (Suc n) ops srv (QryRoleMyProperty # q) s
         = (fst (netRun n ops srv (q @ [PosTagListReq]) s2),
            [UIUpdateMyProperty, GeneralUpdateMyProperty, ArmyUpdateMyProperty, posTagList, EmitEnterMap]
              @ snd (netRun n ops srv (q @ [PosTagListReq]) s2))"
        using netRun_property [where srv = srv and msg = msg and ops = ops and s = s, OF assms(3,4) hc] by blast
      with hc False show ?thesis by (simp add: handshake_simps assms(5) split_def)
    qed
  next
    case False
    let ?s1 = "s\<lparr>cmd_proxy := setNationMapConfig confs (cmd_proxy s)\<rparr>"
    have h1: "hasResConfig (cmd_proxy ?s1)" using assms(2) by (simp add: hasResConfig_setNationMapConfig)
    show ?thesis
    proof (cases "isQryMyProperty s")
      case True
      with False h1 show ?thesis by (simp add: handshake_simps assms(1) onNationMapConfig_def split_def)
    next
      case nq: False
      obtain s2 where "\<And>n q. netRun (Suc n) ops srv (QryRoleMyProperty # q) ?s1
         = (fst (netRun n ops srv (q @ [PosTagListReq]) s2),
            [UIUpdateMyProperty, GeneralUpdateMyProperty, ArmyUpdateMyProperty, posTagList, EmitEnterMap]
              @ snd (netRun n ops srv (q @ [PosTagListReq]) s2))"
        using netRun_property [where srv = srv and msg = msg and ops = ops and s = ?s1, OF assms(3,4) h1] by blast
      with False nq h1 show ?thesis
        by (simp add: handshake_simps assms(1,5) onNationMapConfig_def split_def)
    qed
  qed
  then show ?thesis by (simp add: n numeral_3_eq_3)
qed

theorem session_terminates_witness: "session 7 demo_ops demo_srv demo_cmd = session 3 demo_ops demo_srv demo_cmd"
  using session_terminates [of demo_srv demo_configs "()" demo_ops "[]" 7 demo_cmd]
  by (simp add: demo_srv_def demo_configs_def demo_ops_def)

text \<open>C19: an empty configuration livelocks the handshake. When the server answers
  \<open>nationMap.config\<close> with success and an empty list, \<open>setNationMapConfig\<close> leaves
  \<open>hasResConfig()\<close> false and \<open>enterMap()\<close> sends the same request again: a session of
  any length sends nothing but configuration requests, one per answer, and never emits
  \<open>enterMap\<close>.\<close>

theorem enterMap_livelock_empty_config:
  assumes "srv QryNationMapConfig = Some (NationMapConfig 0 [])" "\<not> hasResConfig (cmd_proxy s)"
  shows "snd (session n ops srv s) = replicate (Suc n) qryNationMapConfig"
  using netRun_empty_config [where srv = srv, OF assms(1,2)] assms(2)
  by (simp add: session_def enterMap_cases qryNationMapConfig_def split_def)

theorem enterMap_livelock_empty_config_witness:
  "snd (session 4 demo_ops empty_srv demo_cmd) = replicate 5 qryNationMapConfig"
  using enterMap_livelock_empty_config [of empty_srv demo_cmd 4 demo_ops]
  by (simp add: empty_srv_def demo_cmd_def initProxy_def hasResConfig_def)

text \<open>C18: away from the left and right edges the occupation test is what it means.
  When the 21-column window around the target lies inside the map's columns and the
  proxies hold only cells of the map, \<open>isCanOccupyCell\<close> answers exactly whether some
  cell of the map in the window holds a city or building of the player's side close
  enough, and forbids the occupation of a war-immune target.\<close>

theorem isCanOccupyCell_interior:
  assumes "10 \<le> x" "x + 10 < fst (mapSize u)"
    and "\<forall>i. cp_getCity (cmd_cityProxy s) i \<noteq> None \<longrightarrow> 0 \<le> i \<and> i < mapCellCount u"
    and "\<forall>i. bp_getBuild (cmd_buildProxy s) i \<noteq> None \<longrightarrow> 0 \<le> i \<and> i < mapCellCount u"
  shows "isCanOccupyCell u s now x y = canOccupyRef u s now x y"
proof -
  have W: "0 < fst (mapSize u)" using assms(1,2) by simp
  have "list_ex (nearSub u s x y r) (occupyWindow x y)
      \<longleftrightarrow> list_ex (supportsOccupy u s x y r) [0..mapCellCount u - 1]" for r
  proof
    assume "list_ex (nearSub u s x y r) (occupyWindow x y)"
    then obtain p where p: "p \<in> set (occupyWindow x y)" "nearSub u s x y r p" by (auto simp: list_ex_iff)
    have v: "isVaildCellPoint u p"
      using p assms by (intro nearSub_valid [OF assms(3,4)]) (simp_all add: set_occupyWindow)
    have "supportsOccupy u s x y r (getIdByCellPoint u (fst p) (snd p))"
      using p by (simp add: supportsOccupy_nearSub [OF W v] set_occupyWindow abs_le_iff)
    with grid_id_in_map [OF v] show "list_ex (supportsOccupy u s x y r) [0..mapCellCount u - 1]"
      by (auto simp: list_ex_iff)
  next
    assume "list_ex (supportsOccupy u s x y r) [0..mapCellCount u - 1]"
    then obtain i where i: "0 \<le> i" "i < mapCellCount u" "supportsOccupy u s x y r i"
      by (auto simp: list_ex_iff)
    let ?p = "getCellPointById u i"
    have v: "isVaildCellPoint u ?p" using W i(1,2) by (rule grid_cell_valid)
    have "getIdByCellPoint u (fst ?p) (snd ?p) = i" using W i(1) by (rule cell_id_roundtrip_inv)
    then have "nearSub u s x y r ?p \<and> \<bar>x - fst ?p\<bar> \<le> 10 \<and> \<bar>y - snd ?p\<bar> \<le> 10"
      using supportsOccupy_nearSub [OF W v] i(3) by simp
    then show "list_ex (nearSub u s x y r) (occupyWindow x y)"
      by (auto simp: list_ex_iff set_occupyWindow abs_le_iff intro!: bexI [of _ ?p])
  qed
  then show ?thesis
    by (simp add: isCanOccupyCell_def canOccupyRef_def occupyScan_list_ex occupyRadius_spec Let_def)
qed

theorem isCanOccupyCell_interior_witness:
  "isCanOccupyCell wide_util wrap_cmd 0 15 5 = canOccupyRef wide_util wrap_cmd 0 15 5"
  by (rule isCanOccupyCell_interior)
    (simp_all add: wide_util_def demo_util_eq wrap_cmd_def demo_cmd_def mapCellCount_def)

text \<open>C20: at the left edge the occupation scan wraps to the previous row. The window
  of the loop is not clipped to the map and \<open>getIdByCellPoint(-1, 5)\<close> is the id of
  cell \<open>(19, 4)\<close> on a map 20 cells wide: a city of the player there lets the player
  occupy the empty cell \<open>(0, 5)\<close>, 19 columns away, which no cell of the map near it
  allows.\<close>

theorem isCanOccupyCell_row_wrap:
  "isCanOccupyCell demo_util wrap_cmd 0 0 5 \<and> \<not> canOccupyRef demo_util wrap_cmd 0 0 5"
proof -
  have ids: "getIdByCellPoint demo_util a b = a + b * 20" for a b
    by (simp add: getIdByCellPoint_def demo_util_eq)
  have r: "occupyRadius wrap_cmd 0 (getIdByCellPoint demo_util 0 5) = Some 0"
    by (simp add: ids occupyRadius_def wrap_cmd_def demo_cmd_def)
  have "nearSub demo_util wrap_cmd 0 5 0 (-1, 5)"
    by (simp add: ids nearSub_def isCitySub_def wrap_cmd_def demo_cmd_def wrap_city_def)
  moreover have "(-1, 5) \<in> set (occupyWindow 0 5)" by (simp add: set_occupyWindow)
  ultimately have scan: "isCanOccupyCell demo_util wrap_cmd 0 0 5"
    using r by (auto simp: isCanOccupyCell_def occupyScan_list_ex list_ex_iff)
  have "\<not> supportsOccupy demo_util wrap_cmd 0 5 r i" for r i
    by (cases "i = 99")
      (simp_all add: supportsOccupy_def wrap_cmd_def demo_cmd_def getCellPointById_def demo_util_eq js_simps)
  then have "\<not> canOccupyRef demo_util wrap_cmd 0 0 5"
    by (simp add: canOccupyRef_def list_ex_iff)
  with scan show ?thesis by blast
qed

text \<open>C22: a property answer for a player without a main city throws at
  \<open>getMyMainCity().unionId\<close> after \<open>_isQryMyProperty\<close> has been set: the UI, general and
  army commands have been called, but neither \<open>posTagList()\<close> nor \<open>enterMap()\<close> is
  reached, and the command centre believes the property received.\<close>

theorem onRoleMyProperty_no_main_city:
  assumes "\<forall>cp. getMyMainCity ops cp = None"
  shows "\<exists>t. onRoleMyProperty ops 0 msg s
      = (t, [UIUpdateMyProperty, GeneralUpdateMyProperty, ArmyUpdateMyProperty], Some TypeError)
    \<and> isQryMyProperty t \<and> cmd_proxy t = cmd_proxy s"
  by (simp add: onRoleMyProperty_def Let_def assms)

theorem onRoleMyProperty_no_main_city_witness:
  "isQryMyProperty (fst (onRoleMyProperty nomain_ops 0 () demo_cmd))
   \<and> snd (onRoleMyProperty nomain_ops 0 () demo_cmd)
     = ([UIUpdateMyProperty, GeneralUpdateMyProperty, ArmyUpdateMyProperty], Some TypeError)"
  using onRoleMyProperty_no_main_city [of nomain_ops "()" demo_cmd] by (auto simp: nomain_ops_def)

text \<open>C21: the army visibility window reaches one column past the map. Its upper
  bound \<open>Math.min(x + 5, width)\<close> is inclusive, and \<open>getIdByCellPoint(width, j)\<close> is the
  id of cell \<open>(0, j + 1)\<close>: on the 20-wide demo map a player's city on \<open>(0, 6)\<close> makes
  an army on \<open>(19, 5)\<close>, 19 columns away, visible, which no cell of the map near it
  does.\<close>

theorem armyIsInView_past_edge:
  "armyIsInView demo_ops demo_util vision_cmd 19 5 \<and> \<not> armyInViewRef demo_ops demo_util vision_cmd 19 5"
proof -
  have ids: "getIdByCellPoint demo_util a b = a + b * 20" for a b
    by (simp add: getIdByCellPoint_def demo_util_eq)
  have "armySees demo_ops demo_util vision_cmd (20, 5)"
    by (simp add: ids armySees_def vision_cmd_def demo_cmd_def demo_ops_def wrap_city_def)
  moreover have "(20, 5) \<in> set (armyWindow demo_util 19 5)" by (simp add: set_armyWindow demo_util_eq)
  ultimately have seen: "armyIsInView demo_ops demo_util vision_cmd 19 5"
    by (auto simp: armyIsInView_def armyScan_list_ex list_ex_iff)
  have "\<not> armySees demo_ops demo_util vision_cmd p"
    if "p \<in> set (armyWindow demo_util 19 5)" "isVaildCellPoint demo_util p" for p
  proof -
    obtain a b where p: "p = (a, b)" by force
    have "a + b * 20 \<noteq> 120"
      using that by (simp add: p set_armyWindow isVaildCellPoint_def demo_util_eq) presburger
    then show ?thesis by (simp add: p ids armySees_def vision_cmd_def demo_cmd_def)
  qed
  then have "\<not> armyInViewRef demo_ops demo_util vision_cmd 19 5"
    by (auto simp: armyInViewRef_def list_ex_iff)
  with seen show ?thesis by blast
qed

end
