(* ===== verification/Spec2Isabelle.thy ===== *)
theory Spec2Isabelle
  imports MapProxy LayerLogic MapResources MapLogic MapCityLogic MapTouchLogic MapCommand
begin

text \<open>
  \<^bold>\<open>A verification library for the map client of slgclient.\<close>

  The client shows a large isometric tile map. \<open>MapUtil\<close> converts between cell
  coordinates, map pixels and world pixels and cuts the cell grid into square areas. The
  controller \<open>MapLogic\<close> moves and zooms the map camera on touches and tells the streaming
  cache \<open>MapProxy\<close> which cell is at the centre; the cache keeps the 3 x 3 block of areas
  around it, queues their queries (throttled per area by \<open>MapAreaData\<close>) and emits the
  areas to add and remove, which a render layer (\<open>MapBaseLayerLogic\<close>, here the city
  layer \<open>MapCityLogic\<close>) applies with a pool of scene nodes. A tap that is not a drag is
  dispatched by \<open>MapTouchLogic\<close> to a click panel for the city, building or resource
  under it. The command centre \<open>MapCommand\<close> owns the cache and the city and building
  proxies, talks to the server (the configuration and property handshake that ends in
  \<open>enterMap\<close>) and decides the game rules. The theories, in import order:

  \<^item> \<open>Prelude\<close>: the JavaScript operations whose meaning differs from HOL's (\<open>%\<close> as
    \<open>js_rem\<close>, \<open>indexOf\<close>, truthiness, number-to-string and back), statements that may
    throw (\<open>seqE\<close>, the loop \<open>forEachE\<close>: what ran before a throw persists), and the
    row-major grid lemmas shared by the cell and the area grid.
  \<^item> \<open>MapUtil\<close> models \<^verbatim>\<open>src/unnamed/part_000\<close>, the static class \<open>MapUtil\<close>: its static
    fields are the record \<open>map_util\<close>, computed by \<open>initMapConfig\<close>; every other function
    takes the record. Lemmas: well-formed configuration (\<open>map_util_ok\<close>), id/point and
    pixel/cell round trips, the inverse projection puts a point in its cell's diamond,
    the area grid covers the map, the nine-grids and rings, and where the code departs
    from its intent (row wrap of the nine-grid, the role-city ring, negative ids, odd
    area sides).
  \<^item> \<open>MapAreaData\<close>: the descriptor class of \<^verbatim>\<open>MapProxy.ts\<close>, its comparisons and the 10 s
    query throttle (the clock an argument); permitted queries are \<open>MAX_TIME\<close> apart.
  \<^item> \<open>MapProxy\<close>: the streaming cache, class \<open>MapProxy\<close>; the record \<open>mapProxy\<close> is its
    state, methods return the new state and the \<open>EventMgr\<close> events as a list.
    \<open>setCurCenterPoint\<close> is split along the code's blocks (\<open>showAreaDiff\<close>, \<open>qryOrder\<close>,
    \<open>screenCornerPoints\<close>). Lemmas: the store invariant \<open>store_ok\<close>, the exact events and
    queue increment of a move in each branch, valid queues along runs (\<open>moveRun\<close>).
  \<^item> \<open>MapResources\<close>: the rest of \<open>MapProxy\<close> (resource configuration keyed by the
    string \<open>type_level\<close>, resource data, system cities, war-free time, position tags).
  \<^item> \<open>LayerLogic\<close>: the render layer base class, its area map, node pool and parent
    layer; \<open>layerStep\<close>/\<open>layer_reach\<close> give its reachable states, which keep
    \<open>layer_ok\<close> (no node shown twice, every node pooled or shown); \<open>udpateShowAreas\<close>
    refines set difference and union; an area not shown makes \<open>getItem\<close>/\<open>removeItem\<close>
    throw (\<open>TypeError\<close>).
  \<^item> \<open>MapLogic\<close>: the camera controller; its fields (the camera node's position and
    orthographic height included) are the record \<open>mapLogic\<close>, engine objects the
    context \<open>logic_ctx\<close>, the handlers one step \<open>logicStep\<close> on an input and
    \<open>logic_reach\<close> its reachable states. Lemmas: the zoom and camera bounds hold in every
    reachable state; a gesture is a tap (one \<open>touchMap\<close>) or a drag (proxy events, one
    \<open>moveMap\<close>); a drag centres the cache on the camera's cell; \<open>scrollToMapPoint\<close> does
    so inside the bounds but not at the edge.
  \<^item> \<open>MapCityLogic\<close>: the city layer over \<open>LayerLogic\<close>; \<open>onUpdateCitys\<close> is the three
    loops under \<open>forEachE\<close>; each handler keeps \<open>layer_ok\<close> (\<open>cityStep_ok\<close>, which
    follows from the base layer's lemmas); a batch of known cities yields the expected
    ids, an unknown one throws half-way.
  \<^item> \<open>MapTouchLogic\<close>: the tap dispatcher and its click panel; at most one panel is
    ever created; a tap on a cell beyond the resource list throws.
  \<^item> \<open>MapCommand\<close>: class \<open>MapCommand\<close> (lines 216-806 of
    \<^verbatim>\<open>MapBaseLayerLogic.ts\<close>); its fields are the record \<open>mapCommand\<close>, each server
    message a constructor of \<open>server_msg\<close> handled by \<open>cmdHandle\<close>, each request a
    \<open>Send\<close> output, each emitted event an output. The game rules (\<open>isCitySub\<close>,
    \<open>isBuildSub\<close>, war immunity, \<open>isCanMoveCell\<close>, \<open>isCanOccupyCell\<close> split into the
    target's radius \<open>occupyRadius\<close> and the scan \<open>occupyScan\<close> over \<open>occupyWindow\<close>)
    read the proxies' lookups. A \<open>session\<close> is \<open>enterMap\<close> followed by \<open>netRun\<close>: the
    requests sent are answered in order by a server, a function from request to answer.
    Lemmas: the handshake reaches \<open>enterMap\<close> within two answers and is quiescent after
    three; an empty configuration livelocks it; a player without a main city is marked
    as received without entering; inside the map's columns the scan equals \<open>canOccupyRef\<close>,
    a reference over the map's cell ids with its own ownership, immunity and distance
    rules (none of the scan's helpers); at the left edge it wraps to the previous row.
    \<open>MapUtil.armyIsInView\<close> is here too, as it reads the proxies: its window reaches
    one column past the right edge, into the next row.
  \<^item> This theory composes them: \<open>applyEvent\<close> is the render layer's listener of the
    cache's area events, \<open>streamRun\<close> a run of moves driving both. Lemmas: along any
    run the layer shows the current nine-grid; an incremental move makes it show exactly
    the new nine-grid; a jump leaves the old window shown; the events of a drag hide the
    click panel.

  Fixtures. \<open>demo_map\<close>/\<open>demo_util\<close> is a 20 x 20 map of 256 x 128 tiles in a 1280 x 720
  view (areas of 8 x 8 cells, a 3 x 3 area grid); \<open>big_map\<close> a 40 x 40 map with a 5 x 5
  area grid, large enough for jumps; \<open>demo_ctx\<close>/\<open>demo_start\<close> the controller on the demo
  map with the default orthographic height 360; \<open>demo_ops\<close>, \<open>demo_srv\<close> and \<open>demo_cmd\<close>
  a player with a main city, a server answering the handshake and an empty command
  centre. Witnesses evaluate on them by \<open>simp\<close>.

  Numbers. Cell and area coordinates and ids are \<open>int\<close>: the code only stores integral
  values there and JavaScript numbers represent them exactly in the map's range. Pixel
  coordinates and zoom are \<open>real\<close>; floating-point rounding is not modelled.

  Loops. Every loop of the modelled code runs over an array or a fixed range and is
  structural recursion or a list combinator, and every definition is total. The one
  unbounded exchange is the conversation with the server: \<open>netRun\<close> takes fuel, the
  number of answers handled, and with no fuel it stops with the state reached. Two
  answers suffice to enter the map and three to handle every message of the handshake
  (configuration, property, tag list); with an empty configuration no amount of fuel
  suffices, which is a finding, not a limit of the model.

  Not modelled: \<open>MapCityProxy\<close> and \<open>MapBuildProxy\<close>, which are not in the repository (their lookups
  and the player's ids are record fields, the methods \<open>MapCommand\<close> calls are the
  parameters \<open>proxy_ops\<close>, their records hold the fields read); the singleton accessors
  of \<open>MapCommand\<close> and its \<open>onDestory\<close>; \<open>updateCulling\<close>, \<open>onDestroy\<close> and console
  output, which only touch the engine.
\<close>

section \<open>The streaming pipeline\<close>

text \<open>The render layers listen to \<open>mapShowAreaChange\<close> and pass its lists to
  \<open>udpateShowAreas\<close> (spec section 4.2, step 8; the listeners are not in the repository).
  \<open>streamRun\<close> is the viewport controller feeding a run of moves to the cache, each
  move's events delivered in order to one layer.\<close>

definition applyEvent :: "logic_event \<Rightarrow> 'd mapLayer \<Rightarrow> 'd mapLayer" where
  "applyEvent e L =
     (case e of MapShowAreaChange p a addIds removeIds \<Rightarrow> udpateShowAreas addIds removeIds L
              | MapEenterChange p \<Rightarrow> L)"

fun streamRun ::
  "map_util \<Rightarrow> rsize \<Rightarrow> (ipoint \<times> rpoint) list \<Rightarrow> mapProxy \<times> 'd mapLayer \<Rightarrow> mapProxy \<times> 'd mapLayer"
  where
  "streamRun u vsize [] sl = sl"
| "streamRun u vsize ((p, px) # ms) (s, L) =
     (let (_, s', evs) = setCurCenterPoint u vsize p px s
      in streamRun u vsize ms (s', fold applyEvent evs L))"

text \<open>The layer covers the centre: every valid area of the current nine-grid is shown.\<close>

definition covered :: "map_util \<Rightarrow> mapProxy \<Rightarrow> 'd mapLayer \<Rightarrow> bool" where
  "covered u s L \<longleftrightarrow>
     curCenterAreaId s = -1 \<or> set (get9GridVaildAreaIds u (curCenterAreaId s)) \<subseteq> shownAreas L"

text \<open>A 40 x 40 map with the spec's tiles and view: 5 x 5 areas of 8 x 8 cells, large
  enough for a jump of more than 3 areas.\<close>

definition big_map :: tiled_map where
  "big_map = demo_map\<lparr>uit_width := 10240, uit_height := 5120, tm_mapSize := (40, 40)\<rparr>"

definition big_util :: map_util where
  "big_util = initMapConfig big_map (1280, 720)"

lemma big_util_eq:
  "big_util = \<lparr> mapPixelSize = (10240, 5120), mapOffsetPoint = (5120, 2560),
     tileSize = (256, 128), mapSize = (40, 40), zeroPixelPoint = (5120, 5056),
     areaCellSize = (8, 8), areaSize = (5, 5) \<rparr>"
  by (simp add: big_util_def big_map_def demo_map_def initMapConfig_def)

section \<open>Events and shown areas\<close>

lemma shown_events:
  "shownAreas (fold applyEvent [MapEenterChange p, MapShowAreaChange p a adds rems] L)
     = (shownAreas L - set rems) \<union> set adds"
  by (simp add: applyEvent_def udpateShowAreas_def shownAreas_fold_removeArea shownAreas_fold_addArea)

lemma showAreaDiff_shown:
  assumes "showAreaDiff u vsize px full cur a = (adds, rems, f)"
    and "\<not> full \<Longrightarrow> set (get9GridVaildAreaIds u cur) \<subseteq> S"
  shows "set (get9GridVaildAreaIds u a) \<subseteq> (S - set rems) \<union> set adds"
  using assms by (cases full) (auto simp: showAreaDiff_def Let_def)

lemma isFullRefresh_unset: "\<not> isFullRefresh u cur a \<Longrightarrow> cur \<noteq> -1"
  by (auto simp: isFullRefresh_def)

lemma setCurCenterPoint_covered:
  assumes "store_ok u s" "covered u s L"
    and "setCurCenterPoint u vsize point px s = (r, s', evs)"
  shows "covered u s' (fold applyEvent evs L)"
  using assms(1,3)
proof (cases rule: setCurCenterPoint_cases)
  case unmoved
  with assms(2) show ?thesis by simp
next
  case same
  with assms(2) show ?thesis by (simp add: covered_def applyEvent_def)
next
  case (change addIds removeIds firstAreaIds m)
  let ?a = "getAreaIdByCellPoint u (fst point) (snd point)"
  have h: "set (get9GridVaildAreaIds u ?a) \<subseteq> (shownAreas L - set removeIds) \<union> set addIds"
  proof (rule showAreaDiff_shown [OF change(3)])
    assume "\<not> isFullRefresh u (curCenterAreaId s) ?a"
    then show "set (get9GridVaildAreaIds u (curCenterAreaId s)) \<subseteq> shownAreas L"
      using assms(2) by (auto simp: covered_def dest: isFullRefresh_unset)
  qed
  show ?thesis unfolding change(5) covered_def shown_events using change(4) h by simp
qed

lemma setCurCenterPoint_cur:
  assumes "store_ok u s" "setCurCenterPoint u vsize point px s = (r, s', evs)"
    and "curCenterPoint s \<noteq> Some point"
  shows "curCenterAreaId s' = getAreaIdByCellPoint u (fst point) (snd point)"
  using assms(1,2)
proof (cases rule: setCurCenterPoint_cases)
  case unmoved
  with assms(3) show ?thesis by simp
qed simp_all

lemma demo_first_events:
  assumes "setCurCenterPoint demo_util (1280, 720) (0, 0) (0, 1216) initProxy = (r, s1, evs)"
  shows "evs = [MapEenterChange (0, 0), MapShowAreaChange (0, 0) 0 [2, 3, 4, 0, 1] []]"
  using store_ok_initProxy assms
proof (cases rule: setCurCenterPoint_cases)
  case unmoved
  then show ?thesis by (simp add: initProxy_def)
next
  case same
  then show ?thesis by (simp add: initProxy_def)
next
  case (change addIds removeIds firstAreaIds m)
  have "isFullRefresh demo_util (curCenterAreaId initProxy) 0"
    by (simp add: isFullRefresh_def initProxy_def)
  with change(3) have "addIds = [2, 3, 4, 0, 1]" "removeIds = []"
    by (simp_all add: demo_area_of showAreaDiff_full demo_nine_grid_0)
  with change(5) show ?thesis by (simp add: demo_area_of)
qed

lemma streamRun_Cons:
  "setCurCenterPoint u vsize p px s = (r, s', evs) \<Longrightarrow>
   streamRun u vsize ((p, px) # ms) (s, L) = streamRun u vsize ms (s', fold applyEvent evs L)"
  by simp

section \<open>Properties of the pipeline\<close>

text \<open>C9: along any run of moves, starting from a cache whose store is consistent and
  a layer that covers its centre, the layer keeps showing every valid area of the current
  centre's nine-grid.\<close>

theorem streamRun_covered:
  assumes "store_ok u s" "covered u s L"
  shows "covered u (fst (streamRun u vsize ms (s, L))) (snd (streamRun u vsize ms (s, L)))"
  using assms
proof (induction ms arbitrary: s L)
  case Nil
  then show ?case by simp
next
  case (Cons m ms)
  obtain p px where m: "m = (p, px)" by (cases m) blast
  obtain r s' evs where c: "setCurCenterPoint u vsize p px s = (r, s', evs)"
    by (metis prod_cases3)
  have "store_ok u s'" by (rule setCurCenterPoint_store_ok [OF Cons.prems(1) c])
  moreover have "covered u s' (fold applyEvent evs L)"
    by (rule setCurCenterPoint_covered [OF Cons.prems c])
  ultimately show ?case unfolding m streamRun_Cons [OF c] by (rule Cons.IH)
qed

theorem streamRun_covered_witness:
  "covered demo_util
     (fst (streamRun demo_util (1280, 720) [((0, 0), (0, 1216)), ((0, 8), (-1024, 704))]
            (initProxy, initLayer :: (int \<times> string) mapLayer)))
     (snd (streamRun demo_util (1280, 720) [((0, 0), (0, 1216)), ((0, 8), (-1024, 704))]
            (initProxy, initLayer :: (int \<times> string) mapLayer)))"
  by (rule streamRun_covered [OF store_ok_initProxy]) (simp add: covered_def initProxy_def)

text \<open>C10: on an incremental move the layer tracks the window exactly: if it showed
  precisely the old nine-grid, it shows precisely the new one afterwards.\<close>

theorem setCurCenterPoint_pan_exact:
  assumes "store_ok u s" "shownAreas L = set (get9GridVaildAreaIds u (curCenterAreaId s))"
    and "curCenterAreaId s \<noteq> getAreaIdByCellPoint u (fst point) (snd point)"
    and "\<not> isFullRefresh u (curCenterAreaId s) (getAreaIdByCellPoint u (fst point) (snd point))"
    and "setCurCenterPoint u vsize point px s = (r, s', evs)"
  shows "shownAreas (fold applyEvent evs L) = set (get9GridVaildAreaIds u (curCenterAreaId s'))"
  using assms(1,5)
proof (cases rule: setCurCenterPoint_cases)
  case unmoved
  with assms(2) show ?thesis by simp
next
  case same
  with assms(3) show ?thesis by simp
next
  case (change addIds removeIds firstAreaIds m)
  let ?a = "getAreaIdByCellPoint u (fst point) (snd point)"
  from change(3) have "(addIds, removeIds, firstAreaIds) =
      (filter (\<lambda>i. i \<notin> set (get9GridVaildAreaIds u (curCenterAreaId s))) (get9GridVaildAreaIds u ?a),
       filter (\<lambda>i. i \<notin> set (get9GridVaildAreaIds u ?a)) (get9GridVaildAreaIds u (curCenterAreaId s)),
       firstAreaIds)"
    using assms(4) by (simp add: showAreaDiff_pan)
  then have d: "set addIds = set (get9GridVaildAreaIds u ?a) - set (get9GridVaildAreaIds u (curCenterAreaId s))"
    "set removeIds = set (get9GridVaildAreaIds u (curCenterAreaId s)) - set (get9GridVaildAreaIds u ?a)"
    by auto
  show ?thesis unfolding change(5) shown_events using change(4) d assms(2) by auto
qed

theorem setCurCenterPoint_pan_exact_witness:
  "let (r1, s1, e1) = setCurCenterPoint demo_util (1280, 720) (0, 0) (0, 1216) initProxy;
       L1 = fold applyEvent e1 (initLayer :: (int \<times> string) mapLayer);
       (r2, s2, e2) = setCurCenterPoint demo_util (1280, 720) (0, 8) (-1024, 704) s1
   in shownAreas (fold applyEvent e2 L1) = {0, 1, 2, 3, 4, 5, 6, 7}"
proof -
  obtain r1 s1 e1 where c1: "setCurCenterPoint demo_util (1280, 720) (0, 0) (0, 1216) initProxy = (r1, s1, e1)"
    by (metis prod_cases3)
  note s1 = demo_first_call [OF c1] and e1 = demo_first_events [OF c1]
  define L1 where "L1 = fold applyEvent e1 (initLayer :: (int \<times> string) mapLayer)"
  obtain r2 s2 e2 where c2: "setCurCenterPoint demo_util (1280, 720) (0, 8) (-1024, 704) s1 = (r2, s2, e2)"
    by (metis prod_cases3)
  have ok: "store_ok demo_util s1" using s1 by blast
  have mv: "curCenterPoint s1 \<noteq> Some (0, 8)" using s1 by simp
  have shL: "shownAreas L1 = set (get9GridVaildAreaIds demo_util (curCenterAreaId s1))"
    using s1 unfolding L1_def e1 shown_events
    by (simp add: demo_nine_grid_0 shownAreas_def initLayer_def)
  have ne: "curCenterAreaId s1 \<noteq> getAreaIdByCellPoint demo_util (fst (0::int, 8::int)) (snd (0::int, 8::int))"
    using s1 by (simp add: demo_area_of)
  have pan: "\<not> isFullRefresh demo_util (curCenterAreaId s1)
      (getAreaIdByCellPoint demo_util (fst (0::int, 8::int)) (snd (0::int, 8::int)))"
  proof -
    have "\<not> isFullRefresh demo_util 0 3"
      by (simp add: isFullRefresh_def fuzzyEquals_Some demo_util_eq getAreaPointById_def js_rem_def)
    then show ?thesis using s1 by (simp add: demo_area_of)
  qed
  have cur: "curCenterAreaId s2 = 3" using setCurCenterPoint_cur [OF ok c2 mv] by (simp add: demo_area_of)
  from setCurCenterPoint_pan_exact [OF ok shL ne pan c2]
  have "shownAreas (fold applyEvent e2 L1) = {0, 1, 2, 3, 4, 5, 6, 7}"
    by (simp add: cur demo_nine_grid_3 insert_commute)
  then show ?thesis unfolding Let_def c1 using c2 by (simp add: L1_def)
qed

text \<open>C11: on a full refresh the cache removes nothing, so the layer keeps every area
  it showed and adds the new nine-grid: after a jump the old window stays materialised.\<close>

theorem setCurCenterPoint_jump_stale:
  assumes "store_ok u s" "curCenterPoint s \<noteq> Some point"
    and "isFullRefresh u (curCenterAreaId s) (getAreaIdByCellPoint u (fst point) (snd point))"
    and "setCurCenterPoint u vsize point px s = (r, s', evs)"
  shows "shownAreas (fold applyEvent evs L) =
           shownAreas L \<union> set (get9GridVaildAreaIds u (curCenterAreaId s'))"
  using assms(1,4)
proof (cases rule: setCurCenterPoint_cases)
  case unmoved
  with assms(2) show ?thesis by simp
next
  case same
  with assms(3) show ?thesis by (simp add: isFullRefresh_same)
next
  case (change addIds removeIds firstAreaIds m)
  from change(3) have "addIds = get9GridVaildAreaIds u (getAreaIdByCellPoint u (fst point) (snd point))"
    "removeIds = []"
    using assms(3) by (simp_all add: showAreaDiff_full)
  then show ?thesis unfolding change(5) shown_events using change(4) by simp
qed

lemma big_area_of: "getAreaIdByCellPoint big_util 0 0 = 0" "getAreaIdByCellPoint big_util 39 39 = 24"
  by (simp_all add: big_util_eq getAreaIdByCellPoint_def getAreaPointByCellPoint_def getIdByAreaPoint_def)

lemma big_jump: "isFullRefresh big_util 0 24"
  by (simp add: isFullRefresh_def fuzzyEquals_Some big_util_eq getAreaPointById_def js_rem_def)

lemma big_nine_grid_24: "get9GridVaildAreaIds big_util 24 = [23, 24, 18, 19, 20]"
  by (simp add: big_util_eq get9GridVaildAreaIds_def get9GridAreaIds_def isVaildAreaId_def areaCount_def)

theorem setCurCenterPoint_jump_stale_witness:
  "let s = initProxy\<lparr>curCenterPoint := Some (0, 0), curCenterAreaId := 0\<rparr>;
       L = udpateShowAreas [4, 5, 6, 0, 1] [] (initLayer :: (int \<times> string) mapLayer);
       (r, s', evs) = setCurCenterPoint big_util (1280, 720) (39, 39) (0, -2496) s
   in shownAreas (fold applyEvent evs L) = {0, 1, 4, 5, 6, 18, 19, 20, 23, 24}"
proof -
  define s where "s = initProxy\<lparr>curCenterPoint := Some (0, 0), curCenterAreaId := 0\<rparr>"
  define L where "L = udpateShowAreas [4, 5, 6, 0, 1] [] (initLayer :: (int \<times> string) mapLayer)"
  obtain r s' evs where c: "setCurCenterPoint big_util (1280, 720) (39, 39) (0, -2496) s = (r, s', evs)"
    by (metis prod_cases3)
  have ok: "store_ok big_util s" by (simp add: s_def store_ok_def initProxy_def)
  have mv: "curCenterPoint s \<noteq> Some (39, 39)" by (simp add: s_def)
  have full: "isFullRefresh big_util (curCenterAreaId s) (getAreaIdByCellPoint big_util (fst (39::int, 39::int)) (snd (39::int, 39::int)))"
    by (simp add: s_def big_area_of big_jump)
  have cur: "curCenterAreaId s' = 24"
    using setCurCenterPoint_cur [OF ok c mv] by (simp add: big_area_of)
  have shL: "shownAreas L = {4, 5, 6, 0, 1}"
    by (simp add: L_def udpateShowAreas_def shownAreas_def initLayer_def addArea_def insert_commute)
  from setCurCenterPoint_jump_stale [OF ok mv full c, of L]
  have "shownAreas (fold applyEvent evs L) = {0, 1, 4, 5, 6, 18, 19, 20, 23, 24}"
    using shL by (simp add: cur big_nine_grid_24 insert_commute)
  then show ?thesis unfolding Let_def s_def [symmetric] L_def [symmetric] c by simp
qed

text \<open>C15: the controller and the tap dispatcher together: a gesture in which some
  move has a non-zero delta is a drag, and feeding the controller's events for it to the
  dispatcher hides the click panel (only \<open>moveMap\<close> reaches it; the proxy's events are
  ignored), whatever the panel showed before, and never opens one.\<close>

theorem drag_hides_click_panel:
  assumes "logicRun c (TouchBegan # map TouchMove ds @ [TouchEnd l]) s = (t, evs)"
    and "\<exists>d \<in> set ds. d \<noteq> (0, 0)" and "touch_ok ts"
  shows "forEachE (touchHandle env (lc_util c) p) evs ts = (removeClickUINode ts, None)
    \<and> \<not> clickParent (removeClickUINode ts)"
proof -
  obtain s2 e2 where rn: "logicRun c (map TouchMove ds) (onTouchBegan s) = (s2, e2)" by fastforce
  have tb: "isTouch (onTouchBegan s)" by (simp add: onTouchBegan_def)
  note mv = logicRun_touchMoves [OF tb rn]
  then obtain pevs where e2: "e2 = map ProxyEv pevs" and m: "isMove s2" using assms(2) by blast
  have "evs = e2 @ snd (onTouchEnd c l s2)"
    using assms(1) rn by (auto simp: logicRun_append split: prod.splits)
  then have "evs = map ProxyEv pevs @ [MoveMapEv]" using e2 m by (simp add: onTouchEnd_def Let_def)
  then have "forEachE (touchHandle env (lc_util c) p) evs ts = (removeClickUINode ts, None)"
    by (simp add: forEachE_append forEachE_touchHandle_proxy onMoveMap_def)
  moreover have "\<not> clickParent (removeClickUINode ts)"
    using assms(3) by (auto simp: removeClickUINode_def touch_ok_def)
  ultimately show ?thesis by simp
qed

theorem drag_hides_click_panel_witness:
  "\<not> clickParent (fst (forEachE (touchHandle demo_env demo_util initProxy)
      (snd (logicRun demo_ctx [TouchBegan, TouchMove (0, 10), TouchEnd (640, 360)] demo_start))
      (showClickUINode (ClickCity demo_city) (0, 0) initTouchLogic)))"
proof -
  obtain t evs where r: "logicRun demo_ctx (TouchBegan # map TouchMove [(0, 10)] @ [TouchEnd (640, 360)]) demo_start = (t, evs)"
    by fastforce
  have ok: "touch_ok (showClickUINode (ClickCity demo_city) (0, 0) initTouchLogic)"
    by (simp add: touch_ok_def showClickUINode_def initTouchLogic_def)
  have u: "lc_util demo_ctx = demo_util" by (simp add: demo_ctx_def)
  from drag_hides_click_panel [OF r _ ok, of demo_env initProxy] r show ?thesis by (simp add: u)
qed

end
